(* ===== verification/CA_Prelude.thy ===== *)
theory CA_Prelude
  imports Main "HOL-Library.Word" "HOL-Library.Monad_Syntax"
begin

unbundle bit_operations_syntax

text \<open>
  The vocabulary shared by the models of the ConnectAlso crates.

  \<^item> \<open>'e + 'a\<close> is Rust's \<open>Result<'a, 'e>\<close>; \<open>Err\<close> and \<open>Ok\<close> name its two sides.
  \<^item> \<open>'a panics\<close> is a computation that may panic: \<open>None\<close> is the panic, \<open>Some x\<close> a
    normal return of \<open>x\<close>. It is an option, so the \<open>do\<close> notation of
    \<open>HOL-Library.Monad_Syntax\<close> sequences it. A Rust function that returns an
    \<open>Option<T>\<close> and indexes slices therefore has the type \<open>t option panics\<close>.
  \<^item> \<open>idx\<close> and \<open>slice\<close> are Rust's \<open>xs[i]\<close> and \<open>xs[i..j]\<close>, which panic out of range.
  \<^item> \<open>be_bytes\<close> and \<open>be_val\<close> are the big-endian encodings behind \<open>to_be_bytes\<close> and
    \<open>from_be_bytes\<close>; their two inverse laws are proved once, for every width.
\<close>

section \<open>Results and panics\<close>

type_synonym u8 = "8 word"
type_synonym u16 = "16 word"
type_synonym u32 = "32 word"
type_synonym u64 = "64 word"
type_synonym bytes = "u8 list"

abbreviation Err :: "'e \<Rightarrow> 'e + 'a" where "Err \<equiv> Inl"
abbreviation Ok :: "'a \<Rightarrow> 'e + 'a" where "Ok \<equiv> Inr"

type_synonym 'a panics = "'a option"

abbreviation ret :: "'a \<Rightarrow> 'a panics" where "ret \<equiv> Some"
abbreviation panic :: "'a panics" where "panic \<equiv> None"

definition is_ok :: "'e + 'a \<Rightarrow> bool" where
  "is_ok r = (case r of Inl _ \<Rightarrow> False | Inr _ \<Rightarrow> True)"

lemma is_ok_simps [simp]: "is_ok (Ok x)" "\<not> is_ok (Err e)"
  by (simp_all add: is_ok_def)

named_theorems wire "lengths and inverse laws of the byte encodings"
named_theorems access "in-range slice accesses"

section \<open>Slice accesses that panic out of range\<close>

definition idx :: "'a list \<Rightarrow> nat \<Rightarrow> 'a panics" where
  "idx xs i = (if i < length xs then ret (xs ! i) else panic)"

definition slice :: "'a list \<Rightarrow> nat \<Rightarrow> nat \<Rightarrow> 'a list panics" where
  "slice xs i j = (if i \<le> j \<and> j \<le> length xs then ret (take (j - i) (drop i xs)) else panic)"

lemma idx_in_range [access, simp]: "i < length xs \<Longrightarrow> idx xs i = ret (xs ! i)"
  by (simp add: idx_def)

lemma idx_out_of_range [simp]: "length xs \<le> i \<Longrightarrow> idx xs i = panic"
  by (simp add: idx_def)

lemma slice_in_range [access, simp]:
  "i \<le> j \<Longrightarrow> j \<le> length xs \<Longrightarrow> slice xs i j = ret (take (j - i) (drop i xs))"
  by (simp add: slice_def)

lemma length_slice: "slice xs i j = ret ys \<Longrightarrow> length ys = j - i"
  by (auto simp: slice_def split: if_splits)

section \<open>Big-endian bytes\<close>

lemma unat_bound: "unat (w :: 'a::len word) < 2 ^ LENGTH('a)"
  by (rule unsigned_less)

fun be_bytes :: "nat \<Rightarrow> nat \<Rightarrow> bytes" where
  "be_bytes 0 v = []"
| "be_bytes (Suc n) v = be_bytes n (v div 256) @ [of_nat v]"

definition be_val :: "bytes \<Rightarrow> nat" where
  "be_val bs = foldl (\<lambda>a b. 256 * a + unat b) 0 bs"

lemma be_bytes_numeral [simp]:
  "be_bytes (numeral k) v = be_bytes (pred_numeral k) (v div 256) @ [of_nat v]"
  by (simp only: numeral_eq_Suc be_bytes.simps)

lemma be_val_Nil [simp]: "be_val [] = 0"
  by (simp add: be_val_def)

lemma be_val_snoc [simp]: "be_val (bs @ [b]) = 256 * be_val bs + unat b"
  by (simp add: be_val_def)

lemma length_be_bytes [wire, simp]: "length (be_bytes n v) = n"
  by (induction n arbitrary: v) auto

lemma unat_of_nat_u8: "unat (of_nat v :: u8) = v mod 256"
  by (simp add: unat_of_nat)

lemma be_val_be_bytes_mod: "be_val (be_bytes n v) = v mod 256 ^ n"
proof (induction n arbitrary: v)
  case 0
  then show ?case by simp
next
  case (Suc n)
  have "be_val (be_bytes (Suc n) v) = 256 * (v div 256 mod 256 ^ n) + v mod 256"
    using Suc by (simp add: unat_of_nat_u8)
  also have "\<dots> = v mod 256 ^ Suc n"
    by (simp add: mod_mult2_eq)
  finally show ?case .
qed

lemma be_val_be_bytes [wire, simp]: "v < 256 ^ n \<Longrightarrow> be_val (be_bytes n v) = v"
  by (simp add: be_val_be_bytes_mod)

lemma be_val_less: "be_val bs < 256 ^ length bs"
proof (induction bs rule: rev_induct)
  case Nil
  then show ?case by simp
next
  case (snoc b bs)
  have "unat b < 256" using unat_bound [of b] by simp
  then show ?case using snoc by simp
qed

lemma be_bytes_be_val [wire, simp]: "be_bytes (length bs) (be_val bs) = bs"
proof (induction bs rule: rev_induct)
  case Nil
  then show ?case by simp
next
  case (snoc b bs)
  have b: "unat b < 256" using unat_bound [of b] by simp
  have "of_nat (256 * be_val bs + unat b) = b"
    by (rule word_unat_eq_iff [THEN iffD2])
       (use b in \<open>simp only: unat_of_nat_u8 mod_mult_self4 mod_less\<close>)
  with snoc b show ?case
    by (simp add: div_mult_self3)
qed

lemma be_bytes_be_val_length:
  "length bs = n \<Longrightarrow> be_bytes n (be_val bs) = bs"
  by (metis be_bytes_be_val)

subsection \<open>Machine integers of the wire formats\<close>

definition u16_be :: "u16 \<Rightarrow> bytes" where "u16_be w = be_bytes 2 (unat w)"
definition u32_be :: "u32 \<Rightarrow> bytes" where "u32_be w = be_bytes 4 (unat w)"
definition u16_of_be :: "bytes \<Rightarrow> u16" where "u16_of_be bs = of_nat (be_val bs)"
definition u32_of_be :: "bytes \<Rightarrow> u32" where "u32_of_be bs = of_nat (be_val bs)"

text \<open>\<open>u64::to_le_bytes\<close>: the little-endian bytes are the big-endian ones reversed.\<close>

definition u64_le :: "u64 \<Rightarrow> bytes" where "u64_le w = rev (be_bytes 8 (unat w))"

lemma length_u16_be [wire, simp]: "length (u16_be w) = 2"
  by (simp add: u16_be_def del: be_bytes_numeral)

lemma length_u32_be [wire, simp]: "length (u32_be w) = 4"
  by (simp add: u32_be_def del: be_bytes_numeral)

lemma length_u64_le [wire, simp]: "length (u64_le w) = 8"
  by (simp add: u64_le_def del: be_bytes_numeral)

lemma u16_of_be_u16_be [wire, simp]: "u16_of_be (u16_be w) = w"
  using unat_bound [of w]
  by (simp add: u16_of_be_def u16_be_def del: be_bytes_numeral)

lemma u32_of_be_u32_be [wire, simp]: "u32_of_be (u32_be w) = w"
  using unat_bound [of w]
  by (simp add: u32_of_be_def u32_be_def del: be_bytes_numeral)

lemma u16_be_u16_of_be:
  assumes "length bs = 2" shows "u16_be (u16_of_be bs) = bs"
proof -
  have "be_val bs < 2 ^ 16" using be_val_less [of bs] assms by simp
  then have "unat (u16_of_be bs) = be_val bs" by (simp add: u16_of_be_def unat_of_nat)
  then show ?thesis using assms
    by (simp only: u16_be_def be_bytes_be_val_length)
qed

lemma u32_be_u32_of_be:
  assumes "length bs = 4" shows "u32_be (u32_of_be bs) = bs"
proof -
  have "be_val bs < 2 ^ 32" using be_val_less [of bs] assms by simp
  then have "unat (u32_of_be bs) = be_val bs" by (simp add: u32_of_be_def unat_of_nat)
  then show ?thesis using assms
    by (simp only: u32_be_def be_bytes_be_val_length)
qed

lemma u64_le_inj: "u64_le v = u64_le w \<longleftrightarrow> v = w"
proof
  assume "u64_le v = u64_le w"
  then have "be_val (be_bytes 8 (unat v)) = be_val (be_bytes 8 (unat w))"
    by (simp add: u64_le_def del: be_bytes_numeral)
  then have "unat v = unat w"
    using unat_bound [of v] unat_bound [of w] by (simp del: be_bytes_numeral)
  then show "v = w" by (rule word_unat_eq_iff [THEN iffD2])
qed simp

text \<open>
  A UUID is an opaque array of sixteen bytes; \<open>Uuid::as_bytes\<close> and \<open>Uuid::from_bytes\<close> are
  inverse to each other.
\<close>

type_synonym uuid = "128 word"

definition uuid_bytes :: "uuid \<Rightarrow> bytes" where "uuid_bytes u = be_bytes 16 (unat u)"
definition uuid_of_bytes :: "bytes \<Rightarrow> uuid" where "uuid_of_bytes bs = of_nat (be_val bs)"
definition uuid_nil :: uuid where "uuid_nil = 0"

lemma length_uuid_bytes [wire, simp]: "length (uuid_bytes u) = 16"
  by (simp add: uuid_bytes_def del: be_bytes_numeral)

lemma uuid_of_bytes_uuid_bytes [wire, simp]: "uuid_of_bytes (uuid_bytes u) = u"
  using unat_bound [of u]
  by (simp add: uuid_of_bytes_def uuid_bytes_def del: be_bytes_numeral)

lemma uuid_bytes_uuid_of_bytes:
  assumes "length bs = 16" shows "uuid_bytes (uuid_of_bytes bs) = bs"
proof -
  have "be_val bs < 2 ^ 128" using be_val_less [of bs] assms by simp
  then have "unat (uuid_of_bytes bs) = be_val bs" by (simp add: uuid_of_bytes_def unat_of_nat)
  then show ?thesis using assms
    by (simp only: uuid_bytes_def be_bytes_be_val_length)
qed

text \<open>
  Two adjacent bytes read as \<open>u16::from_be_bytes([data[i], data[i + 1]])\<close>, four as
  \<open>u32::from_be_bytes\<close>: the accesses panic when the slice is too short.
\<close>

definition u16_at :: "bytes \<Rightarrow> nat \<Rightarrow> u16 panics" where
  "u16_at data i = do { a \<leftarrow> idx data i; b \<leftarrow> idx data (i + 1); ret (u16_of_be [a, b]) }"

definition u32_at :: "bytes \<Rightarrow> nat \<Rightarrow> u32 panics" where
  "u32_at data i = do {
     a \<leftarrow> idx data i; b \<leftarrow> idx data (i + 1); c \<leftarrow> idx data (i + 2); d \<leftarrow> idx data (i + 3);
     ret (u32_of_be [a, b, c, d]) }"

lemma take_2_drop: "i + 1 < length xs \<Longrightarrow> take 2 (drop i xs) = [xs ! i, xs ! (i + 1)]"
  by (simp add: numeral_2_eq_2 take_Suc_conv_app_nth)

lemma take_4_drop:
  "i + 3 < length xs \<Longrightarrow> take 4 (drop i xs) = [xs ! i, xs ! (i + 1), xs ! (i + 2), xs ! (i + 3)]"
  by (simp add: numeral_eq_Suc take_Suc_conv_app_nth)

lemma u16_at_in_range [access, simp]:
  "i + 1 < length data \<Longrightarrow> u16_at data i = ret (u16_of_be (take 2 (drop i data)))"
  by (simp add: u16_at_def take_2_drop)

lemma u32_at_in_range [access, simp]:
  "i + 3 < length data \<Longrightarrow> u32_at data i = ret (u32_of_be (take 4 (drop i data)))"
  by (simp add: u32_at_def take_4_drop)

section \<open>Saturating subtraction of \<open>i64\<close>\<close>

text \<open>Timestamps are \<open>i64\<close>, modelled as \<open>int\<close>; \<open>i64::saturating_sub\<close> clamps.\<close>

definition i64_min :: int where "i64_min = - (2 ^ 63)"
definition i64_max :: int where "i64_max = 2 ^ 63 - 1"

definition i64_saturating_sub :: "int \<Rightarrow> int \<Rightarrow> int" where
  "i64_saturating_sub a b = max i64_min (min i64_max (a - b))"

lemma i64_saturating_sub_exact:
  "i64_min \<le> a - b \<Longrightarrow> a - b \<le> i64_max \<Longrightarrow> i64_saturating_sub a b = a - b"
  by (simp add: i64_saturating_sub_def)

section \<open>Interfaces\<close>

text \<open>
  A component whose operations are steps of one state: an invariant that every step keeps
  holds after any sequence of steps.
\<close>

locale step_system =
  fixes step :: "'s \<Rightarrow> 'e \<Rightarrow> 's"
    and inv :: "'s \<Rightarrow> bool"
  assumes step_inv: "inv s \<Longrightarrow> inv (step s e)"
begin

lemma run_inv: "inv s \<Longrightarrow> inv (foldl step s es)"
  by (induction es arbitrary: s) (auto intro: step_inv)

lemma run_inv_prefix: "inv s \<Longrightarrow> inv (foldl step s (take n es))"
  by (rule run_inv)

end

text \<open>
  A step that can only move a measured quantity along a preorder moves it along that preorder
  over any sequence of steps.
\<close>

locale monotone_system =
  fixes step :: "'s \<Rightarrow> 'e \<Rightarrow> 's"
    and le :: "'s \<Rightarrow> 's \<Rightarrow> bool"
  assumes le_refl: "le s s"
    and le_trans: "le s t \<Longrightarrow> le t u \<Longrightarrow> le s u"
    and step_le: "le s (step s e)"
begin

lemma run_le: "le s (foldl step s es)"
  by (induction es arbitrary: s) (auto intro: le_refl le_trans step_le)

end

text \<open>
  A message format: \<open>enc\<close> may refuse a message, \<open>dec\<close> may refuse or (a defect) panic. A peer
  that relies on the format relies on these two laws: what is encoded decodes to the same
  message, and decoding never panics.
\<close>

locale message_format =
  fixes enc :: "'m \<Rightarrow> 'e + bytes"
    and dec :: "bytes \<Rightarrow> ('e + 'm) panics"
  assumes dec_enc: "enc m = Ok bs \<Longrightarrow> dec bs = ret (Ok m)"
    and dec_returns: "dec bs \<noteq> panic"
begin

lemma enc_inj: "enc m = Ok bs \<Longrightarrow> enc m' = Ok bs \<Longrightarrow> m = m'"
  by (metis dec_enc option.inject sum.inject(2))

lemma dec_cases:
  obtains (bad) e where "dec bs = ret (Err e)" | (good) m where "dec bs = ret (Ok m)"
  using dec_returns [of bs] by (cases "dec bs") (auto split: sum.splits, metis sum.exhaust)

lemma enc_dec_enc: "dec bs = ret (Ok m) \<Longrightarrow> enc m = Ok bs' \<Longrightarrow> dec bs' = dec bs"
  by (simp add: dec_enc)

end

section \<open>Stable sorting by a key\<close>

text \<open>
  \<open>slice::sort_by_key\<close> is stable, and so is \<open>sort_key\<close> of the list library. The head
  of a sorted list is the first element with the least key.
\<close>

definition first_min :: "('a \<Rightarrow> 'k::linorder) \<Rightarrow> 'a list \<Rightarrow> 'a option" where
  "first_min key xs = (if xs = [] then None else find (\<lambda>x. key x = Min (key ` set xs)) xs)"

lemma first_min_Nil [simp]: "first_min key [] = None"
  by (simp add: first_min_def)

lemma find_append_eq:
  "find P (xs @ ys) = (case find P xs of None \<Rightarrow> find P ys | Some x \<Rightarrow> Some x)"
  by (induction xs) auto

lemma find_filter_hd: "find P xs = (case filter P xs of [] \<Rightarrow> None | x # _ \<Rightarrow> Some x)"
  by (induction xs) auto

lemma find_filter_conj: "find P (filter Q xs) = find (\<lambda>x. Q x \<and> P x) xs"
  by (induction xs) auto

lemma filter_sort_key: "filter P (sort_key key xs) = sort_key key (filter P xs)"
  by (rule filter_sort)

lemma hd_sort_key_min:
  assumes "xs \<noteq> []"
  shows "key (hd (sort_key key xs)) = Min (key ` set xs)"
proof -
  have ne: "sort_key key xs \<noteq> []" using assms by (metis set_empty set_sort)
  have "key (hd (sort_key key xs)) \<le> key x" if "x \<in> set xs" for x
  proof -
    have "x \<in> set (sort_key key xs)" using that by simp
    moreover have "sorted (map key (sort_key key xs))" by simp
    ultimately show ?thesis using ne
      by (cases "sort_key key xs") auto
  qed
  moreover have "hd (sort_key key xs) \<in> set xs" using ne by (metis hd_in_set set_sort)
  ultimately show ?thesis by (intro Min_eqI [symmetric]) auto
qed

lemma hd_sort_key_first_min:
  assumes "xs \<noteq> []"
  shows "first_min key xs = Some (hd (sort_key key xs))"
proof -
  let ?m = "Min (key ` set xs)"
  have ne: "sort_key key xs \<noteq> []" using assms by (metis set_empty set_sort)
  have "filter (\<lambda>x. key x = ?m) xs = filter (\<lambda>x. key x = ?m) (sort_key key xs)"
    by (simp add: sort_key_stable)
  then have "find (\<lambda>x. key x = ?m) xs = find (\<lambda>x. key x = ?m) (sort_key key xs)"
    by (simp add: find_filter_hd)
  also have "\<dots> = Some (hd (sort_key key xs))"
    using ne hd_sort_key_min [OF assms, of key] by (cases "sort_key key xs") auto
  finally show ?thesis using assms by (simp add: first_min_def)
qed

lemma first_min_SomeD:
  assumes "first_min key xs = Some x"
  shows "x \<in> set xs" and "\<forall>y\<in>set xs. key x \<le> key y"
  using assms by (auto simp: first_min_def find_Some_iff split: if_splits)

lemma first_min_None [simp]: "first_min key xs = None \<longleftrightarrow> xs = []"
  using hd_sort_key_first_min [of xs key] by (auto simp: first_min_def)

lemma first_min_snoc:
  "first_min key (xs @ [y]) =
     (case first_min key xs of
        None \<Rightarrow> Some y
      | Some x \<Rightarrow> if key y < key x then Some y else Some x)"
proof (cases "first_min key xs")
  case None
  then have "xs = []" by simp
  then show ?thesis by (simp add: first_min_def)
next
  case (Some x)
  let ?m = "Min (key ` set xs)"
  from Some have ne: "xs \<noteq> []" by (auto simp: first_min_def)
  from Some ne have f: "find (\<lambda>z. key z = ?m) xs = Some x" by (simp add: first_min_def)
  then have kx: "key x = ?m" by (auto simp: find_Some_iff)
  have m: "Min (key ` set (xs @ [y])) = min (key y) ?m" using ne by simp
  have "find (\<lambda>z. key z = key y) xs = None" if "key y < key x"
    using that Some by (fastforce simp: find_None_iff dest: first_min_SomeD(2))
  with f kx m Some show ?thesis
    by (auto simp: first_min_def find_append_eq min_def not_less)
qed

end
