(* ===== verification/Net_Addr.thy ===== *)
theory Net_Addr
  imports CA_Prelude
begin

text \<open>
  The parts of \<open>std::net\<close> and of string parsing that the crates rely on: IPv4 addresses as
  32-bit words in network order, their dotted-decimal \<open>Display\<close> and \<open>FromStr\<close>, socket
  addresses, \<open>str::split\<close> on a character and \<open>u8::from_str\<close>. The database stores addresses
  as text, so the round trip \<open>parse_ipv4 (show_ipv4 a) = Some a\<close> is what makes a stored
  address come back unchanged.
\<close>

section \<open>Addresses\<close>

type_synonym ipv4 = "32 word"
type_synonym ipv6 = "128 word"

datatype ip_addr = V4 ipv4 | V6 ipv6

datatype socket_addr = SocketAddr (addr_ip: ip_addr) (addr_port: u16)

definition ipv4_octets :: "ipv4 \<Rightarrow> bytes" where
  "ipv4_octets a = u32_be a"

definition ipv4_new :: "u8 \<Rightarrow> u8 \<Rightarrow> u8 \<Rightarrow> u8 \<Rightarrow> ipv4" where
  "ipv4_new a b c d = u32_of_be [a, b, c, d]"

definition ipv6_octets :: "ipv6 \<Rightarrow> bytes" where
  "ipv6_octets a = be_bytes 16 (unat a)"

definition ipv4_unspecified :: ipv4 where "ipv4_unspecified = 0"

fun is_unspecified :: "ip_addr \<Rightarrow> bool" where
  "is_unspecified (V4 a) \<longleftrightarrow> a = 0"
| "is_unspecified (V6 a) \<longleftrightarrow> a = 0"

lemma length_ipv4_octets [wire, simp]: "length (ipv4_octets a) = 4"
  by (simp add: ipv4_octets_def)

lemma length_ipv6_octets [wire, simp]: "length (ipv6_octets a) = 16"
  by (simp add: ipv6_octets_def del: be_bytes_numeral)

lemma u32_of_be_ipv4_octets [wire, simp]: "u32_of_be (ipv4_octets a) = a"
  by (simp add: ipv4_octets_def)

lemma ipv4_octets_new [wire, simp]: "ipv4_octets (ipv4_new a b c d) = [a, b, c, d]"
  by (simp add: ipv4_octets_def ipv4_new_def u32_be_u32_of_be)

lemma ipv4_octets_cases:
  obtains a b c d where "ipv4_octets ip = [a, b, c, d]" "ip = ipv4_new a b c d"
proof -
  have "length (ipv4_octets ip) = Suc (Suc (Suc (Suc 0)))" by simp
  then obtain a b c d where o: "ipv4_octets ip = [a, b, c, d]"
    by (auto simp only: length_Suc_conv length_0_conv)
  have "ip = u32_of_be (ipv4_octets ip)" by simp
  then have "ip = ipv4_new a b c d" by (simp only: o ipv4_new_def)
  with o show thesis by (rule that)
qed

section \<open>Splitting and joining strings\<close>

fun split_on :: "char \<Rightarrow> string \<Rightarrow> string list" where
  "split_on c [] = [[]]"
| "split_on c (x # xs) =
     (if x = c then [] # split_on c xs
      else (case split_on c xs of [] \<Rightarrow> [[x]] | p # ps \<Rightarrow> (x # p) # ps))"

fun join_with :: "string \<Rightarrow> string list \<Rightarrow> string" where
  "join_with sep [] = []"
| "join_with sep [p] = p"
| "join_with sep (p # q # ps) = p @ sep @ join_with sep (q # ps)"

lemma split_on_no_sep: "c \<notin> set s \<Longrightarrow> split_on c s = [s]"
  by (induction s) auto

lemma split_on_append: "c \<notin> set s \<Longrightarrow> split_on c (s @ c # t) = s # split_on c t"
  by (induction s) auto

lemma split_on_nonempty [simp]: "split_on c s \<noteq> []"
  by (induction s) (auto split: list.splits)

lemma split_join:
  "ps \<noteq> [] \<Longrightarrow> (\<forall>p\<in>set ps. c \<notin> set p) \<Longrightarrow> split_on c (join_with [c] ps) = ps"
  by (induction "[c]" ps rule: join_with.induct) (auto simp: split_on_no_sep split_on_append)

section \<open>Decimal numbers\<close>

definition digit_char :: "nat \<Rightarrow> char" where
  "digit_char d = char_of (48 + d)"

definition is_digit :: "char \<Rightarrow> bool" where
  "is_digit c \<longleftrightarrow> 48 \<le> (of_char c :: nat) \<and> (of_char c :: nat) \<le> 57"

definition digit_val :: "char \<Rightarrow> nat" where
  "digit_val c = of_char c - 48"

fun show_nat :: "nat \<Rightarrow> string" where
  "show_nat n = (if n < 10 then [digit_char n] else show_nat (n div 10) @ [digit_char (n mod 10)])"

declare show_nat.simps [simp del]

definition dec_val :: "string \<Rightarrow> nat" where
  "dec_val s = foldl (\<lambda>a c. 10 * a + digit_val c) 0 s"

lemma of_char_digit_char: "d < 10 \<Longrightarrow> (of_char (digit_char d) :: nat) = 48 + d"
  by (simp add: digit_char_def)

lemma digit_char_digit [simp]: "d < 10 \<Longrightarrow> is_digit (digit_char d)"
  by (simp add: is_digit_def of_char_digit_char)

lemma digit_val_digit_char [simp]: "d < 10 \<Longrightarrow> digit_val (digit_char d) = d"
  by (simp add: digit_val_def of_char_digit_char)

lemma dec_val_snoc: "dec_val (s @ [c]) = 10 * dec_val s + digit_val c"
  by (simp add: dec_val_def)

lemma show_nat_digits: "list_all is_digit (show_nat n)"
proof (induction n rule: show_nat.induct)
  case (1 n)
  show ?case
  proof (cases "n < 10")
    case True
    then show ?thesis by (subst show_nat.simps) simp
  next
    case False
    then show ?thesis using "1.IH" by (subst show_nat.simps) simp
  qed
qed

lemma show_nat_nonempty [simp]: "show_nat n \<noteq> []"
  by (subst show_nat.simps) simp

lemma dec_val_show_nat [simp]: "dec_val (show_nat n) = n"
proof (induction n rule: show_nat.induct)
  case (1 n)
  show ?case
  proof (cases "n < 10")
    case True
    then show ?thesis by (subst show_nat.simps) (simp add: dec_val_def)
  next
    case False
    then show ?thesis using "1.IH" by (subst show_nat.simps) (simp add: dec_val_snoc)
  qed
qed

lemma hd_show_nat: "0 < n \<Longrightarrow> hd (show_nat n) \<noteq> CHR ''0''"
proof (induction n rule: show_nat.induct)
  case (1 n)
  show ?case
  proof (cases "n < 10")
    case True
    have "digit_val (hd (show_nat n)) = n"
      using True by (subst show_nat.simps) simp
    then show ?thesis using "1.prems" by (auto simp: digit_val_def)
  next
    case False
    then have "hd (show_nat n) = hd (show_nat (n div 10))"
      by (subst show_nat.simps) simp
    with False "1.IH" show ?thesis by simp
  qed
qed

lemma length_show_nat_255: "n < 256 \<Longrightarrow> length (show_nat n) \<le> 3"
  by (subst show_nat.simps, simp)+

lemma show_nat_0: "show_nat 0 = [CHR ''0'']"
  by code_simp

lemma not_digit_show_nat: "\<not> is_digit c \<Longrightarrow> c \<notin> set (show_nat n)"
  using show_nat_digits [of n] by (auto simp: list_all_iff)

section \<open>Textual IPv4 addresses\<close>

definition show_ipv4 :: "ipv4 \<Rightarrow> string" where
  "show_ipv4 ip = join_with ''.'' (map (\<lambda>o'. show_nat (unat o')) (ipv4_octets ip))"

text \<open>
  \<open>Ipv4Addr::from_str\<close>: four groups of one to three digits, none with a leading zero unless
  it is the digit \<open>0\<close> alone, each at most 255.
\<close>

definition parse_octet :: "string \<Rightarrow> u8 option" where
  "parse_octet s =
     (if s \<noteq> [] \<and> length s \<le> 3 \<and> list_all is_digit s \<and> (hd s = CHR ''0'' \<longrightarrow> length s = 1)
         \<and> dec_val s \<le> 255
      then Some (of_nat (dec_val s)) else None)"

definition parse_ipv4 :: "string \<Rightarrow> ipv4 option" where
  "parse_ipv4 s = (case split_on (CHR ''.'') s of
      [w, x, y, z] \<Rightarrow>
        do { a \<leftarrow> parse_octet w; b \<leftarrow> parse_octet x; c \<leftarrow> parse_octet y; d \<leftarrow> parse_octet z;
             Some (ipv4_new a b c d) }
    | _ \<Rightarrow> None)"

text \<open>\<open>u8::from_str\<close> takes an optional plus sign and leading zeros.\<close>

definition parse_u8 :: "string \<Rightarrow> u8 option" where
  "parse_u8 s =
     (let t = (case s of c # r \<Rightarrow> (if c = CHR ''+'' then r else s) | [] \<Rightarrow> [])
      in if t \<noteq> [] \<and> list_all is_digit t \<and> dec_val t \<le> 255
         then Some (of_nat (dec_val t)) else None)"

lemma parse_octet_show:
  "parse_octet (show_nat (unat (w :: u8))) = Some w"
proof -
  have b: "unat w < 256" using unat_bound [of w] by simp
  have z: "hd (show_nat (unat w)) = CHR ''0'' \<Longrightarrow> length (show_nat (unat w)) = 1"
    using hd_show_nat [of "unat w"] show_nat_0 by (cases "unat w = 0") auto
  from b z show ?thesis
    by (simp add: parse_octet_def show_nat_digits length_show_nat_255)
qed

lemma dot_not_in_show_nat: "CHR ''.'' \<notin> set (show_nat n)"
  by (rule not_digit_show_nat) (simp add: is_digit_def)

lemma parse_show_ipv4 [simp]: "parse_ipv4 (show_ipv4 ip) = Some ip"
proof -
  obtain a b c d where o: "ipv4_octets ip = [a, b, c, d]" and ip: "ip = ipv4_new a b c d"
    by (rule ipv4_octets_cases)
  have "split_on (CHR ''.'') (show_ipv4 ip) = map (\<lambda>o'. show_nat (unat o')) (ipv4_octets ip)"
    unfolding show_ipv4_def by (rule split_join) (auto simp: o dot_not_in_show_nat)
  then show ?thesis
    by (simp add: parse_ipv4_def o parse_octet_show ip del: join_with.simps)
qed

lemma show_ipv4_inj [simp]: "show_ipv4 x = show_ipv4 y \<longleftrightarrow> x = y"
  by (metis option.inject parse_show_ipv4)

lemma show_ipv4_nonempty [simp]: "show_ipv4 ip \<noteq> []"
proof -
  obtain a b c d where "ipv4_octets ip = [a, b, c, d]" by (rule ipv4_octets_cases)
  then show ?thesis by (simp add: show_ipv4_def)
qed

lemma parse_ipv4_Nil [simp]: "parse_ipv4 [] = None"
  by (simp add: parse_ipv4_def)

lemma show_ipv4_chars: "c \<noteq> CHR ''.'' \<Longrightarrow> \<not> is_digit c \<Longrightarrow> c \<notin> set (show_ipv4 ip)"
proof -
  assume "c \<noteq> CHR ''.''" "\<not> is_digit c"
  moreover obtain w x y z where "ipv4_octets ip = [w, x, y, z]" by (rule ipv4_octets_cases)
  ultimately show ?thesis by (simp add: show_ipv4_def not_digit_show_nat del: show_nat.simps)
qed

lemma parse_u8_show: "n < 256 \<Longrightarrow> parse_u8 (show_nat n) = Some (of_nat n)"
proof -
  assume n: "n < 256"
  have "CHR ''+'' \<notin> set (show_nat n)" by (rule not_digit_show_nat) (simp add: is_digit_def)
  then have "(case show_nat n of c # r \<Rightarrow> (if c = CHR ''+'' then r else show_nat n) | [] \<Rightarrow> []) = show_nat n"
    by (cases "show_nat n") auto
  with n show ?thesis by (simp add: parse_u8_def show_nat_digits del: show_nat.simps)
qed

section \<open>Sample addresses\<close>

text \<open>Documentation addresses (192.0.2.0/24) on which the examples are evaluated.\<close>

definition addr_a :: socket_addr where "addr_a = SocketAddr (V4 (ipv4_new 192 0 2 1)) 4001"
definition addr_b :: socket_addr where "addr_b = SocketAddr (V4 (ipv4_new 192 0 2 2)) 4002"
definition addr_c :: socket_addr where "addr_c = SocketAddr (V4 (ipv4_new 192 0 2 3)) 4003"

end
