(* ===== verification/Acl.thy ===== *)
theory Acl
  imports Net_Addr
begin

text \<open>
  \<open>crates/core/src/lib.rs\<close>: the shared data types, the IPv4 header parser used for packet
  filtering, the matching of one ACL rule and the evaluation of a rule list. The parser reads
  the packet with accesses that would panic out of range; the lemmas show that it never does,
  and that the evaluation is "the first matching rule of least priority decides, otherwise
  allow".
\<close>

section \<open>Data\<close>

record dns_record =
  dns_hostname :: string
  dns_ipv4 :: ipv4

record acl_rule =
  priority :: u32
  action :: string
  rule_src_ip :: string
  rule_dst_ip :: string
  rule_protocol :: string
  rule_src_port :: u16
  rule_dst_port :: u16

record packet_info =
  pkt_src_ip :: ipv4
  pkt_dst_ip :: ipv4
  pkt_protocol :: u8
  pkt_src_port :: u16
  pkt_dst_port :: u16

section \<open>Parsing a packet\<close>

text \<open>\<open>((packet[0] & 0x0F) * 4) as usize\<close>, the multiplication in \<open>u8\<close>.\<close>

definition ihl_bytes :: "u8 \<Rightarrow> nat" where
  "ihl_bytes b = unat ((b AND 0x0F) * 4)"

definition packet_parse :: "bytes \<Rightarrow> packet_info option panics" where
  "packet_parse packet =
     (if length packet < 20 then ret None
      else do {
        b0 \<leftarrow> idx packet 0;
        if drop_bit 4 b0 \<noteq> 4 then ret None
        else do {
          s0 \<leftarrow> idx packet 12; s1 \<leftarrow> idx packet 13; s2 \<leftarrow> idx packet 14; s3 \<leftarrow> idx packet 15;
          d0 \<leftarrow> idx packet 16; d1 \<leftarrow> idx packet 17; d2 \<leftarrow> idx packet 18; d3 \<leftarrow> idx packet 19;
          proto \<leftarrow> idx packet 9;
          (sp, dp) \<leftarrow>
            (if length packet \<ge> 24 \<and> (proto = 6 \<or> proto = 17)
             then (let ihl = ihl_bytes b0 in
                   if length packet \<ge> ihl + 4
                   then do { sp \<leftarrow> u16_at packet ihl; dp \<leftarrow> u16_at packet (ihl + 2); ret (sp, dp) }
                   else ret (0, 0))
             else ret (0, 0));
          ret (Some \<lparr>pkt_src_ip = ipv4_new s0 s1 s2 s3, pkt_dst_ip = ipv4_new d0 d1 d2 d3,
                     pkt_protocol = proto, pkt_src_port = sp, pkt_dst_port = dp\<rparr>)
        }
      })"

text \<open>What the parser computes, without the accesses: the reference for the proofs.\<close>

definition is_ipv4_packet :: "bytes \<Rightarrow> bool" where
  "is_ipv4_packet packet \<longleftrightarrow> 20 \<le> length packet \<and> drop_bit 4 (packet ! 0) = 4"

definition packet_ports :: "bytes \<Rightarrow> u16 \<times> u16" where
  "packet_ports packet =
     (let ihl = ihl_bytes (packet ! 0) in
      if 24 \<le> length packet \<and> (packet ! 9 = 6 \<or> packet ! 9 = 17) \<and> ihl + 4 \<le> length packet
      then (u16_of_be (take 2 (drop ihl packet)), u16_of_be (take 2 (drop (ihl + 2) packet)))
      else (0, 0))"

definition packet_fields :: "bytes \<Rightarrow> packet_info" where
  "packet_fields packet =
     \<lparr>pkt_src_ip = u32_of_be (take 4 (drop 12 packet)),
      pkt_dst_ip = u32_of_be (take 4 (drop 16 packet)),
      pkt_protocol = packet ! 9,
      pkt_src_port = fst (packet_ports packet), pkt_dst_port = snd (packet_ports packet)\<rparr>"

lemma ipv4_new_take:
  "i + 3 < length xs \<Longrightarrow>
     ipv4_new (xs ! i) (xs ! (i + 1)) (xs ! (i + 2)) (xs ! (i + 3)) = u32_of_be (take 4 (drop i xs))"
  by (simp add: ipv4_new_def take_4_drop)

lemmas ipv4_new_take_src = ipv4_new_take [of 12, simplified]
lemmas ipv4_new_take_dst = ipv4_new_take [of 16, simplified]

text \<open>
  On every byte string the packet parser returns (no access is out of range), it accepts
  exactly the strings of at least 20 bytes whose version nibble is 4, and its result has the
  addresses of bytes 12-15 and 16-19, the protocol of byte 9 and, for TCP and UDP with a
  complete header, the ports that follow the header length of the first byte.
\<close>

theorem packet_parse_total:
  "packet_parse packet =
     ret (if is_ipv4_packet packet then Some (packet_fields packet) else None)"
proof (cases "length packet < 20")
  case True
  then show ?thesis by (simp add: packet_parse_def is_ipv4_packet_def)
next
  case False
  then have "packet \<noteq> []" by auto
  with False show ?thesis
    by (auto simp add: packet_parse_def is_ipv4_packet_def packet_fields_def packet_ports_def Let_def
        ipv4_new_take_src ipv4_new_take_dst)
qed

section \<open>Matching and evaluating rules\<close>

text \<open>
  An address test of \<open>AclRule::matches\<close>: an empty string accepts every address, and so does
  a string that does not parse.
\<close>

definition ip_excluded :: "string \<Rightarrow> ipv4 \<Rightarrow> bool" where
  "ip_excluded s a \<longleftrightarrow>
     s \<noteq> [] \<and> (case parse_ipv4 s of Some ip \<Rightarrow> ip \<noteq> a | None \<Rightarrow> False)"

definition proto_number :: "string \<Rightarrow> u8 option" where
  "proto_number s = (if s = ''tcp'' then Some 6 else if s = ''udp'' then Some 17
                     else if s = ''icmp'' then Some 1 else None)"

definition rule_matches :: "acl_rule \<Rightarrow> packet_info \<Rightarrow> bool" where
  "rule_matches r pkt =
     (if ip_excluded (rule_src_ip r) (pkt_src_ip pkt) then False
      else if ip_excluded (rule_dst_ip r) (pkt_dst_ip pkt) then False
      else if rule_protocol r \<noteq> [] \<and>
              (case proto_number (rule_protocol r) of
                 None \<Rightarrow> True | Some n \<Rightarrow> pkt_protocol pkt \<noteq> n) then False
      else if rule_src_port r \<noteq> 0 \<and> pkt_src_port pkt \<noteq> rule_src_port r then False
      else if rule_dst_port r \<noteq> 0 \<and> pkt_dst_port pkt \<noteq> rule_dst_port r then False
      else True)"

definition verdict :: "acl_rule \<Rightarrow> string" where
  "verdict r = (if action r = ''deny'' then ''deny'' else ''allow'')"

fun first_verdict :: "acl_rule list \<Rightarrow> packet_info \<Rightarrow> string" where
  "first_verdict [] pkt = ''allow''"
| "first_verdict (r # rs) pkt = (if rule_matches r pkt then verdict r else first_verdict rs pkt)"

definition evaluate_acls :: "acl_rule list \<Rightarrow> bytes \<Rightarrow> string panics" where
  "evaluate_acls rules packet = do {
     info \<leftarrow> packet_parse packet;
     case info of
       None \<Rightarrow> ret ''allow''
     | Some pkt \<Rightarrow> ret (first_verdict (sort_key priority rules) pkt)
   }"

text \<open>The abstract policy: among the matching rules, the first one of least priority decides.\<close>

definition policy :: "acl_rule list \<Rightarrow> packet_info \<Rightarrow> string" where
  "policy rules pkt =
     (case first_min priority (filter (\<lambda>r. rule_matches r pkt) rules) of
        None \<Rightarrow> ''allow'' | Some r \<Rightarrow> verdict r)"

lemma first_verdict_filter:
  "first_verdict rs pkt =
     (case filter (\<lambda>r. rule_matches r pkt) rs of [] \<Rightarrow> ''allow'' | r # _ \<Rightarrow> verdict r)"
  by (induction rs) auto

lemma first_verdict_sorted: "first_verdict (sort_key priority rules) pkt = policy rules pkt"
proof (cases "filter (\<lambda>r. rule_matches r pkt) rules")
  case Nil
  then show ?thesis
    by (simp add: first_verdict_filter filter_sort_key policy_def first_min_def)
next
  case (Cons m ms)
  let ?ms = "filter (\<lambda>r. rule_matches r pkt) rules"
  have ne: "?ms \<noteq> []" using Cons by simp
  then have "sort_key priority ?ms \<noteq> []" by (metis set_empty set_sort)
  then show ?thesis
    using hd_sort_key_first_min [OF ne, of priority]
    by (cases "sort_key priority ?ms") (auto simp: first_verdict_filter filter_sort_key policy_def)
qed

lemma evaluate_acls_policy_fact:
  "evaluate_acls rules packet =
     ret (if is_ipv4_packet packet then policy rules (packet_fields packet) else ''allow'')"
  by (simp add: evaluate_acls_def packet_parse_total first_verdict_sorted)

text \<open>
  C7: The evaluation of a rule list never panics and implements the abstract policy: a packet
  that is not IPv4 is allowed; otherwise the first rule of least priority among those that
  match decides, and with no match the packet is allowed.
\<close>

theorem evaluate_acls_policy:
  "evaluate_acls rules packet =
     ret (if is_ipv4_packet packet then policy rules (packet_fields packet) else ''allow'')"
  by (fact evaluate_acls_policy_fact)

lemma first_min_unique:
  assumes "x \<in> set xs" "\<forall>y\<in>set xs. y \<noteq> x \<longrightarrow> key x < key y"
  shows "first_min key xs = Some x"
proof -
  have "first_min key xs \<noteq> None" using assms(1) by auto
  then obtain y where y: "first_min key xs = Some y" by (cases "first_min key xs") simp_all
  then have "y \<in> set xs" "key y \<le> key x"
    using first_min_SomeD [OF y] assms(1) by auto
  with assms(2) y show ?thesis by (metis not_le)
qed

lemma first_min_distinct_keys:
  assumes "inj_on key (set xs)" "set xs = set ys"
  shows "first_min key xs = first_min key ys"
proof (cases "first_min key xs")
  case None
  then have "xs = []" by simp
  with assms(2) show ?thesis by simp
next
  case (Some x)
  have "first_min key ys = Some x"
  proof (rule first_min_unique)
    show "x \<in> set ys" using first_min_SomeD(1) [OF Some] assms(2) by simp
    show "\<forall>y\<in>set ys. y \<noteq> x \<longrightarrow> key x < key y"
      using first_min_SomeD [OF Some] assms by (metis inj_onD order_le_less)
  qed
  with Some show ?thesis by simp
qed

text \<open>
  When the rules have pairwise different priorities, the verdict depends only on the set of
  rules, not on the order in which the list holds them (the database and the caller may list
  them in any order).
\<close>

theorem evaluate_acls_order_independent:
  assumes "inj_on priority (set rules)" and "set rules = set rules'"
  shows "evaluate_acls rules packet = evaluate_acls rules' packet"
proof -
  have "policy rules pkt = policy rules' pkt" for pkt
  proof -
    let ?f = "filter (\<lambda>r. rule_matches r pkt)"
    have "inj_on priority (set (?f rules))"
      using assms(1) by (auto simp: inj_on_def)
    moreover have "set (?f rules) = set (?f rules')"
      using assms(2) by auto
    ultimately have "first_min priority (?f rules) = first_min priority (?f rules')"
      by (rule first_min_distinct_keys)
    then show ?thesis by (simp only: policy_def)
  qed
  then show ?thesis by (simp add: evaluate_acls_policy_fact)
qed

definition deny_ssh_rule :: acl_rule where
  "deny_ssh_rule = \<lparr>priority = 10, action = ''deny'', rule_src_ip = '''', rule_dst_ip = '''',
     rule_protocol = ''tcp'', rule_src_port = 0, rule_dst_port = 22\<rparr>"

definition allow_all_rule :: acl_rule where
  "allow_all_rule = \<lparr>priority = 20, action = ''allow'', rule_src_ip = '''', rule_dst_ip = '''',
     rule_protocol = '''', rule_src_port = 0, rule_dst_port = 0\<rparr>"

theorem evaluate_acls_order_independent_witness:
  "evaluate_acls [deny_ssh_rule, allow_all_rule] pkt = evaluate_acls [allow_all_rule, deny_ssh_rule] pkt"
proof (rule evaluate_acls_order_independent)
  show "inj_on priority (set [deny_ssh_rule, allow_all_rule])"
    by (simp add: deny_ssh_rule_def allow_all_rule_def)
  show "set [deny_ssh_rule, allow_all_rule] = set [allow_all_rule, deny_ssh_rule]"
    by auto
qed

text \<open>
  An address of a rule that does not parse is a wildcard, not an error and not a rule that
  matches nothing: such a rule matches exactly the packets it would match with an empty
  address.
\<close>

theorem unparsable_rule_ip_is_wildcard:
  assumes "parse_ipv4 (rule_src_ip r) = None" and "parse_ipv4 (rule_dst_ip r) = None"
  shows "rule_matches r pkt = rule_matches (r\<lparr>rule_src_ip := [], rule_dst_ip := []\<rparr>) pkt"
  using assms by (simp add: rule_matches_def ip_excluded_def)

definition deny_subnet_rule :: acl_rule where
  "deny_subnet_rule = \<lparr>priority = 1, action = ''deny'', rule_src_ip = ''10.0.0.0/8'',
     rule_dst_ip = ''192.168.1.0/24'', rule_protocol = '''', rule_src_port = 0, rule_dst_port = 0\<rparr>"

theorem unparsable_rule_ip_is_wildcard_witness:
  "rule_matches deny_subnet_rule (packet_fields (replicate 40 0))"
proof -
  have "parse_ipv4 (rule_src_ip deny_subnet_rule) = None"
    and "parse_ipv4 (rule_dst_ip deny_subnet_rule) = None"
    by code_simp+
  then show ?thesis
    by (subst unparsable_rule_ip_is_wildcard)
       (simp_all add: rule_matches_def ip_excluded_def deny_subnet_rule_def)
qed

end
