(* ===== verification/Relay_Proto.thy ===== *)
theory Relay_Proto
  imports CA_Prelude
begin

text \<open>
  \<open>crates/relay-proto/src/lib.rs\<close>: the relay frame, its constructors, \<open>encode\<close> and \<open>decode\<close>.
  The decoder is written with accesses that panic out of range, so "decoding never panics"
  (what the two fuzz targets of the crate look for) is a theorem about it. The interface
  \<open>message_format\<close> is interpreted here for the users of the frames.
\<close>

section \<open>Frames\<close>

type_synonym peer_id = uuid

definition PROTO_VERSION :: u8 where "PROTO_VERSION = 0x01"
definition MAX_PAYLOAD :: nat where "MAX_PAYLOAD = 2048"
definition HEADER_LEN :: nat where "HEADER_LEN = 1 + 1 + 16 + 16 + 2"

lemma HEADER_LEN_36 [simp]: "HEADER_LEN = 36"
  by (simp add: HEADER_LEN_def)

datatype proto_error =
    FrameTooShort nat
  | UnknownVersion u8
  | UnknownType u8
  | PayloadTooLarge nat

datatype msg_type = Hello | Data | Keepalive

fun msg_type_byte :: "msg_type \<Rightarrow> u8" where
  "msg_type_byte Hello = 0x01"
| "msg_type_byte Data = 0x02"
| "msg_type_byte Keepalive = 0x03"

definition msg_type_from_byte :: "u8 \<Rightarrow> msg_type option" where
  "msg_type_from_byte b =
     (if b = 0x01 then Some Hello
      else if b = 0x02 then Some Data
      else if b = 0x03 then Some Keepalive
      else None)"

lemma msg_type_from_to [simp]: "msg_type_from_byte (msg_type_byte t) = Some t"
  by (cases t) (simp_all add: msg_type_from_byte_def)

lemma msg_type_to_from: "msg_type_from_byte b = Some t \<Longrightarrow> msg_type_byte t = b"
  by (auto simp: msg_type_from_byte_def split: if_splits)

record relay_frame =
  sender_id :: peer_id
  target_id :: peer_id
  msg_type :: msg_type
  payload :: bytes

definition frame_hello :: "peer_id \<Rightarrow> relay_frame" where
  "frame_hello s = \<lparr>sender_id = s, target_id = uuid_nil, msg_type = Hello, payload = []\<rparr>"

definition frame_data :: "peer_id \<Rightarrow> peer_id \<Rightarrow> bytes \<Rightarrow> relay_frame" where
  "frame_data s t p = \<lparr>sender_id = s, target_id = t, msg_type = Data, payload = p\<rparr>"

definition frame_keepalive :: "peer_id \<Rightarrow> relay_frame" where
  "frame_keepalive s = \<lparr>sender_id = s, target_id = uuid_nil, msg_type = Keepalive, payload = []\<rparr>"

section \<open>Encoding and decoding\<close>

definition encode :: "relay_frame \<Rightarrow> proto_error + bytes" where
  "encode f =
     (if length (payload f) > MAX_PAYLOAD then Err (PayloadTooLarge (length (payload f)))
      else (let payload_len = (of_nat (length (payload f)) :: u16)
            in Ok ([PROTO_VERSION] @ [msg_type_byte (msg_type f)] @ uuid_bytes (sender_id f)
                   @ uuid_bytes (target_id f) @ u16_be payload_len @ payload f)))"

definition decode :: "bytes \<Rightarrow> (proto_error + relay_frame) panics" where
  "decode data =
     (if length data < HEADER_LEN then ret (Err (FrameTooShort (length data)))
      else do {
        version \<leftarrow> idx data 0;
        if version \<noteq> PROTO_VERSION then ret (Err (UnknownVersion version))
        else do {
          ty \<leftarrow> idx data 1;
          case msg_type_from_byte ty of
            None \<Rightarrow> ret (Err (UnknownType ty))
          | Some mt \<Rightarrow> do {
              sender_bytes \<leftarrow> slice data 2 18;
              target_bytes \<leftarrow> slice data 18 34;
              len \<leftarrow> u16_at data 34;
              let payload_end = HEADER_LEN + unat len;
              if length data < payload_end then ret (Err (FrameTooShort (length data)))
              else do {
                p \<leftarrow> slice data HEADER_LEN payload_end;
                ret (Ok \<lparr>sender_id = uuid_of_bytes sender_bytes,
                         target_id = uuid_of_bytes target_bytes,
                         msg_type = mt, payload = p\<rparr>)
              }
            }
        }
      })"

text \<open>The fields a well-formed datagram carries, without the accesses.\<close>

definition wire_payload_len :: "bytes \<Rightarrow> nat" where
  "wire_payload_len data = unat (u16_of_be (take 2 (drop 34 data)))"

definition wire_ok :: "bytes \<Rightarrow> bool" where
  "wire_ok data \<longleftrightarrow> 36 \<le> length data \<and> data ! 0 = PROTO_VERSION
     \<and> msg_type_from_byte (data ! 1) \<noteq> None \<and> 36 + wire_payload_len data \<le> length data"

definition wire_frame :: "bytes \<Rightarrow> relay_frame" where
  "wire_frame data = \<lparr>sender_id = uuid_of_bytes (take 16 (drop 2 data)),
     target_id = uuid_of_bytes (take 16 (drop 18 data)),
     msg_type = the (msg_type_from_byte (data ! 1)),
     payload = take (wire_payload_len data) (drop 36 data)\<rparr>"

definition wire_error :: "bytes \<Rightarrow> proto_error" where
  "wire_error data =
     (if length data < 36 then FrameTooShort (length data)
      else if data ! 0 \<noteq> PROTO_VERSION then UnknownVersion (data ! 0)
      else if msg_type_from_byte (data ! 1) = None then UnknownType (data ! 1)
      else FrameTooShort (length data))"

text \<open>
  Decoding returns on every byte string (no access is out of range, no panic): it accepts
  exactly the datagrams with a complete header of the known version and a known type whose
  announced payload is present, yields the fields at their fixed offsets, ignores bytes after
  the payload, and otherwise reports the first of the header checks that fails.
\<close>

theorem decode_total:
  "decode data = ret (if wire_ok data then Ok (wire_frame data) else Err (wire_error data))"
proof (cases "length data < 36")
  case True
  then show ?thesis by (simp add: decode_def wire_ok_def wire_error_def)
next
  case False
  then have "data \<noteq> []" by auto
  with False show ?thesis
    by (auto simp: decode_def wire_ok_def wire_error_def wire_frame_def wire_payload_len_def Let_def
        split: option.splits)
qed

lemma decode_not_panic [simp]: "decode data \<noteq> panic"
  by (simp add: decode_total)

lemma decode_OkD:
  assumes "decode data = ret (Ok f)"
  shows "wire_ok data" and "f = wire_frame data"
  using assms by (auto simp: decode_total split: if_splits)

lemma decode_payload_bound:
  assumes "decode data = ret (Ok f)"
  shows "length (payload f) + 36 \<le> length data"
  using decode_OkD [OF assms] by (auto simp: wire_ok_def wire_frame_def)

lemma payload_len_u16:
  "length p \<le> MAX_PAYLOAD \<Longrightarrow> unat (of_nat (length p) :: u16) = length p"
  by (simp add: MAX_PAYLOAD_def unat_of_nat)

lemma wire_frame_encoded:
  assumes "encode f = Ok bs"
  shows "wire_ok bs \<and> wire_frame bs = f \<and> length bs = 36 + length (payload f)"
proof -
  let ?l = "of_nat (length (payload f)) :: u16"
  have le: "length (payload f) \<le> MAX_PAYLOAD" and
    bs: "bs = PROTO_VERSION # msg_type_byte (msg_type f) # uuid_bytes (sender_id f)
                   @ uuid_bytes (target_id f) @ u16_be ?l @ payload f"
    using assms by (auto simp: encode_def Let_def split: if_splits)
  have l34: "take 2 (drop 34 bs) = u16_be ?l" by (simp add: bs)
  have len: "wire_payload_len bs = length (payload f)"
    using payload_len_u16 [OF le] by (simp add: wire_payload_len_def l34)
  have "wire_ok bs" by (simp add: wire_ok_def len) (simp add: bs)
  moreover have "wire_frame bs = f"
    by (simp add: wire_frame_def len) (simp add: bs)
  moreover have "length bs = 36 + length (payload f)" by (simp add: bs)
  ultimately show ?thesis by blast
qed

lemma decode_encode: "encode f = Ok bs \<Longrightarrow> decode bs = ret (Ok f)"
  using wire_frame_encoded [of f bs] by (simp add: decode_total)

lemma encode_Ok_iff: "(\<exists>bs. encode f = Ok bs) \<longleftrightarrow> length (payload f) \<le> MAX_PAYLOAD"
  by (auto simp: encode_def Let_def)

interpretation relay_format: message_format encode decode
  by unfold_locales (auto simp: decode_encode)

text \<open>
  C6: Every frame with a payload of at most 2048 bytes encodes, to a datagram of 36 bytes plus
  its payload, and decoding that datagram gives the frame back; a larger payload is refused
  with its length.
\<close>

theorem encode_decode_roundtrip:
  "(if length (payload f) \<le> MAX_PAYLOAD
    then (case encode f of
            Ok bs \<Rightarrow> length bs = HEADER_LEN + length (payload f) \<and> decode bs = ret (Ok f)
          | Err _ \<Rightarrow> False)
    else encode f = Err (PayloadTooLarge (length (payload f))))"
proof (cases "length (payload f) \<le> MAX_PAYLOAD")
  case True
  then obtain bs where bs: "encode f = Ok bs" using encode_Ok_iff by blast
  with True show ?thesis using wire_frame_encoded [OF bs] relay_format.dec_enc [OF bs] by simp
next
  case False
  then show ?thesis by (simp add: encode_def)
qed

lemma encode_wire_frame:
  assumes ok: "wire_ok data" and len: "wire_payload_len data \<le> MAX_PAYLOAD"
  shows "encode (wire_frame data) = Ok (take (36 + wire_payload_len data) data)"
proof -
  let ?n = "wire_payload_len data"
  have l: "36 + ?n \<le> length data" using ok by (simp add: wire_ok_def)
  have pl: "length (payload (wire_frame data)) = ?n" using l by (simp add: wire_frame_def)
  have hd: "take 2 data = [PROTO_VERSION, msg_type_byte (msg_type (wire_frame data))]"
    using ok take_2_drop [of 0 data]
    by (auto simp: wire_ok_def wire_frame_def msg_type_to_from)
  have u: "(of_nat ?n :: u16) = u16_of_be (take 2 (drop 34 data))"
    by (simp add: wire_payload_len_def)
  have fields: "uuid_bytes (sender_id (wire_frame data)) = take 16 (drop 2 data)"
    "uuid_bytes (target_id (wire_frame data)) = take 16 (drop 18 data)"
    "u16_be (of_nat ?n) = take 2 (drop 34 data)"
    using l by (simp_all add: wire_frame_def uuid_bytes_uuid_of_bytes u u16_be_u16_of_be)
  have "take (36 + ?n) data = take 2 data @ take 16 (drop 2 data) @ take 16 (drop 18 data)
      @ take 2 (drop 34 data) @ take ?n (drop 36 data)"
    by (simp add: take_add [symmetric] drop_drop flip: append_assoc)
  then show ?thesis
    using len by (simp add: encode_def pl Let_def hd fields)
       (simp add: wire_frame_def)
qed

text \<open>
  Re-encoding what was decoded is the identity on the datagram up to the bytes after its
  payload, whenever the announced payload is within the 2048-byte limit (the round trip the
  crate's fuzz target samples).
\<close>

theorem decode_encode_identity:
  assumes "decode data = ret (Ok f)" and "length (payload f) \<le> MAX_PAYLOAD"
  shows "encode f = Ok (take (HEADER_LEN + length (payload f)) data)"
proof -
  note D = decode_OkD [OF assms(1)]
  have "length (payload f) = wire_payload_len data"
    using D by (auto simp: wire_ok_def wire_frame_def)
  then show ?thesis using encode_wire_frame [OF D(1)] assms(2) D(2) by simp
qed

definition keepalive_datagram :: bytes where
  "keepalive_datagram = [1, 3] @ replicate 34 0 @ [7, 7]"

theorem decode_encode_identity_witness:
  "encode (frame_keepalive 0) = Ok (take 36 keepalive_datagram)"
proof -
  have ok: "wire_ok keepalive_datagram"
    by code_simp
  have f: "wire_frame keepalive_datagram = frame_keepalive 0"
    by code_simp
  have d: "decode keepalive_datagram = ret (Ok (frame_keepalive 0))"
    using ok f by (simp add: decode_total)
  from decode_encode_identity [OF d] show ?thesis
    by (simp add: frame_keepalive_def)
qed

text \<open>
  The decoder does not enforce the payload limit of the protocol: a complete datagram whose
  announced payload is between 2049 and 65535 bytes decodes, to a frame that the encoder
  refuses.
\<close>

theorem decode_accepts_oversized:
  assumes "MAX_PAYLOAD < length p" and "length p < 2 ^ 16"
  shows "decode ([PROTO_VERSION, msg_type_byte t] @ uuid_bytes s @ uuid_bytes d
                 @ u16_be (of_nat (length p)) @ p)
           = ret (Ok \<lparr>sender_id = s, target_id = d, msg_type = t, payload = p\<rparr>)
       \<and> encode \<lparr>sender_id = s, target_id = d, msg_type = t, payload = p\<rparr>
           = Err (PayloadTooLarge (length p))"
proof -
  let ?bs = "[PROTO_VERSION, msg_type_byte t] @ uuid_bytes s @ uuid_bytes d
                 @ u16_be (of_nat (length p)) @ p"
  have "take 2 (drop 34 ?bs) = u16_be (of_nat (length p))" by simp
  then have len: "wire_payload_len ?bs = length p"
    using assms(2) by (simp only: wire_payload_len_def u16_of_be_u16_be) (simp add: unat_of_nat)
  have "wire_ok ?bs" unfolding wire_ok_def len by simp
  moreover have "wire_frame ?bs = \<lparr>sender_id = s, target_id = d, msg_type = t, payload = p\<rparr>"
    unfolding wire_frame_def len by simp
  ultimately show ?thesis using assms(1) by (simp add: decode_total encode_def)
qed

theorem decode_accepts_oversized_witness:
  "\<exists>f. decode ([PROTO_VERSION, msg_type_byte Data] @ uuid_bytes 1 @ uuid_bytes 2
                 @ u16_be (of_nat (length (replicate 2049 (0 :: u8)))) @ replicate 2049 0)
           = ret (Ok f) \<and> is_ok (encode f) = False"
proof -
  have "MAX_PAYLOAD < length (replicate 2049 (0 :: u8))"
    and "length (replicate 2049 (0 :: u8)) < 2 ^ 16"
    by (simp_all add: MAX_PAYLOAD_def)
  from decode_accepts_oversized [OF this, of Data 1 2]
  show ?thesis by (metis is_ok_simps(2))
qed

end
