(* ===== verification/Relay_Server.thy ===== *)
theory Relay_Server
  imports Relay_Proto Net_Addr
begin

text \<open>
  \<open>services/relay/src/main.rs\<close>: the loop of the relay server. Its state is the map from peer
  ids to the address each peer last registered from; an event is one return of \<open>recv_from\<close>
  (with the fate of the forwarding \<open>send_to\<close>, should the event cause one). \<open>sent\<close> records what
  the server put on the wire. The loop ends, and \<open>main\<close> returns, at the first \<open>?\<close> that meets
  an error: \<open>exited\<close> then holds the reason and no later event has an effect.
\<close>

section \<open>State and steps\<close>

datatype relay_exit = ExitRecv | ExitEncode proto_error | ExitSend | ExitPanic

record relay_state =
  peers :: "peer_id \<rightharpoonup> socket_addr"
  sent :: "(socket_addr \<times> bytes) list"
  exited :: "relay_exit option"

datatype relay_event =
    RecvFail
  | Recv (ev_data: bytes) (ev_src: socket_addr) (ev_send_ok: bool)

definition RELAY_BUF :: nat where "RELAY_BUF = 4096"

definition relay_init :: relay_state where
  "relay_init = \<lparr>peers = Map.empty, sent = [], exited = None\<rparr>"

text \<open>The \<open>match frame.msg_type\<close> of the loop body.\<close>

fun relay_handle :: "relay_state \<Rightarrow> socket_addr \<Rightarrow> bool \<Rightarrow> relay_frame \<Rightarrow> relay_state" where
  "relay_handle s src send_ok f =
     (case msg_type f of
        Hello \<Rightarrow> s\<lparr>peers := (peers s)(sender_id f \<mapsto> src)\<rparr>
      | Data \<Rightarrow>
          (case peers s (target_id f) of
             Some target_addr \<Rightarrow>
               (case encode (frame_data (sender_id f) (target_id f) (payload f)) of
                  Err e \<Rightarrow> s\<lparr>exited := Some (ExitEncode e)\<rparr>
                | Ok encoded \<Rightarrow>
                    (if send_ok then s\<lparr>sent := sent s @ [(target_addr, encoded)]\<rparr>
                     else s\<lparr>exited := Some ExitSend\<rparr>))
           | None \<Rightarrow> s)
      | Keepalive \<Rightarrow> s\<lparr>peers := (peers s)(sender_id f \<mapsto> src)\<rparr>)"

text \<open>One turn of the loop; a datagram longer than the receive buffer is cut to it.\<close>

fun relay_step :: "relay_state \<Rightarrow> relay_event \<Rightarrow> relay_state" where
  "relay_step s e =
     (if exited s \<noteq> None then s
      else (case e of
              RecvFail \<Rightarrow> s\<lparr>exited := Some ExitRecv\<rparr>
            | Recv data src send_ok \<Rightarrow>
                (case decode (take RELAY_BUF data) of
                   panic \<Rightarrow> s\<lparr>exited := Some ExitPanic\<rparr>
                 | Some (Err _) \<Rightarrow> s
                 | Some (Ok f) \<Rightarrow> relay_handle s src send_ok f)))"

abbreviation relay_run :: "relay_state \<Rightarrow> relay_event list \<Rightarrow> relay_state" where
  "relay_run \<equiv> foldl relay_step"

declare relay_handle.simps [simp del] relay_step.simps [simp del]

section \<open>What an event means\<close>

text \<open>The frame an event delivers, and the registration it makes, independent of the state.\<close>

definition event_frame :: "relay_event \<Rightarrow> relay_frame option" where
  "event_frame e = (case e of
      RecvFail \<Rightarrow> None
    | Recv data _ _ \<Rightarrow>
        (if wire_ok (take RELAY_BUF data) then Some (wire_frame (take RELAY_BUF data)) else None))"

definition registers :: "relay_event \<Rightarrow> peer_id \<Rightarrow> socket_addr \<Rightarrow> bool" where
  "registers e p a \<longleftrightarrow>
     (case event_frame e of
        Some f \<Rightarrow> msg_type f \<noteq> Data \<and> sender_id f = p \<and> ev_src e = a
      | None \<Rightarrow> False)"

text \<open>The abstract registry: who last announced itself from where.\<close>

fun registry :: "relay_event list \<Rightarrow> peer_id \<rightharpoonup> socket_addr" where
  "registry [] p = None"
| "registry (e # es) p =
     (case registry es p of
        Some a \<Rightarrow> Some a
      | None \<Rightarrow> (case event_frame e of
                  Some f \<Rightarrow> if msg_type f \<noteq> Data \<and> sender_id f = p then Some (ev_src e) else None
                | None \<Rightarrow> None))"

lemma relay_step_exited [simp]: "exited s \<noteq> None \<Longrightarrow> relay_step s e = s"
  by (simp add: relay_step.simps)

lemma relay_run_exited [simp]: "exited s \<noteq> None \<Longrightarrow> relay_run s es = s"
  by (induction es) auto

lemma relay_step_RecvFail:
  "exited s = None \<Longrightarrow> relay_step s RecvFail = s\<lparr>exited := Some ExitRecv\<rparr>"
  by (simp add: relay_step.simps)

lemma relay_step_Recv:
  "exited s = None \<Longrightarrow>
     relay_step s (Recv data src ok) =
       (case event_frame (Recv data src ok) of
          None \<Rightarrow> s | Some f \<Rightarrow> relay_handle s src ok f)"
  by (simp add: relay_step.simps event_frame_def decode_total)

lemma event_frame_payload:
  "event_frame (Recv data src ok) = Some f \<Longrightarrow>
     length (payload f) + 36 \<le> length data \<and> length (payload f) + 36 \<le> RELAY_BUF"
  by (auto simp: event_frame_def wire_ok_def wire_frame_def split: if_splits)

lemma registry_snoc:
  "registry (es @ [e]) p =
     (case event_frame e of
        Some f \<Rightarrow> if msg_type f \<noteq> Data \<and> sender_id f = p then Some (ev_src e) else registry es p
      | None \<Rightarrow> registry es p)"
  by (induction es) (auto split: option.splits)

lemma registry_registers: "registry es p = Some a \<Longrightarrow> \<exists>e\<in>set es. registers e p a"
  by (induction es p rule: registry.induct)
     (auto simp: registers_def split: option.splits if_splits)

lemma relay_step_peers:
  "exited (relay_step s e) = None \<Longrightarrow>
     peers (relay_step s e) =
       (case event_frame e of
          Some f \<Rightarrow> if msg_type f = Data then peers s else (peers s)(sender_id f \<mapsto> ev_src e)
        | None \<Rightarrow> peers s)"
  by (cases "exited s = None"; cases e)
     (auto simp: relay_step_Recv relay_step_RecvFail relay_handle.simps
        split: option.splits msg_type.splits sum.splits if_splits)

lemma relay_peers_registry_fact:
  assumes "exited (relay_run relay_init es) = None"
  shows "peers (relay_run relay_init es) = registry es"
  using assms
proof (induction es rule: rev_induct)
  case Nil
  then show ?case by (simp add: relay_init_def fun_eq_iff)
next
  case (snoc e es)
  let ?s = "relay_run relay_init es"
  have e: "exited (relay_step ?s e) = None" using snoc.prems by simp
  then have "exited ?s = None" by (metis relay_step_exited)
  then have "peers ?s = registry es" by (rule snoc.IH)
  with relay_step_peers [OF e] show ?case
    by (auto simp: registry_snoc fun_eq_iff split: option.splits)
qed

text \<open>
  C1: As long as the server runs, its peer map is the abstract registry of the events it has
  received: each peer id is bound to the source address of the last well-formed Hello or
  Keepalive that named it, and to nothing if there was none.
\<close>

theorem relay_peers_registry:
  assumes "exited (relay_run relay_init es) = None"
  shows "peers (relay_run relay_init es) = registry es"
  using assms by (rule relay_peers_registry_fact)

definition hello_event :: "peer_id \<Rightarrow> socket_addr \<Rightarrow> relay_event" where
  "hello_event p a = Recv ([1, 1] @ uuid_bytes p @ uuid_bytes uuid_nil @ [0, 0]) a True"

lemma hello_encoded:
  "encode (frame_hello p) = Ok ([1, 1] @ uuid_bytes p @ uuid_bytes uuid_nil @ [0, 0])"
  by (simp add: encode_def frame_hello_def PROTO_VERSION_def MAX_PAYLOAD_def u16_be_def)

lemma hello_event_frame [simp]: "event_frame (hello_event p a) = Some (frame_hello p)"
  using wire_frame_encoded [OF hello_encoded [of p]]
  by (simp add: hello_event_def event_frame_def RELAY_BUF_def)

lemma hello_event_src [simp]: "ev_src (hello_event p a) = a"
  by (simp add: hello_event_def)

lemma relay_step_hello [simp]:
  "exited s = None \<Longrightarrow> relay_step s (hello_event p a) = s\<lparr>peers := (peers s)(p \<mapsto> a)\<rparr>"
  using hello_event_frame [of p a]
  by (simp add: hello_event_def relay_step_Recv relay_handle.simps frame_hello_def)

theorem relay_peers_registry_witness:
  "peers (relay_run relay_init [hello_event 7 addr_a, hello_event 8 addr_b, hello_event 7 addr_c]) 7 = Some addr_c"
proof -
  have "exited (relay_run relay_init [hello_event 7 addr_a, hello_event 8 addr_b, hello_event 7 addr_c]) = None"
    by (simp add: relay_init_def)
  from relay_peers_registry [OF this] show ?thesis
    by (simp add: frame_hello_def)
qed

section \<open>Forwarding\<close>

lemma relay_step_sent:
  "exited s = None \<Longrightarrow> sent (relay_step s e) = sent s \<or>
     (\<exists>f a bs. event_frame e = Some f \<and> msg_type f = Data \<and> peers s (target_id f) = Some a
        \<and> encode (frame_data (sender_id f) (target_id f) (payload f)) = Ok bs
        \<and> sent (relay_step s e) = sent s @ [(a, bs)])"
  by (cases e)
     (auto simp: relay_step_Recv relay_step_RecvFail relay_handle.simps
        split: option.splits msg_type.splits sum.splits if_splits)

lemma frame_data_id: "msg_type f = Data \<Longrightarrow> frame_data (sender_id f) (target_id f) (payload f) = f"
  by (simp add: frame_data_def)

lemma forwarded_bytes:
  assumes "event_frame e = Some f" "encode f = Ok bs"
  shows "bs = take (36 + length (payload f)) (ev_data e)"
proof -
  obtain data src ok where e: "e = Recv data src ok"
    using assms(1) by (cases e) (auto simp: event_frame_def)
  have ok: "wire_ok (take RELAY_BUF data)" and f: "f = wire_frame (take RELAY_BUF data)"
    using assms(1) by (auto simp: e event_frame_def split: if_splits)
  have dec: "decode (take RELAY_BUF data) = ret (Ok f)" by (simp add: decode_total ok f)
  have le: "length (payload f) \<le> MAX_PAYLOAD" using assms(2) encode_Ok_iff by blast
  have "36 + length (payload f) \<le> RELAY_BUF"
    using event_frame_payload [of data src ok f] assms(1) e by simp
  then have "take (36 + length (payload f)) (take RELAY_BUF data)
      = take (36 + length (payload f)) data"
    by (simp add: min_absorb1)
  with assms(2) show ?thesis
    using ok le f e encode_wire_frame [OF ok]
    by (auto simp: wire_ok_def wire_frame_def min_absorb2)
qed

lemma relay_forwards_data_fact:
  assumes "exited s = None" and "event_frame e = Some f" and "msg_type f = Data"
    and "peers s (target_id f) = Some a" and "length (payload f) \<le> MAX_PAYLOAD"
    and "ev_send_ok e"
  shows "relay_step s e =
           s\<lparr>sent := sent s @ [(a, take (HEADER_LEN + length (payload f)) (ev_data e))]\<rparr>"
proof -
  obtain data src where e: "e = Recv data src True"
    using assms(2,6) by (cases e) (auto simp: event_frame_def)
  obtain bs where bs: "encode f = Ok bs" using assms(5) encode_Ok_iff by blast
  from forwarded_bytes [OF assms(2) bs] bs assms(1-4) show ?thesis
    by (simp add: e relay_step_Recv relay_handle.simps frame_data_id)
qed

text \<open>
  A Data frame for a registered target whose payload is within the limit is forwarded once,
  to the address the target registered from, as an unchanged copy of the received frame (bytes
  after the payload dropped); the registrations do not change and the server keeps running.
\<close>

theorem relay_forwards_data:
  assumes "exited s = None" and "event_frame e = Some f" and "msg_type f = Data"
    and "peers s (target_id f) = Some a" and "length (payload f) \<le> MAX_PAYLOAD"
    and "ev_send_ok e"
  shows "relay_step s e =
           s\<lparr>sent := sent s @ [(a, take (HEADER_LEN + length (payload f)) (ev_data e))]\<rparr>"
  using assms by (rule relay_forwards_data_fact)

definition data_event :: "peer_id \<Rightarrow> peer_id \<Rightarrow> bytes \<Rightarrow> socket_addr \<Rightarrow> bool \<Rightarrow> relay_event" where
  "data_event s t p src ok =
     Recv ([PROTO_VERSION, msg_type_byte Data] @ uuid_bytes s @ uuid_bytes t
           @ u16_be (of_nat (length p)) @ p) src ok"

lemma data_event_frame:
  assumes "length p \<le> RELAY_BUF - 36"
  shows "event_frame (data_event s t p src ok) = Some (frame_data s t p)"
proof -
  let ?bs = "[PROTO_VERSION, msg_type_byte Data] @ uuid_bytes s @ uuid_bytes t
           @ u16_be (of_nat (length p)) @ p"
  have lp: "length p < 65536" and all: "take RELAY_BUF ?bs = ?bs"
    using assms by (simp_all add: RELAY_BUF_def)
  have "take 2 (drop 34 ?bs) = u16_be (of_nat (length p))" by simp
  then have len: "wire_payload_len ?bs = length p"
    using lp by (simp only: wire_payload_len_def u16_of_be_u16_be) (simp add: unat_of_nat)
  have "wire_ok ?bs" unfolding wire_ok_def len by (simp add: msg_type_from_byte_def)
  moreover have "wire_frame ?bs = frame_data s t p"
    unfolding wire_frame_def len frame_data_def by (simp add: msg_type_from_byte_def)
  ultimately show ?thesis
    by (simp add: data_event_def event_frame_def all [simplified])
qed

theorem relay_forwards_data_witness:
  "sent (relay_step (relay_init\<lparr>peers := [9 \<mapsto> addr_a]\<rparr>) (data_event 8 9 [1, 2, 3] addr_b True))
     = [(addr_a, take 39 (ev_data (data_event 8 9 [1, 2, 3] addr_b True)))]"
proof -
  let ?s = "relay_init\<lparr>peers := [9 \<mapsto> addr_a]\<rparr>"
  have fr: "event_frame (data_event 8 9 [1, 2, 3] addr_b True) = Some (frame_data 8 9 [1, 2, 3])"
    by (rule data_event_frame) (simp add: RELAY_BUF_def)
  have "relay_step ?s (data_event 8 9 [1, 2, 3] addr_b True) =
      ?s\<lparr>sent := sent ?s @ [(addr_a, take (HEADER_LEN + length (payload (frame_data 8 9 [1, 2, 3])))
                               (ev_data (data_event 8 9 [1, 2, 3] addr_b True)))]\<rparr>"
    by (rule relay_forwards_data [OF _ fr])
       (simp_all add: relay_init_def frame_data_def MAX_PAYLOAD_def data_event_def)
  then show ?thesis by (simp add: relay_init_def frame_data_def)
qed

text \<open>
  Everything the server ever sends is a copy of (a prefix of) a Data frame it received, and
  goes to an address from which the frame's target had registered: the relay originates no
  traffic, alters none, and sends nothing to an address that did not announce itself.
\<close>

theorem relay_sent_provenance:
  "\<forall>(a, bs) \<in> set (sent (relay_run relay_init es)).
     \<exists>e\<in>set es. \<exists>f. event_frame e = Some f \<and> msg_type f = Data
       \<and> bs = take (HEADER_LEN + length (payload f)) (ev_data e)
       \<and> (\<exists>e'\<in>set es. registers e' (target_id f) a)"
proof (induction es rule: rev_induct)
  case Nil
  then show ?case by (simp add: relay_init_def)
next
  case (snoc e es)
  let ?s = "relay_run relay_init es"
  show ?case
  proof (cases "exited ?s = None")
    case False
    with snoc show ?thesis by fastforce
  next
    case True
    from relay_step_sent [OF True, of e] show ?thesis
    proof (elim disjE exE conjE)
      assume "sent (relay_step ?s e) = sent ?s"
      with snoc show ?thesis by fastforce
    next
      fix f a bs
      assume f: "event_frame e = Some f" "msg_type f = Data"
        and a: "peers ?s (target_id f) = Some a"
        and bs: "encode (frame_data (sender_id f) (target_id f) (payload f)) = Ok bs"
        and s': "sent (relay_step ?s e) = sent ?s @ [(a, bs)]"
      have "bs = take (HEADER_LEN + length (payload f)) (ev_data e)"
        using forwarded_bytes [OF f(1)] bs f(2) by (simp add: frame_data_id)
      moreover have "\<exists>e'\<in>set es. registers e' (target_id f) a"
        using a relay_peers_registry_fact [OF True] registry_registers by metis
      ultimately show ?thesis using snoc s' f by fastforce
    qed
  qed
qed

theorem relay_sent_provenance_witness:
  "\<exists>bs f. (addr_a, bs) \<in> set (sent (relay_run relay_init
        [hello_event 9 addr_a, data_event 8 9 [1, 2, 3] addr_b True]))
     \<and> event_frame (data_event 8 9 [1, 2, 3] addr_b True) = Some f
     \<and> bs = take (HEADER_LEN + length (payload f)) (ev_data (data_event 8 9 [1, 2, 3] addr_b True))"
proof -
  let ?d = "data_event 8 9 [1, 2, 3] addr_b True"
  let ?es = "[hello_event 9 addr_a, ?d]"
  have fr: "event_frame ?d = Some (frame_data 8 9 [1, 2, 3])"
    by (rule data_event_frame) (simp add: RELAY_BUF_def)
  have hello: "event_frame (hello_event 9 addr_a) = Some (frame_hello 9)" by simp
  obtain bs where e: "encode (frame_data 8 9 [1, 2, 3]) = Ok bs"
    using encode_Ok_iff [of "frame_data 8 9 [1, 2, 3]"] by (auto simp: frame_data_def MAX_PAYLOAD_def)
  have sent: "sent (relay_run relay_init ?es) = [(addr_a, bs)]"
    using e fr by (simp add: relay_step_Recv data_event_def relay_init_def relay_handle.simps frame_data_def)
  then have "(addr_a, bs) \<in> set (sent (relay_run relay_init ?es))" by simp
  from bspec [OF relay_sent_provenance this, unfolded prod.case] obtain e' f where
      "e' \<in> set ?es" "event_frame e' = Some f" "msg_type f = Data"
      "bs = take (HEADER_LEN + length (payload f)) (ev_data e')"
    by blast
  moreover from this have "e' = ?d" using hello by (auto simp: frame_hello_def)
  ultimately show ?thesis using sent by (intro exI [of _ bs] exI [of _ f]) simp
qed

section \<open>Termination of the server\<close>

lemma relay_step_oversized:
  assumes "exited s = None" "peers s t = Some a" "MAX_PAYLOAD < length p" "length p \<le> RELAY_BUF - 36"
  shows "relay_step s (data_event sd t p src ok)
           = s\<lparr>exited := Some (ExitEncode (PayloadTooLarge (length p)))\<rparr>"
  using data_event_frame [OF assms(4), of sd t src ok] assms(1-3)
  by (simp add: data_event_def relay_step_Recv relay_handle.simps frame_data_def encode_def)

text \<open>A larger frame is cut by the receive buffer, and its length field no longer fits.\<close>

lemma data_event_cut:
  assumes "RELAY_BUF - HEADER_LEN < length p" and "length p \<le> 65507 - HEADER_LEN"
  shows "event_frame (data_event s t p src ok) = None"
proof -
  let ?bs = "[PROTO_VERSION, msg_type_byte Data] @ uuid_bytes s @ uuid_bytes t
           @ u16_be (of_nat (length p)) @ p"
  have lp: "4060 < length p" "length p < 65536" using assms by (simp_all add: RELAY_BUF_def)
  have "take 2 (drop 34 (take RELAY_BUF ?bs)) = u16_be (of_nat (length p))"
    by (simp add: RELAY_BUF_def take_Cons' drop_take min_def)
  then have len: "wire_payload_len (take RELAY_BUF ?bs) = length p"
    using lp by (simp only: wire_payload_len_def u16_of_be_u16_be) (simp add: unat_of_nat)
  have "length (take RELAY_BUF ?bs) \<le> 4096" by (simp add: RELAY_BUF_def)
  then have "\<not> wire_ok (take RELAY_BUF ?bs)" using lp(1) unfolding wire_ok_def len by auto
  then show ?thesis by (simp add: event_frame_def data_event_def)
qed

text \<open>
  C30: One datagram ends the running server: a Data frame with a payload of 2049 to 4060 bytes, from
  any socket and under any sender id, for a registered target makes the forwarding \<open>encode()?\<close> fail
  and \<open>main\<close> return; no later event has an effect. A larger frame, up to the largest UDP datagram,
  is cut by the receive buffer and changes nothing.
\<close>

theorem relay_oversized_frame_stops_server:
  assumes "exited s = None" and "peers s t \<noteq> None" and "MAX_PAYLOAD < length p" and "length p \<le> 65507 - HEADER_LEN"
  shows "relay_run s (data_event sd t p src ok # es) =
     (if length p \<le> RELAY_BUF - HEADER_LEN
      then s\<lparr>exited := Some (ExitEncode (PayloadTooLarge (length p)))\<rparr>
      else relay_run s es)"
proof (cases "length p \<le> RELAY_BUF - HEADER_LEN")
  case True
  moreover from assms(2) obtain a where "peers s t = Some a" by blast
  ultimately show ?thesis using assms(1,3) by (simp add: relay_step_oversized)
next
  case False
  then have "event_frame (data_event sd t p src ok) = None" using assms(4) by (intro data_event_cut) simp_all
  then have "relay_step s (data_event sd t p src ok) = s"
    using assms(1) by (simp add: data_event_def relay_step_Recv)
  with False show ?thesis by simp
qed

theorem relay_oversized_frame_stops_server_witness:
  "sent (relay_run (relay_run relay_init [hello_event 5 addr_a])
     (data_event 7 5 (replicate 2049 0) addr_c True # [data_event 7 5 [1] addr_c True])) = []"
  using relay_oversized_frame_stops_server [of "relay_run relay_init [hello_event 5 addr_a]" 5 "replicate 2049 0"
      7 addr_c True "[data_event 7 5 [1] addr_c True]"]
  by (simp add: relay_init_def MAX_PAYLOAD_def RELAY_BUF_def)

text \<open>A stranger registers an id of its choice first: two datagrams from one socket are enough.\<close>

lemma stranger_stops_relay:
  assumes "exited s = None" and "MAX_PAYLOAD < length p" and "length p \<le> RELAY_BUF - HEADER_LEN"
  shows "exited (relay_run s ([hello_event q src, data_event q q p src ok] @ es))
           = Some (ExitEncode (PayloadTooLarge (length p)))"
  using assms by (simp add: relay_step_oversized [where t = q and a = src])

text \<open>
  The events after which the server stops, completely: an I/O error of the socket, or an
  oversized Data frame for a registered target. No datagram makes it panic.
\<close>

definition stopping_event :: "relay_state \<Rightarrow> relay_event \<Rightarrow> bool" where
  "stopping_event s e \<longleftrightarrow>
     e = RecvFail \<or>
     (\<exists>f. event_frame e = Some f \<and> msg_type f = Data \<and> peers s (target_id f) \<noteq> None
        \<and> (MAX_PAYLOAD < length (payload f) \<or> \<not> ev_send_ok e))"

text \<open>
  The running server stops exactly on a receive error, on a failed forwarding send, or on
  an oversized Data frame for a registered target; every other datagram, however malformed,
  leaves it running, and it never panics.
\<close>

theorem relay_stops_iff:
  assumes "exited s = None"
  shows "(exited (relay_step s e) \<noteq> None \<longleftrightarrow> stopping_event s e)
       \<and> exited (relay_step s e) \<noteq> Some ExitPanic"
  using assms
  by (cases e)
     (auto simp: relay_step_Recv relay_step_RecvFail relay_handle.simps stopping_event_def
        encode_def frame_data_def Let_def split: option.splits msg_type.splits if_splits)

theorem relay_stops_iff_witness:
  "exited (relay_step relay_init (Recv [0x50] src ok)) = None"
proof -
  have "exited relay_init = None" by (simp add: relay_init_def)
  from relay_stops_iff [OF this, of "Recv [0x50] src ok"] show ?thesis
    by (simp add: stopping_event_def event_frame_def wire_ok_def)
qed

text \<open>The length and number of forwarded datagrams: no amplification.\<close>

lemma relay_no_amplification:
  "\<exists>out. sent (relay_step s e) = sent s @ out \<and> length out \<le> 1
     \<and> (\<forall>(a, bs)\<in>set out. length bs \<le> length (ev_data e) \<and> e \<noteq> RecvFail)"
proof (cases "exited s = None")
  case True
  from relay_step_sent [OF True, of e] show ?thesis
  proof (elim disjE exE conjE)
    fix f a bs
    assume f: "event_frame e = Some f" "msg_type f = Data"
      and bs: "encode (frame_data (sender_id f) (target_id f) (payload f)) = Ok bs"
      and s': "sent (relay_step s e) = sent s @ [(a, bs)]"
    have "bs = take (36 + length (payload f)) (ev_data e)"
      using forwarded_bytes [OF f(1)] bs f(2) by (simp add: frame_data_id)
    with s' f show ?thesis by (auto simp: event_frame_def)
  qed simp
qed simp

lemma relay_step_short:
  "length data < 36 \<Longrightarrow> relay_step s (Recv data src ok) = s"
  by (cases "exited s = None") (auto simp: relay_step_Recv event_frame_def wire_ok_def)

end
