(* ===== verification/Relay_Client.thy ===== *)
theory Relay_Client
  imports Relay_Server
begin

text \<open>
  \<open>crates/tunnel/src/relay.rs\<close>: the client side of the relay. Socket calls take their outcome
  as an argument (\<open>bind_ok\<close>, \<open>send_ok\<close>) and the datagrams that are sent appear in the result;
  \<open>recv\<close> consumes the list of what \<open>recv_from\<close> will return and is \<open>Waiting\<close> when the list
  ends before a datagram for the caller has arrived.
\<close>

datatype io_error = IoError

record relay_client =
  relay_addr :: socket_addr
  our_id :: peer_id
  peer_id_of :: peer_id

type_synonym datagram = "socket_addr \<times> bytes"

definition client_register ::
  "bool \<Rightarrow> bool \<Rightarrow> socket_addr \<Rightarrow> peer_id \<Rightarrow> peer_id \<Rightarrow> (io_error + relay_client \<times> datagram list) panics"
  where
  "client_register bind_ok send_ok raddr our peer =
     (if \<not> bind_ok then ret (Err IoError)
      else (case encode (frame_hello our) of
              Err _ \<Rightarrow> panic
            | Ok encoded \<Rightarrow>
                if \<not> send_ok then ret (Err IoError)
                else ret (Ok (\<lparr>relay_addr = raddr, our_id = our, peer_id_of = peer\<rparr>,
                              [(raddr, encoded)]))))"

definition client_send ::
  "relay_client \<Rightarrow> bytes \<Rightarrow> bool \<Rightarrow> (io_error + nat \<times> datagram list) panics" where
  "client_send c encrypted_data send_ok =
     (case encode (frame_data (our_id c) (peer_id_of c) encrypted_data) of
        Err _ \<Rightarrow> panic
      | Ok encoded \<Rightarrow>
          if send_ok then ret (Ok (length encoded, [(relay_addr c, encoded)]))
          else ret (Err IoError))"

definition client_keepalive :: "relay_client \<Rightarrow> bool \<Rightarrow> (io_error + datagram list) panics" where
  "client_keepalive c send_ok =
     (case encode (frame_keepalive (our_id c)) of
        Err _ \<Rightarrow> panic
      | Ok encoded \<Rightarrow> if send_ok then ret (Ok [(relay_addr c, encoded)]) else ret (Err IoError))"

datatype recv_outcome =
    Waiting
  | RecvError "(io_error + bytes) list"
  | Received bytes peer_id "(io_error + bytes) list"

text \<open>The \<open>loop\<close> of \<open>recv\<close>: it reads until a Data frame of our peer arrives.\<close>

fun client_recv :: "relay_client \<Rightarrow> (io_error + bytes) list \<Rightarrow> recv_outcome panics" where
  "client_recv c [] = ret Waiting"
| "client_recv c (Err _ # rest) = ret (RecvError rest)"
| "client_recv c (Ok data # rest) =
     do { r \<leftarrow> decode (take RELAY_BUF data);
          case r of
            Ok f \<Rightarrow> (if msg_type f = Data \<and> sender_id f = peer_id_of c
                     then ret (Received (payload f) (sender_id f) rest)
                     else client_recv c rest)
          | Err _ \<Rightarrow> client_recv c rest }"

section \<open>Sending\<close>

lemma encode_small [simp]:
  "encode (frame_hello i) \<noteq> Err e" "encode (frame_keepalive i) \<noteq> Err e"
  by (simp_all add: encode_def frame_hello_def frame_keepalive_def MAX_PAYLOAD_def Let_def)

lemma client_register_no_panic: "client_register b s a our peer \<noteq> panic"
  by (auto simp: client_register_def split: sum.splits)

lemma client_keepalive_no_panic: "client_keepalive c s \<noteq> panic"
  by (auto simp: client_keepalive_def split: sum.splits)

text \<open>
  Sending through the relay panics (the \<open>expect\<close> on the encoder) exactly for payloads
  above 2048 bytes. Otherwise it reports an I/O error when the socket does, and on success
  emits one datagram to the relay which decodes to a Data frame from us to our peer carrying
  the given bytes unchanged.
\<close>

theorem client_send_spec:
  "(client_send c p ok = panic \<longleftrightarrow> MAX_PAYLOAD < length p)
   \<and> (length p \<le> MAX_PAYLOAD \<and> \<not> ok \<longrightarrow> client_send c p ok = ret (Err IoError))
   \<and> (length p \<le> MAX_PAYLOAD \<and> ok \<longrightarrow>
        (\<exists>bs. client_send c p ok = ret (Ok (HEADER_LEN + length p, [(relay_addr c, bs)]))
            \<and> decode bs = ret (Ok (frame_data (our_id c) (peer_id_of c) p))))"
proof -
  let ?f = "frame_data (our_id c) (peer_id_of c) p"
  have pl: "payload ?f = p" by (simp add: frame_data_def)
  show ?thesis
  proof (cases "length p \<le> MAX_PAYLOAD")
    case True
    then obtain bs where bs: "encode ?f = Ok bs"
      using encode_Ok_iff [of ?f] pl by auto
    then have "length bs = 36 + length p" "decode bs = ret (Ok ?f)"
      using wire_frame_encoded [OF bs] relay_format.dec_enc [OF bs] pl by simp_all
    with bs True show ?thesis by (simp add: client_send_def)
  next
    case False
    then show ?thesis by (simp add: client_send_def encode_def pl)
  qed
qed

theorem client_send_spec_witness:
  "client_send \<lparr>relay_addr = addr_a, our_id = 1, peer_id_of = 2\<rparr> (replicate 2049 0) True = panic
   \<and> (\<exists>bs. client_send \<lparr>relay_addr = addr_a, our_id = 1, peer_id_of = 2\<rparr> [5] True
             = ret (Ok (37, [(addr_a, bs)])) \<and> decode bs = ret (Ok (frame_data 1 2 [5])))"
  using client_send_spec [of "\<lparr>relay_addr = addr_a, our_id = 1, peer_id_of = 2\<rparr>" "replicate 2049 0" True]
    client_send_spec [of "\<lparr>relay_addr = addr_a, our_id = 1, peer_id_of = 2\<rparr>" "[5]" True]
  by (simp add: MAX_PAYLOAD_def)

section \<open>Receiving\<close>

text \<open>Whether a datagram ends the receive loop, and the reference for the whole loop.\<close>

definition addressed :: "relay_client \<Rightarrow> bytes \<Rightarrow> bool" where
  "addressed c data \<longleftrightarrow>
     (let d = take RELAY_BUF data
      in wire_ok d \<and> msg_type (wire_frame d) = Data \<and> sender_id (wire_frame d) = peer_id_of c)"

definition ends_recv :: "relay_client \<Rightarrow> io_error + bytes \<Rightarrow> bool" where
  "ends_recv c r = (case r of Err _ \<Rightarrow> True | Ok data \<Rightarrow> addressed c data)"

lemma client_recv_step:
  "client_recv c (r # rest) =
     (if \<not> ends_recv c r then client_recv c rest
      else (case r of
              Err _ \<Rightarrow> ret (RecvError rest)
            | Ok data \<Rightarrow>
                ret (Received (payload (wire_frame (take RELAY_BUF data))) (peer_id_of c) rest)))"
  by (cases r) (auto simp: ends_recv_def addressed_def decode_total Let_def)

text \<open>
  Receiving never panics; it skips every datagram that is malformed, is not a Data frame or
  is not from our peer, and returns at the first remaining event: the payload of that frame, or
  the I/O error of the socket. With no such event it keeps waiting.
\<close>

theorem client_recv_first:
  "client_recv c rs =
     ret (case dropWhile (\<lambda>r. \<not> ends_recv c r) rs of
            [] \<Rightarrow> Waiting
          | Err _ # rest \<Rightarrow> RecvError rest
          | Ok data # rest \<Rightarrow>
              Received (payload (wire_frame (take RELAY_BUF data))) (peer_id_of c) rest)"
  by (induction rs) (auto simp: client_recv_step simp del: client_recv.simps(2,3) split: sum.splits)

section \<open>From one peer to the other through the server\<close>

lemma client_send_datagram:
  assumes "length p \<le> MAX_PAYLOAD"
  shows "client_send c p True =
    ret (Ok (36 + length p, [(relay_addr c, ev_data (data_event (our_id c) (peer_id_of c) p a True))]))"
  using assms by (simp add: client_send_def encode_def frame_data_def data_event_def Let_def)

text \<open>
  End to end: when a peer has registered with the running server, what another client sends
  to it (at most 2048 bytes, and no socket fails) makes the server emit exactly one datagram, to
  the registered address, and the peer's receive on that datagram returns those bytes.
\<close>

theorem relay_end_to_end:
  assumes "exited s = None" and "peers s (our_id b) = Some b_addr"
    and "peer_id_of a = our_id b" and "peer_id_of b = our_id a" and "length p \<le> MAX_PAYLOAD"
  shows "\<exists>bs out. client_send a p True = ret (Ok (HEADER_LEN + length p, [(relay_addr a, bs)]))
           \<and> relay_step s (Recv bs src True) = s\<lparr>sent := sent s @ [(b_addr, out)]\<rparr>
           \<and> client_recv b (Ok out # rest) = ret (Received p (our_id a) rest)"
proof -
  let ?e = "data_event (our_id a) (our_id b) p src True"
  have small: "length p \<le> RELAY_BUF - 36" using assms(5) by (simp add: MAX_PAYLOAD_def RELAY_BUF_def)
  have fr: "event_frame ?e = Some (frame_data (our_id a) (our_id b) p)"
    by (rule data_event_frame [OF small])
  have dat: "ev_data ?e = take (36 + length p) (ev_data ?e)" by (simp add: data_event_def)
  have step: "relay_step s ?e = s\<lparr>sent := sent s @ [(b_addr, ev_data ?e)]\<rparr>"
    using relay_forwards_data_fact [OF assms(1) fr, of b_addr] assms(2,5) dat
    by (simp add: frame_data_def data_event_def)
  have all: "take RELAY_BUF (ev_data ?e) = ev_data ?e"
    using small by (simp add: data_event_def RELAY_BUF_def)
  have "wire_ok (ev_data ?e)" "wire_frame (ev_data ?e) = frame_data (our_id a) (our_id b) p"
    using fr all by (auto simp: event_frame_def data_event_def split: if_splits)
  then have recv: "client_recv b (Ok (ev_data ?e) # rest) = ret (Received p (our_id a) rest)"
    using assms(4) all by (simp add: client_recv_step ends_recv_def addressed_def frame_data_def
        del: client_recv.simps)
  have "client_send a p True = ret (Ok (HEADER_LEN + length p, [(relay_addr a, ev_data ?e)]))"
    using client_send_datagram [OF assms(5), of a src] assms(3) by simp
  moreover have "Recv (ev_data ?e) src True = ?e" by (simp add: data_event_def)
  ultimately show ?thesis using step recv by metis
qed

theorem relay_end_to_end_witness:
  "\<exists>bs out. relay_step (relay_init\<lparr>peers := [2 \<mapsto> addr_b]\<rparr>) (Recv bs addr_a True)
              = relay_init\<lparr>peers := [2 \<mapsto> addr_b], sent := [(addr_b, out)]\<rparr>
     \<and> client_recv \<lparr>relay_addr = addr_c, our_id = 2, peer_id_of = 1\<rparr> [Ok out]
         = ret (Received [10, 20] 1 [])"
  using relay_end_to_end [of "relay_init\<lparr>peers := [2 \<mapsto> addr_b]\<rparr>"
      "\<lparr>relay_addr = addr_c, our_id = 2, peer_id_of = 1\<rparr>" addr_b
      "\<lparr>relay_addr = addr_c, our_id = 1, peer_id_of = 2\<rparr>" "[10, 20]" addr_a "[]"]
  by (auto simp: relay_init_def MAX_PAYLOAD_def)

end
