(* ===== verification/Overlay.thy ===== *)
theory Overlay
  imports Relay_Client
begin

text \<open>
  A network of relay clients (\<open>crates/tunnel/src/relay.rs\<close>) around one relay server
  (\<open>services/relay/src/main.rs\<close>), joined by UDP: a datagram that was sent may arrive at any time,
  any number of times or never, in any order. A client is given with the address of its socket
  as the relay sees it. If the network is hostile, datagrams with any source, destination and
  content may appear.
\<close>

section \<open>Steps of the network\<close>

record overlay =
  ov_relay :: relay_state
  ov_flight :: "(socket_addr \<times> socket_addr \<times> bytes) set"
  ov_accepted :: "(peer_id \<times> peer_id \<times> bytes) set"
  ov_delivered :: "(peer_id \<times> peer_id \<times> bytes) set"

text \<open>
  The datagrams under way as (source, destination, bytes); \<open>accepted\<close> holds what \<open>send\<close> was called
  with and took, as (own id, peer, payload); \<open>delivered\<close> what \<open>recv\<close> returned, as (own id, sender,
  payload).
\<close>

definition overlay_init :: overlay where
  "overlay_init = \<lparr>ov_relay = relay_init, ov_flight = {}, ov_accepted = {}, ov_delivered = {}\<rparr>"

definition emitted :: "socket_addr \<Rightarrow> datagram list \<Rightarrow> (socket_addr \<times> socket_addr \<times> bytes) set" where
  "emitted src out = (\<lambda>(dst, bs). (src, dst, bs)) ` set out"

inductive overlay_step ::
  "bool \<Rightarrow> socket_addr \<Rightarrow> (relay_client \<times> socket_addr) set \<Rightarrow> overlay \<Rightarrow> overlay \<Rightarrow> bool"
  for hostile :: bool and raddr :: socket_addr and clients :: "(relay_client \<times> socket_addr) set" where
  Announce: "(c, a) \<in> clients
     \<Longrightarrow> client_register True True (relay_addr c) (our_id c) (peer_id_of c) = ret (Ok (c, out))
     \<Longrightarrow> overlay_step hostile raddr clients s (s\<lparr>ov_flight := ov_flight s \<union> emitted a out\<rparr>)"
| Refresh: "(c, a) \<in> clients \<Longrightarrow> client_keepalive c True = ret (Ok out)
     \<Longrightarrow> overlay_step hostile raddr clients s (s\<lparr>ov_flight := ov_flight s \<union> emitted a out\<rparr>)"
| Send: "(c, a) \<in> clients \<Longrightarrow> client_send c p True = ret (Ok (n, out))
     \<Longrightarrow> overlay_step hostile raddr clients s
           (s\<lparr>ov_flight := ov_flight s \<union> emitted a out,
              ov_accepted := insert (our_id c, peer_id_of c, p) (ov_accepted s)\<rparr>)"
| Forward: "(src, raddr, bs) \<in> ov_flight s \<Longrightarrow> r = relay_step (ov_relay s) (Recv bs src ok)
     \<Longrightarrow> overlay_step hostile raddr clients s
           (s\<lparr>ov_relay := r,
              ov_flight := ov_flight s \<union> emitted raddr (drop (length (sent (ov_relay s))) (sent r))\<rparr>)"
| RelayFails: "overlay_step hostile raddr clients s (s\<lparr>ov_relay := relay_step (ov_relay s) RecvFail\<rparr>)"
| Deliver: "(src, a, bs) \<in> ov_flight s \<Longrightarrow> (c, a) \<in> clients
     \<Longrightarrow> client_recv c [Ok bs] = ret (Received p i [])
     \<Longrightarrow> overlay_step hostile raddr clients s (s\<lparr>ov_delivered := insert (our_id c, i, p) (ov_delivered s)\<rparr>)"
| Forge: "hostile \<Longrightarrow> overlay_step hostile raddr clients s (s\<lparr>ov_flight := insert (src, dst, bs) (ov_flight s)\<rparr>)"

abbreviation overlay_reach ::
  "bool \<Rightarrow> socket_addr \<Rightarrow> (relay_client \<times> socket_addr) set \<Rightarrow> overlay \<Rightarrow> overlay \<Rightarrow> bool" where
  "overlay_reach hostile raddr clients \<equiv> (overlay_step hostile raddr clients)\<^sup>*\<^sup>*"

text \<open>
  The clients of one relay: they send to it, they are not the relay, and what comes to an address
  comes to one id.
\<close>

definition deployment :: "socket_addr \<Rightarrow> (relay_client \<times> socket_addr) set \<Rightarrow> bool" where
  "deployment raddr clients \<longleftrightarrow>
     (\<forall>(c, a)\<in>clients. relay_addr c = raddr \<and> a \<noteq> raddr)
     \<and> (\<forall>(c, a)\<in>clients. \<forall>(c', a')\<in>clients. a = a' \<longrightarrow> our_id c = our_id c')"

section \<open>Datagrams and frames\<close>

lemma encoded_event:
  assumes "encode f = Ok bs"
  shows "event_frame (Recv bs src ok) = Some f" and "take RELAY_BUF bs = bs"
proof -
  have len: "length bs \<le> RELAY_BUF"
    using wire_frame_encoded [OF assms] encode_Ok_iff [of f] assms by (auto simp: MAX_PAYLOAD_def RELAY_BUF_def)
  then show all: "take RELAY_BUF bs = bs" by simp
  show "event_frame (Recv bs src ok) = Some f"
    using wire_frame_encoded [OF assms] by (simp add: event_frame_def all)
qed

lemma encoded_recv:
  assumes "encode f = Ok bs"
  shows "client_recv c [Ok bs] =
     ret (if msg_type f = Data \<and> sender_id f = peer_id_of c then Received (payload f) (peer_id_of c) [] else Waiting)"
  using wire_frame_encoded [OF assms] encoded_event(2) [OF assms]
  by (simp add: client_recv_step ends_recv_def addressed_def del: client_recv.simps(2,3))

lemma register_emits:
  assumes "client_register True True raddr our peer = ret (Ok (c, out))"
  shows "\<exists>bs. encode (frame_hello our) = Ok bs \<and> out = [(raddr, bs)]"
  using assms by (auto simp: client_register_def split: sum.splits)

lemma keepalive_emits:
  assumes "client_keepalive c True = ret (Ok out)"
  shows "\<exists>bs. encode (frame_keepalive (our_id c)) = Ok bs \<and> out = [(relay_addr c, bs)]"
  using assms by (auto simp: client_keepalive_def split: sum.splits)

lemma send_emits:
  assumes "client_send c p True = ret (Ok (n, out))"
  shows "\<exists>bs. encode (frame_data (our_id c) (peer_id_of c) p) = Ok bs \<and> out = [(relay_addr c, bs)]"
  using assms by (auto simp: client_send_def split: sum.splits)

text \<open>What a received frame makes the relay register and send.\<close>

lemma relay_step_effect:
  assumes "encode f = Ok bs" and "r = relay_step s (Recv bs src ok)"
  shows "peers r = peers s \<or> msg_type f \<noteq> Data \<and> peers r = (peers s)(sender_id f \<mapsto> src)"
    and "drop (length (sent s)) (sent r) = []
         \<or> (\<exists>a. msg_type f = Data \<and> peers s (target_id f) = Some a \<and> drop (length (sent s)) (sent r) = [(a, bs)])"
proof -
  have ev: "event_frame (Recv bs src ok) = Some f" by (rule encoded_event [OF assms(1)])
  show "peers r = peers s \<or> msg_type f \<noteq> Data \<and> peers r = (peers s)(sender_id f \<mapsto> src)"
    using ev assms(2)
    by (cases "exited s = None") (auto simp: relay_step_Recv relay_handle.simps split: option.splits msg_type.splits sum.splits)
  show "drop (length (sent s)) (sent r) = []
         \<or> (\<exists>a. msg_type f = Data \<and> peers s (target_id f) = Some a \<and> drop (length (sent s)) (sent r) = [(a, bs)])"
    using relay_step_sent [of s "Recv bs src ok"] ev assms
    by (cases "exited s = None") (auto simp: frame_data_id)
qed

section \<open>What is under way is genuine\<close>

definition client_at :: "(relay_client \<times> socket_addr) set \<Rightarrow> peer_id \<Rightarrow> socket_addr \<Rightarrow> bool" where
  "client_at clients i a \<longleftrightarrow> (\<exists>c. (c, a) \<in> clients \<and> our_id c = i)"

definition genuine ::
  "socket_addr \<Rightarrow> (relay_client \<times> socket_addr) set \<Rightarrow> (peer_id \<times> peer_id \<times> bytes) set
     \<Rightarrow> socket_addr \<times> socket_addr \<times> bytes \<Rightarrow> bool" where
  "genuine raddr clients acc = (\<lambda>(src, dst, bs). \<exists>f. encode f = Ok bs \<and>
     (if msg_type f = Data
      then (sender_id f, target_id f, payload f) \<in> acc \<and> (dst = raddr \<or> client_at clients (target_id f) dst)
      else dst = raddr \<and> client_at clients (sender_id f) src))"

definition overlay_inv :: "socket_addr \<Rightarrow> (relay_client \<times> socket_addr) set \<Rightarrow> overlay \<Rightarrow> bool" where
  "overlay_inv raddr clients s \<longleftrightarrow>
     (\<forall>d\<in>ov_flight s. genuine raddr clients (ov_accepted s) d)
     \<and> (\<forall>i a. peers (ov_relay s) i = Some a \<longrightarrow> client_at clients i a)
     \<and> (\<forall>(own, frm, p)\<in>ov_delivered s. (frm, own, p) \<in> ov_accepted s)"

lemma genuine_mono: "genuine raddr clients acc d \<Longrightarrow> acc \<subseteq> acc' \<Longrightarrow> genuine raddr clients acc' d"
  by (force simp: genuine_def split: if_splits)

lemma overlay_invI_flight:
  assumes "overlay_inv raddr clients s" and "\<forall>d\<in>new. genuine raddr clients (ov_accepted s) d"
  shows "overlay_inv raddr clients (s\<lparr>ov_flight := ov_flight s \<union> new\<rparr>)"
  using assms by (auto simp: overlay_inv_def)

lemma deployment_same_id:
  "deployment raddr clients \<Longrightarrow> (c, a) \<in> clients \<Longrightarrow> (c', a) \<in> clients \<Longrightarrow> our_id c' = our_id c"
  by (fastforce simp: deployment_def)

lemma client_recv_received:
  assumes "client_recv c [Ok bs] = ret (Received p i [])" and "genuine raddr clients acc (src, a, bs)"
    and "(c, a) \<in> clients" and "deployment raddr clients"
  shows "(i, our_id c, p) \<in> acc"
proof -
  obtain f where f: "encode f = Ok bs" "if msg_type f = Data
      then (sender_id f, target_id f, payload f) \<in> acc \<and> (a = raddr \<or> client_at clients (target_id f) a)
      else a = raddr \<and> client_at clients (sender_id f) src"
    using assms(2) by (auto simp: genuine_def)
  have r: "msg_type f = Data" "sender_id f = i" "payload f = p"
    using assms(1) encoded_recv [OF f(1), of c] by (auto split: if_splits)
  have "a \<noteq> raddr" using assms(3,4) by (auto simp: deployment_def)
  with f(2) r(1) have "client_at clients (target_id f) a" by simp
  then have "target_id f = our_id c"
    using deployment_same_id [OF assms(4,3)] by (auto simp: client_at_def)
  with f(2) r show ?thesis by simp
qed

lemma overlay_step_inv:
  assumes "overlay_step False raddr clients s s'" and "deployment raddr clients"
    and "overlay_inv raddr clients s"
  shows "overlay_inv raddr clients s'"
  using assms
proof (induction rule: overlay_step.induct)
  case (Announce c a out s)
  then obtain bs where "encode (frame_hello (our_id c)) = Ok bs" "out = [(raddr, bs)]"
    using register_emits by (fastforce simp: deployment_def)
  with Announce show ?case
    by (intro overlay_invI_flight)
       (auto simp: emitted_def genuine_def client_at_def frame_hello_def intro!: exI [of _ "frame_hello (our_id c)"])
next
  case (Refresh c a out s)
  then obtain bs where "encode (frame_keepalive (our_id c)) = Ok bs" "out = [(raddr, bs)]"
    using keepalive_emits by (fastforce simp: deployment_def)
  with Refresh show ?case
    by (intro overlay_invI_flight)
       (auto simp: emitted_def genuine_def client_at_def frame_keepalive_def intro!: exI [of _ "frame_keepalive (our_id c)"])
next
  case (Send c a p n out s)
  then obtain bs where bs: "encode (frame_data (our_id c) (peer_id_of c) p) = Ok bs" "out = [(raddr, bs)]"
    using send_emits by (fastforce simp: deployment_def)
  let ?acc = "insert (our_id c, peer_id_of c, p) (ov_accepted s)"
  have "genuine raddr clients ?acc (a, raddr, bs)"
    using bs(1) by (auto simp: genuine_def frame_data_def intro!: exI [of _ "frame_data (our_id c) (peer_id_of c) p"])
  moreover have "\<forall>d\<in>ov_flight s. genuine raddr clients ?acc d"
    using Send.prems(2) genuine_mono [OF _ subset_insertI] by (auto simp: overlay_inv_def)
  ultimately show ?case using Send.prems(2) bs(2) by (auto simp: overlay_inv_def emitted_def)
next
  case (Forward src bs s r ok)
  then have "genuine raddr clients (ov_accepted s) (src, raddr, bs)" by (auto simp: overlay_inv_def)
  then obtain f where f: "encode f = Ok bs"
      "if msg_type f = Data then (sender_id f, target_id f, payload f) \<in> ov_accepted s else client_at clients (sender_id f) src"
    by (auto simp: genuine_def split: if_splits)
  note effect = relay_step_effect [OF f(1) Forward.hyps(2)]
  have registered: "\<forall>i a. peers (ov_relay s) i = Some a \<longrightarrow> client_at clients i a"
    using Forward.prems(2) by (simp add: overlay_inv_def)
  then have "\<forall>i a. peers r i = Some a \<longrightarrow> client_at clients i a"
    using effect(1) f(2) by (auto split: if_splits)
  moreover have "\<forall>d\<in>emitted raddr (drop (length (sent (ov_relay s))) (sent r)). genuine raddr clients (ov_accepted s) d"
    using effect(2) f registered by (auto simp: emitted_def genuine_def)
  ultimately show ?case using Forward.prems(2) by (auto simp: overlay_inv_def)
next
  case (RelayFails s)
  then show ?case by (cases "exited (ov_relay s) = None") (auto simp: overlay_inv_def relay_step_RecvFail)
next
  case (Deliver src a bs s c p i)
  then have "(i, our_id c, p) \<in> ov_accepted s"
    using client_recv_received by (auto simp: overlay_inv_def)
  with Deliver.prems(2) show ?case by (auto simp: overlay_inv_def)
qed simp

lemma overlay_reach_inv:
  assumes "overlay_reach False raddr clients overlay_init s" and "deployment raddr clients"
  shows "overlay_inv raddr clients s"
  using assms(1)
proof (induction rule: rtranclp_induct)
  case base
  show ?case by (simp add: overlay_inv_def overlay_init_def relay_init_def)
next
  case (step s s')
  then show ?case using overlay_step_inv assms(2) by blast
qed

section \<open>What can be delivered\<close>

lemma relay_registers:
  assumes "exited s = None" and "encode f = Ok bs" and "msg_type f \<noteq> Data"
  shows "relay_step s (Recv bs src ok) = s\<lparr>peers := (peers s)(sender_id f \<mapsto> src)\<rparr>"
  using assms encoded_event(1) [OF assms(2), of src ok]
  by (auto simp: relay_step_Recv relay_handle.simps split: msg_type.split)

lemma relay_forwards:
  assumes "exited s = None" and "encode f = Ok bs" and "msg_type f = Data" and "peers s (target_id f) = Some a"
  shows "relay_step s (Recv bs src True) = s\<lparr>sent := sent s @ [(a, bs)]\<rparr>"
  using assms encoded_event(1) [OF assms(2), of src True]
  by (simp add: relay_step_Recv relay_handle.simps frame_data_id)

lemma can_announce:
  assumes "exited (ov_relay s) = None" and "(b, b_addr) \<in> clients" and "relay_addr b = raddr"
  shows "\<exists>s'. overlay_reach hostile raddr clients s s' \<and> exited (ov_relay s') = None
     \<and> peers (ov_relay s') (our_id b) = Some b_addr"
proof -
  obtain bs where bs: "encode (frame_hello (our_id b)) = Ok bs" using hello_encoded by blast
  let ?s1 = "s\<lparr>ov_flight := ov_flight s \<union> emitted b_addr [(raddr, bs)]\<rparr>"
  let ?r = "relay_step (ov_relay ?s1) (Recv bs b_addr True)"
  let ?s2 = "?s1\<lparr>ov_relay := ?r,
      ov_flight := ov_flight ?s1 \<union> emitted raddr (drop (length (sent (ov_relay ?s1))) (sent ?r))\<rparr>"
  have "client_register True True (relay_addr b) (our_id b) (peer_id_of b) = ret (Ok (b, [(raddr, bs)]))"
    using bs assms(3) by (simp add: client_register_def)
  from Announce [OF assms(2) this] have "overlay_step hostile raddr clients s ?s1" .
  moreover have "overlay_step hostile raddr clients ?s1 ?s2"
    by (rule Forward [OF _ refl]) (simp add: emitted_def)
  ultimately have "overlay_reach hostile raddr clients s ?s2" by simp
  moreover have "?r = (ov_relay s)\<lparr>peers := (peers (ov_relay s))(our_id b \<mapsto> b_addr)\<rparr>"
    using relay_registers [OF assms(1) bs, of b_addr True] by (simp add: frame_hello_def)
  ultimately show ?thesis using assms(1) by (intro exI [of _ ?s2]) simp
qed

lemma can_receive:
  assumes "(src, b_addr, bs) \<in> ov_flight s" and "(b, b_addr) \<in> clients"
    and "encode (frame_data (peer_id_of b) t p) = Ok bs"
  shows "overlay_step hostile raddr clients s
     (s\<lparr>ov_delivered := insert (our_id b, peer_id_of b, p) (ov_delivered s)\<rparr>)"
  by (rule Deliver [OF assms(1,2)]) (use encoded_recv [OF assms(3), of b] in \<open>simp add: frame_data_def\<close>)

text \<open>
  C3: Integrity of the overlay when nobody forges: in every reachable state, under every loss,
  duplication and reordering of datagrams, and whoever announces when, what a client has
  received as coming from a peer was handed to \<open>send\<close> by that peer, for this client.
\<close>

theorem overlay_integrity:
  assumes "deployment raddr clients" and "overlay_reach False raddr clients overlay_init s"
    and "(own, frm, p) \<in> ov_delivered s"
  shows "(frm, own, p) \<in> ov_accepted s"
  using overlay_reach_inv [OF assms(2,1)] assms(3) by (auto simp: overlay_inv_def)

lemma overlay_delivers_fact:
  assumes "exited (ov_relay s) = None" and "(a, a_addr) \<in> clients" and "(b, b_addr) \<in> clients"
    and "relay_addr a = raddr" and "relay_addr b = raddr"
    and "peer_id_of a = our_id b" and "peer_id_of b = our_id a" and "length p \<le> MAX_PAYLOAD"
  shows "\<exists>s'. overlay_reach hostile raddr clients s s' \<and> exited (ov_relay s') = None
     \<and> (our_id b, our_id a, p) \<in> ov_delivered s'"
proof -
  obtain s1 where s1: "overlay_reach hostile raddr clients s s1" "exited (ov_relay s1) = None"
      "peers (ov_relay s1) (our_id b) = Some b_addr"
    using can_announce [OF assms(1,3,5)] by blast
  obtain bs where bs: "encode (frame_data (our_id a) (our_id b) p) = Ok bs"
    using encode_Ok_iff [of "frame_data (our_id a) (our_id b) p"] assms(8) by (auto simp: frame_data_def)
  then have send: "client_send a p True = ret (Ok (length bs, [(raddr, bs)]))"
    using assms(4,6) by (simp add: client_send_def)
  let ?s2 = "s1\<lparr>ov_flight := ov_flight s1 \<union> emitted a_addr [(raddr, bs)],
      ov_accepted := insert (our_id a, peer_id_of a, p) (ov_accepted s1)\<rparr>"
  let ?r = "relay_step (ov_relay ?s2) (Recv bs a_addr True)"
  let ?s3 = "?s2\<lparr>ov_relay := ?r,
      ov_flight := ov_flight ?s2 \<union> emitted raddr (drop (length (sent (ov_relay ?s2))) (sent ?r))\<rparr>"
  let ?s4 = "?s3\<lparr>ov_delivered := insert (our_id b, peer_id_of b, p) (ov_delivered ?s3)\<rparr>"
  have r: "?r = (ov_relay s1)\<lparr>sent := sent (ov_relay s1) @ [(b_addr, bs)]\<rparr>"
    using relay_forwards [OF s1(2) bs, of b_addr a_addr] s1(3) by (simp add: frame_data_def)
  have "overlay_step hostile raddr clients s1 ?s2" by (rule Send [OF assms(2) send])
  moreover have "overlay_step hostile raddr clients ?s2 ?s3"
    by (rule Forward [OF _ refl]) (simp add: emitted_def)
  moreover have "overlay_step hostile raddr clients ?s3 ?s4"
  proof (rule can_receive [OF _ assms(3)])
    show "encode (frame_data (peer_id_of b) (our_id b) p) = Ok bs" using bs assms(7) by simp
    show "(raddr, b_addr, bs) \<in> ov_flight ?s3" using r by (simp add: emitted_def)
  qed
  ultimately have "overlay_reach hostile raddr clients s ?s4"
    using s1(1) by (meson rtranclp.rtrancl_into_rtrancl)
  moreover have "exited (ov_relay ?s4) = None" using r s1(2) by simp
  moreover have "(our_id b, our_id a, p) \<in> ov_delivered ?s4" using assms(7) by simp
  ultimately show ?thesis by blast
qed

definition sample_clients :: "(relay_client \<times> socket_addr) set" where
  "sample_clients =
     {(\<lparr>relay_addr = addr_c, our_id = 1, peer_id_of = 2\<rparr>, addr_a),
      (\<lparr>relay_addr = addr_c, our_id = 2, peer_id_of = 1\<rparr>, addr_b)}"

lemma sample_deployment: "deployment addr_c sample_clients"
  by (simp add: deployment_def sample_clients_def addr_a_def addr_b_def addr_c_def)

lemma sample_delivery: "\<exists>s. overlay_reach hostile addr_c sample_clients overlay_init s \<and> (2, 1, [7, 8]) \<in> ov_delivered s"
  using overlay_delivers_fact [of overlay_init "\<lparr>relay_addr = addr_c, our_id = 1, peer_id_of = 2\<rparr>" addr_a sample_clients
      "\<lparr>relay_addr = addr_c, our_id = 2, peer_id_of = 1\<rparr>" addr_b addr_c "[7, 8]" hostile]
  by (auto simp: sample_clients_def overlay_init_def relay_init_def MAX_PAYLOAD_def)

theorem overlay_integrity_witness:
  "\<exists>s. overlay_reach False addr_c sample_clients overlay_init s
     \<and> (2, 1, [7, 8]) \<in> ov_delivered s \<and> (1, 2, [7, 8]) \<in> ov_accepted s"
  using sample_delivery [of False] overlay_integrity [OF sample_deployment] by blast

text \<open>
  C4: Progress of the overlay: from whatever state the network has reached with a running relay,
  also among forged datagrams, two clients that are each other's peers can still exchange any
  payload of at most 2048 bytes, and the relay still runs afterwards.
\<close>

theorem overlay_delivers:
  assumes "overlay_reach hostile raddr clients overlay_init s" and "deployment raddr clients"
    and "exited (ov_relay s) = None" and "(a, a_addr) \<in> clients" and "(b, b_addr) \<in> clients"
    and "peer_id_of a = our_id b" and "peer_id_of b = our_id a" and "length p \<le> MAX_PAYLOAD"
  shows "\<exists>s'. overlay_reach hostile raddr clients s s' \<and> exited (ov_relay s') = None
     \<and> (our_id b, our_id a, p) \<in> ov_delivered s'"
proof -
  have "relay_addr a = raddr" "relay_addr b = raddr" using assms(2,4,5) by (auto simp: deployment_def)
  with assms show ?thesis using overlay_delivers_fact by blast
qed

theorem overlay_delivers_witness:
  "\<exists>s. overlay_reach False addr_c sample_clients overlay_init s \<and> (1, 2, [9]) \<in> ov_delivered s"
  using overlay_delivers [OF rtranclp.rtrancl_refl sample_deployment, where hostile = False and p = "[9]"
      and a = "\<lparr>relay_addr = addr_c, our_id = 2, peer_id_of = 1\<rparr>" and a_addr = addr_b
      and b = "\<lparr>relay_addr = addr_c, our_id = 1, peer_id_of = 2\<rparr>" and b_addr = addr_a]
  by (auto simp: sample_clients_def overlay_init_def relay_init_def MAX_PAYLOAD_def)

text \<open>
  C35: Without authentication integrity is lost to one datagram: in a hostile network any payload
  of at most 2048 bytes can be made to be received by any client as coming from its peer,
  whatever state the network is in, with nothing sent by anybody and the relay not involved.
\<close>

theorem overlay_forgery:
  assumes "(b, b_addr) \<in> clients" and "length p \<le> MAX_PAYLOAD"
  shows "\<exists>s'. overlay_reach True raddr clients s s' \<and> (our_id b, peer_id_of b, p) \<in> ov_delivered s'
     \<and> ov_accepted s' = ov_accepted s \<and> ov_relay s' = ov_relay s"
proof -
  obtain bs where bs: "encode (frame_data (peer_id_of b) (our_id b) p) = Ok bs"
    using encode_Ok_iff [of "frame_data (peer_id_of b) (our_id b) p"] assms(2) by (auto simp: frame_data_def)
  let ?s1 = "s\<lparr>ov_flight := insert (b_addr, b_addr, bs) (ov_flight s)\<rparr>"
  have "overlay_step True raddr clients s ?s1" by (rule Forge) simp
  moreover have "overlay_step True raddr clients ?s1
      (?s1\<lparr>ov_delivered := insert (our_id b, peer_id_of b, p) (ov_delivered ?s1)\<rparr>)"
    by (rule can_receive [OF _ assms(1) bs, of b_addr]) simp
  ultimately have "overlay_reach True raddr clients s
      (?s1\<lparr>ov_delivered := insert (our_id b, peer_id_of b, p) (ov_delivered ?s1)\<rparr>)" by simp
  then show ?thesis
    by (intro exI [of _ "?s1\<lparr>ov_delivered := insert (our_id b, peer_id_of b, p) (ov_delivered ?s1)\<rparr>"]) simp
qed

theorem overlay_forgery_witness:
  "\<exists>s. overlay_reach True addr_c sample_clients overlay_init s \<and> (2, 1, [66]) \<in> ov_delivered s
     \<and> ov_accepted s = {}"
  using overlay_forgery [of "\<lparr>relay_addr = addr_c, our_id = 2, peer_id_of = 1\<rparr>" addr_b sample_clients "[66]" addr_c overlay_init]
  by (auto simp: sample_clients_def overlay_init_def MAX_PAYLOAD_def)

end
