(* ===== verification/Relay_Pool.thy ===== *)
theory Relay_Pool
  imports Relay_Server
begin

text \<open>
  \<open>crates/tunnel/src/relay_pool.rs\<close>: the pool of relay servers a daemon may use, the choice of
  the active one, and the failover. A \<open>Duration\<close> is its number of nanoseconds and an
  \<open>Instant\<close> a natural number; the failure counter is the source's \<open>u32\<close> with the wrap-around
  of a release build. What a probe meets on the network (the bind, the answer and its round-trip
  time) is an argument of \<open>probe_all\<close>. Indexing \<open>servers[active]\<close> panics out of range.
\<close>

section \<open>The pool\<close>

record relay_server =
  rs_addr :: socket_addr
  latency :: "nat option"
  last_probe :: "nat option"
  healthy :: bool
  failures :: u32

definition relay_server_new :: "socket_addr \<Rightarrow> relay_server" where
  "relay_server_new addr =
     \<lparr>rs_addr = addr, latency = None, last_probe = None, healthy = True, failures = 0\<rparr>"

record relay_pool =
  servers :: "relay_server list"
  active :: nat

definition DURATION_MAX :: nat where
  "DURATION_MAX = (2 ^ 64 - 1) * 1000000000 + 999999999"

definition pool_new :: "socket_addr list \<Rightarrow> relay_pool panics" where
  "pool_new addrs =
     (if addrs = [] then panic
      else ret \<lparr>servers = map relay_server_new addrs, active = 0\<rparr>)"

definition active_addr :: "relay_pool \<Rightarrow> socket_addr panics" where
  "active_addr p = do { s \<leftarrow> idx (servers p) (active p); ret (rs_addr s) }"

definition pool_len :: "relay_pool \<Rightarrow> nat" where
  "pool_len p = length (servers p)"

definition pool_is_empty :: "relay_pool \<Rightarrow> bool" where
  "pool_is_empty p \<longleftrightarrow> servers p = []"

text \<open>\<open>select_best\<close>: one turn of its loop on \<open>(best, best_latency)\<close>, and the loop.\<close>

definition select_turn :: "nat option \<times> nat \<Rightarrow> nat \<times> relay_server \<Rightarrow> nat option \<times> nat" where
  "select_turn acc e =
     (case acc of (best, best_latency) \<Rightarrow>
      (case e of (i, server) \<Rightarrow>
        (if healthy server
         then (case latency server of
                 Some lat \<Rightarrow> if lat < best_latency then (Some i, lat) else (best, best_latency)
               | None \<Rightarrow> if best = None then (Some i, best_latency) else (best, best_latency))
         else (best, best_latency))))"

definition select_best :: "relay_pool \<Rightarrow> relay_pool" where
  "select_best p =
     (case fst (foldl select_turn (None, DURATION_MAX) (enumerate 0 (servers p))) of
        Some i \<Rightarrow> p\<lparr>active := i\<rparr>
      | None \<Rightarrow> p)"

text \<open>One server's turn of \<open>probe_all\<close>.\<close>

datatype probe_outcome = BindFails | NoAnswer | Answered nat

definition probe_server :: "nat \<times> probe_outcome \<Rightarrow> relay_server \<Rightarrow> relay_server" where
  "probe_server so server =
     (case so of (start, outcome) \<Rightarrow>
      (case outcome of
         Answered elapsed \<Rightarrow> server\<lparr>latency := Some elapsed, healthy := True, failures := 0\<rparr>
       | NoAnswer \<Rightarrow>
           (let server = server\<lparr>failures := failures server + 1\<rparr>
            in if failures server \<ge> 3 then server\<lparr>healthy := False\<rparr> else server)
       | BindFails \<Rightarrow> server\<lparr>failures := failures server + 1, healthy := False\<rparr>)
      \<lparr>last_probe := Some start\<rparr>)"

definition probe_all :: "(nat \<Rightarrow> nat \<times> probe_outcome) \<Rightarrow> relay_pool \<Rightarrow> relay_pool" where
  "probe_all net p =
     select_best (p\<lparr>servers := map (\<lambda>(i, s). probe_server (net i) s) (enumerate 0 (servers p))\<rparr>)"

definition failover :: "relay_pool \<Rightarrow> (bool \<times> relay_pool) panics" where
  "failover p = do {
     let old = active p;
     s \<leftarrow> idx (servers p) old;
     let s = s\<lparr>failures := failures s + 1\<rparr>;
     let s = (if failures s \<ge> 3 then s\<lparr>healthy := False\<rparr> else s);
     let p = select_best (p\<lparr>servers := (servers p)[old := s]\<rparr>);
     ret (active p \<noteq> old, p) }"

record relay_summary =
  sum_addr :: socket_addr
  sum_latency_ms :: "u64 option"
  sum_healthy :: bool
  sum_active :: bool

definition pool_summary :: "relay_pool \<Rightarrow> relay_summary list" where
  "pool_summary p =
     map (\<lambda>(i, s). \<lparr>sum_addr = rs_addr s,
                    sum_latency_ms = map_option (\<lambda>d. of_nat (d div 1000000)) (latency s),
                    sum_healthy = healthy s, sum_active = (i = active p)\<rparr>)
       (enumerate 0 (servers p))"

section \<open>What the selection selects\<close>

text \<open>
  The reference: among the healthy servers with a measured latency below the maximal duration
  the first one with the least latency; failing that, the first healthy server that was never
  measured; failing that, none.
\<close>

definition measured :: "nat \<times> relay_server \<Rightarrow> bool" where
  "measured e \<longleftrightarrow> healthy (snd e) \<and> (case latency (snd e) of None \<Rightarrow> False | Some l \<Rightarrow> l < DURATION_MAX)"

definition unmeasured :: "nat \<times> relay_server \<Rightarrow> bool" where
  "unmeasured e \<longleftrightarrow> healthy (snd e) \<and> latency (snd e) = None"

definition lat_key :: "nat \<times> relay_server \<Rightarrow> nat" where
  "lat_key e = the (latency (snd e))"

definition best_of :: "(nat \<times> relay_server) list \<Rightarrow> (nat \<times> relay_server) option" where
  "best_of xs = (case first_min lat_key (filter measured xs) of
                   Some e \<Rightarrow> Some e
                 | None \<Rightarrow> find unmeasured xs)"

lemma measured_lat: "measured e \<Longrightarrow> latency (snd e) = Some (lat_key e) \<and> lat_key e < DURATION_MAX"
  unfolding measured_def lat_key_def by (cases "latency (snd e)") auto

lemma measured_not_unmeasured: "measured e \<Longrightarrow> \<not> unmeasured e"
  by (cases "latency (snd e)") (auto simp: measured_def unmeasured_def)

lemma select_turn_measured:
  "measured e \<Longrightarrow> select_turn (b, l) e = (if lat_key e < l then (Some (fst e), lat_key e) else (b, l))"
  using measured_lat [of e] by (cases e) (simp add: select_turn_def measured_def)

lemma select_turn_unmeasured:
  "unmeasured e \<Longrightarrow> select_turn (b, l) e = (if b = None then (Some (fst e), l) else (b, l))"
  by (cases e) (simp add: select_turn_def unmeasured_def)

lemma select_turn_other:
  "\<not> measured e \<Longrightarrow> \<not> unmeasured e \<Longrightarrow> l \<le> DURATION_MAX \<Longrightarrow> select_turn (b, l) e = (b, l)"
  by (cases e; cases "latency (snd e)")
     (auto simp: select_turn_def unmeasured_def measured_def)

text \<open>The value of \<open>best_latency\<close> after the given servers.\<close>

definition best_lat :: "(nat \<times> relay_server) list \<Rightarrow> nat" where
  "best_lat xs = (case first_min lat_key (filter measured xs) of Some e \<Rightarrow> lat_key e | None \<Rightarrow> DURATION_MAX)"

lemma best_lat_le: "best_lat xs \<le> DURATION_MAX"
  using first_min_SomeD(1) [of lat_key "filter measured xs"] measured_lat
  by (fastforce simp: best_lat_def split: option.split)

lemma best_snoc_measured:
  assumes "measured e"
  shows "best_of (xs @ [e]) = (if lat_key e < best_lat xs then Some e else best_of xs)"
    and "best_lat (xs @ [e]) = min (lat_key e) (best_lat xs)"
  using assms measured_lat [OF assms]
  by (auto simp: best_of_def best_lat_def first_min_snoc min_def split: option.split)

lemma best_snoc_unmeasured:
  assumes "\<not> measured e"
  shows "best_of (xs @ [e]) = (if best_of xs = None \<and> unmeasured e then Some e else best_of xs)"
    and "best_lat (xs @ [e]) = best_lat xs"
  using assms
  by (auto simp: best_of_def best_lat_def find_append_eq split: option.split)

lemma select_loop:
  "foldl select_turn (None, DURATION_MAX) xs = (map_option fst (best_of xs), best_lat xs)"
proof (induction xs rule: rev_induct)
  case Nil
  then show ?case by (simp add: best_of_def best_lat_def first_min_def)
next
  case (snoc e xs)
  consider "measured e" | "\<not> measured e" "unmeasured e" | "\<not> measured e" "\<not> unmeasured e" by blast
  then show ?case
  proof cases
    case 1
    then show ?thesis
      by (simp add: snoc.IH select_turn_measured best_snoc_measured min_def)
  next
    case 2
    then show ?thesis
      by (simp add: snoc.IH select_turn_unmeasured best_snoc_unmeasured)
  next
    case 3
    then show ?thesis
      by (simp add: snoc.IH select_turn_other best_lat_le best_snoc_unmeasured)
  qed
qed

lemma select_best_active:
  "active (select_best p) =
     (case best_of (enumerate 0 (servers p)) of Some e \<Rightarrow> fst e | None \<Rightarrow> active p)"
  by (simp add: select_best_def select_loop split: option.split)

lemma select_best_servers [simp]: "servers (select_best p) = servers p"
  by (simp add: select_best_def split: option.split)

lemma best_of_in: "best_of xs = Some e \<Longrightarrow> e \<in> set xs"
  using first_min_SomeD(1) [of lat_key "filter measured xs" e]
  by (auto simp: best_of_def find_Some_iff split: option.splits)

lemma select_best_in_range:
  "active p < length (servers p) \<Longrightarrow> active (select_best p) < length (servers p)"
  by (auto simp: select_best_active in_set_enumerate_eq dest: best_of_in split: option.split)

lemma find_filter: "find P (filter M xs) = find (\<lambda>x. M x \<and> P x) xs"
  by (induction xs) auto

text \<open>The first of the least: everything measured before it is strictly slower.\<close>

lemma first_min_before:
  assumes "first_min key (filter M (enumerate 0 xs)) = Some (i, s)" and "j < i" and "M (j, xs ! j)"
  shows "key (i, s) < key (j, xs ! j)"
proof -
  let ?ys = "filter M (enumerate 0 xs)"
  let ?P = "\<lambda>x. M x \<and> key x = Min (key ` set ?ys)"
  have f: "find ?P (enumerate 0 xs) = Some (i, s)"
    using assms(1) by (auto simp: first_min_def find_filter split: if_splits)
  then obtain k where k: "k < length xs" "(i, s) = (k, xs ! k)" "\<forall>j<k. \<not> ?P (enumerate 0 xs ! j)"
    by (auto simp: find_Some_iff nth_enumerate_eq)
  have j: "j < length xs" using k(1,2) assms(2) by simp
  then have "\<not> ?P (j, xs ! j)" using k(2,3) assms(2) by (auto simp: nth_enumerate_eq)
  then have "key (j, xs ! j) \<noteq> Min (key ` set ?ys)" using assms(3) by blast
  moreover have "key (i, s) = Min (key ` set ?ys)" using f unfolding find_Some_iff by metis
  ultimately have "key (i, s) \<noteq> key (j, xs ! j)" by metis
  moreover have "(j, xs ! j) \<in> set ?ys" using j assms(3) by (simp add: in_set_enumerate_eq)
  with first_min_SomeD(2) [OF assms(1)] have "key (i, s) \<le> key (j, xs ! j)" by (rule bspec)
  ultimately show ?thesis by simp
qed

text \<open>
  C19: The selection picks, of the healthy relays with a measured latency, the first one with the
  least latency (no other has less, and every one before it has more); if no healthy relay was
  measured, the first healthy one; if no relay is healthy the active one stays. So an unmeasured relay is never preferred to a measured one, whatever
  their positions.
\<close>

theorem select_best_spec:
  "(case find measured (enumerate 0 (servers p)) of
      Some _ \<Rightarrow>
        (let i = active (select_best p); s = servers p ! i
         in i < length (servers p) \<and> healthy s
            \<and> (\<exists>l. latency s = Some l
                 \<and> (\<forall>j < length (servers p). \<forall>l'. healthy (servers p ! j) \<and> latency (servers p ! j) = Some l'
                      \<longrightarrow> l \<le> l' \<and> (j < i \<longrightarrow> l < l'))))
    | None \<Rightarrow>
        active (select_best p) =
          (case find unmeasured (enumerate 0 (servers p)) of
             Some e \<Rightarrow> fst e | None \<Rightarrow> active p))"
proof (cases "find measured (enumerate 0 (servers p))")
  case None
  then have "filter measured (enumerate 0 (servers p)) = []"
    unfolding find_None_iff filter_empty_conv by blast
  with None show ?thesis by (simp add: select_best_active best_of_def)
next
  case (Some e0)
  let ?xs = "enumerate 0 (servers p)"
  from Some have "filter measured ?xs \<noteq> []" by (auto simp: find_Some_iff filter_empty_conv)
  then obtain e where e: "first_min lat_key (filter measured ?xs) = Some e"
    by (cases "first_min lat_key (filter measured ?xs)") auto
  obtain i s where es: "e = (i, s)" by fastforce
  have in_xs: "(i, s) \<in> set ?xs" and m: "measured (i, s)"
    using first_min_SomeD(1) [OF e] es by auto
  have least: "lat_key e \<le> lat_key m" if "m \<in> set ?xs" "measured m" for m
    using bspec [OF first_min_SomeD(2) [OF e], of m] that by simp
  have i: "active (select_best p) = i" by (simp add: select_best_active best_of_def e es)
  have s: "i < length (servers p)" "servers p ! i = s" using in_xs by (simp_all add: in_set_enumerate_eq)
  have l: "latency s = Some (lat_key e)" "healthy s" "lat_key e < DURATION_MAX"
    using measured_lat [OF m] m by (simp_all add: es measured_def)
  have "lat_key e \<le> l' \<and> (j < i \<longrightarrow> lat_key e < l')"
    if j: "j < length (servers p)" "healthy (servers p ! j)" "latency (servers p ! j) = Some l'" for j l'
  proof (cases "l' < DURATION_MAX")
    case True
    with j have m: "measured (j, servers p ! j)" "lat_key (j, servers p ! j) = l'"
      by (simp_all add: measured_def lat_key_def)
    with least [of "(j, servers p ! j)"] first_min_before [OF e [unfolded es], of j] j(1) show ?thesis
      by (simp add: in_set_enumerate_eq es)
  qed (use l in simp)
  with Some i s l show ?thesis by (auto simp: Let_def)
qed

theorem select_best_spec_witness:
  "active (select_best \<lparr>servers = [\<lparr>rs_addr = addr_a, latency = Some 9, last_probe = None, healthy = True, failures = 0\<rparr>,
      \<lparr>rs_addr = addr_b, latency = Some 5, last_probe = None, healthy = True, failures = 0\<rparr>,
      \<lparr>rs_addr = addr_c, latency = Some 5, last_probe = None, healthy = True, failures = 0\<rparr>], active = 0\<rparr>) = 1"
proof -
  let ?p = "\<lparr>servers = [\<lparr>rs_addr = addr_a, latency = Some 9, last_probe = None, healthy = True, failures = 0\<rparr>,
      \<lparr>rs_addr = addr_b, latency = Some 5, last_probe = None, healthy = True, failures = 0\<rparr>,
      \<lparr>rs_addr = addr_c, latency = Some 5, last_probe = None, healthy = True, failures = 0\<rparr>], active = 0\<rparr>"
  let ?i = "active (select_best ?p)"
  have "find measured (enumerate 0 (servers ?p)) \<noteq> None"
    by (simp add: measured_def DURATION_MAX_def)
  with select_best_spec [of ?p] obtain l where l: "?i < 3" "latency (servers ?p ! ?i) = Some l"
      "\<forall>j<3. \<forall>l'. healthy (servers ?p ! j) \<and> latency (servers ?p ! j) = Some l' \<longrightarrow> l \<le> l' \<and> (j < ?i \<longrightarrow> l < l')"
    by (auto simp: Let_def numeral_3_eq_3)
  consider "?i = 0" | "?i = 1" | "?i = 2" using l(1) by linarith
  then show ?thesis
    using l(2) spec [OF l(3), of 1] by cases simp_all
qed

section \<open>The pool over time\<close>

datatype pool_event = Probe "nat \<Rightarrow> nat \<times> probe_outcome" | Failover

fun pool_step :: "relay_pool panics \<Rightarrow> pool_event \<Rightarrow> relay_pool panics" where
  "pool_step s (Probe net) = do { p \<leftarrow> s; ret (probe_all net p) }"
| "pool_step s Failover = do { p \<leftarrow> s; (_, p') \<leftarrow> failover p; ret p' }"

definition pool_inv :: "socket_addr list \<Rightarrow> relay_pool panics \<Rightarrow> bool" where
  "pool_inv addrs s \<longleftrightarrow>
     (case s of
        None \<Rightarrow> False
      | Some p \<Rightarrow> map rs_addr (servers p) = addrs \<and> active p < length addrs)"

lemma probe_server_addr [simp]: "rs_addr (probe_server so s) = rs_addr s"
  by (auto simp: probe_server_def Let_def split: prod.split probe_outcome.split)

lemma probe_all_addrs: "map rs_addr (servers (probe_all net p)) = map rs_addr (servers p)"
proof -
  have "map rs_addr (map (\<lambda>(i, s). probe_server (net i) s) (enumerate n xs)) = map rs_addr xs" for n xs
    by (induction xs arbitrary: n) simp_all
  then show ?thesis by (simp add: probe_all_def del: map_map)
qed

lemma failover_ok:
  assumes "active p < length (servers p)"
  shows "\<exists>p'. failover p = ret (active p' \<noteq> active p, p')
           \<and> map rs_addr (servers p') = map rs_addr (servers p)
           \<and> active p' < length (servers p')"
proof -
  have upd: "map rs_addr ((servers p)[active p := s]) = map rs_addr (servers p)"
    if "rs_addr s = rs_addr (servers p ! active p)" for s
    using that assms by (simp add: map_update)
      (metis assms length_map list_update_id nth_map)
  have range: "active (select_best (p\<lparr>servers := (servers p)[active p := s]\<rparr>)) < length (servers p)" for s
    using select_best_in_range [of "p\<lparr>servers := (servers p)[active p := s]\<rparr>"] assms by simp
  show ?thesis
    using assms by (simp add: failover_def Let_def upd range)
qed

interpretation pool_system: step_system pool_step "pool_inv addrs"
proof
  fix s e
  assume inv: "pool_inv addrs s"
  then obtain p where p: "s = ret p" "map rs_addr (servers p) = addrs" "active p < length (servers p)"
    by (auto simp: pool_inv_def split: option.splits)
  show "pool_inv addrs (pool_step s e)"
  proof (cases e)
    case (Probe net)
    have "active (probe_all net p) < length (servers p)"
      using p(3) select_best_in_range [of "p\<lparr>servers := map (\<lambda>(i, s). probe_server (net i) s) (enumerate 0 (servers p))\<rparr>"]
      by (simp add: probe_all_def)
    with p Probe probe_all_addrs [of net p] show ?thesis by (auto simp: pool_inv_def)
  next
    case Failover
    with p failover_ok [OF p(3)] show ?thesis
      by (auto simp: pool_inv_def) (metis length_map)
  qed
qed

text \<open>
  A pool made from at least one address works forever: whatever the probes meet and however
  often it fails over, no operation panics, the relays stay the given ones in the given order,
  and \<open>active_addr\<close> is one of them.
\<close>

theorem pool_always_has_active:
  assumes "addrs \<noteq> []"
  shows "\<exists>p a. foldl pool_step (pool_new addrs) es = ret p \<and> map rs_addr (servers p) = addrs
           \<and> active_addr p = ret a \<and> a \<in> set addrs"
proof -
  have "pool_inv addrs (pool_new addrs)"
    using assms by (simp add: pool_inv_def pool_new_def relay_server_new_def o_def)
  then have "pool_inv addrs (foldl pool_step (pool_new addrs) es)" by (rule pool_system.run_inv)
  then obtain p where p: "foldl pool_step (pool_new addrs) es = ret p" "map rs_addr (servers p) = addrs"
      "active p < length (servers p)"
    by (auto simp: pool_inv_def split: option.splits)
  have "active_addr p = ret (map rs_addr (servers p) ! active p)"
    using p(3) by (simp add: active_addr_def)
  moreover have "map rs_addr (servers p) ! active p \<in> set (map rs_addr (servers p))"
    using p(3) by (simp only: length_map nth_mem)
  ultimately show ?thesis using p by auto
qed

theorem pool_always_has_active_witness:
  "\<exists>p a. foldl pool_step (pool_new [addr_a, addr_b]) [Failover, Probe (\<lambda>i. (7, BindFails)), Failover] = ret p
     \<and> map rs_addr (servers p) = [addr_a, addr_b] \<and> active_addr p = ret a \<and> a \<in> {addr_a, addr_b}"
  using pool_always_has_active [of "[addr_a, addr_b]" "[Failover, Probe (\<lambda>i. (7, BindFails)), Failover]"] by simp

section \<open>Failover\<close>

definition usable :: "nat \<times> relay_server \<Rightarrow> bool" where
  "usable e \<longleftrightarrow> measured e \<or> unmeasured e"

lemma best_of_usable: "best_of xs = Some e \<Longrightarrow> usable e"
  using first_min_SomeD(1) [of lat_key "filter measured xs" e]
  by (auto simp: best_of_def usable_def find_Some_iff split: option.splits)

lemma best_of_None: "best_of xs = None \<longleftrightarrow> (\<forall>e\<in>set xs. \<not> usable e)"
proof (cases "first_min lat_key (filter measured xs)")
  case None
  then show ?thesis by (auto simp: best_of_def usable_def find_None_iff filter_empty_conv)
next
  case (Some e)
  from first_min_SomeD(1) [OF Some] show ?thesis by (auto simp: best_of_def usable_def Some)
qed

text \<open>The selection only looks at the health and the latency of the servers.\<close>

definition selection_view :: "relay_server \<Rightarrow> bool \<times> nat option" where
  "selection_view s = (healthy s, latency s)"

lemma select_view:
  "map selection_view xs = map selection_view ys \<Longrightarrow>
     foldl select_turn acc (enumerate n xs) = foldl select_turn acc (enumerate n ys)"
proof (induction xs arbitrary: ys acc n)
  case (Cons x xs)
  then obtain y zs where ys: "ys = y # zs" "selection_view x = selection_view y"
      "map selection_view xs = map selection_view zs"
    by (cases ys) auto
  from ys(2) have "select_turn acc (n, x) = select_turn acc (n, y)"
    by (cases acc) (simp add: selection_view_def select_turn_def)
  with Cons.IH [OF ys(3)] ys(1) show ?case by simp
qed simp

lemma select_best_view:
  assumes "map selection_view xs = map selection_view (servers p)"
  shows "active (select_best (p\<lparr>servers := xs\<rparr>)) = active (select_best p)"
  using select_view [OF assms, of "(None, DURATION_MAX)" 0] by (simp add: select_best_def split: option.split)

text \<open>
  Failing over from the selected relay changes nothing until its third consecutive failure:
  the failure is counted and the same relay stays active. At the third the relay is marked
  unhealthy, and the pool moves to a healthy relay if there is another usable one and stays if
  there is none. The result says whether the active relay changed.
\<close>

theorem failover_spec:
  assumes "active p < length (servers p)" and "select_best p = p"
  shows "\<exists>p'. failover p = ret (active p' \<noteq> active p, p')
      \<and> (failures (servers p ! active p) + 1 < 3 \<longrightarrow> active p' = active p
           \<and> servers p' = (servers p)[active p := (servers p ! active p)
                               \<lparr>failures := failures (servers p ! active p) + 1\<rparr>])
      \<and> (3 \<le> failures (servers p ! active p) + 1 \<longrightarrow>
           \<not> healthy (servers p' ! active p)
           \<and> (if \<exists>j < length (servers p). j \<noteq> active p \<and> usable (j, servers p ! j)
              then active p' \<noteq> active p \<and> healthy (servers p' ! active p')
              else active p' = active p))"
proof -
  let ?i = "active p" and ?xs = "servers p"
  let ?f = "failures (?xs ! ?i) + 1"
  let ?s1 = "(?xs ! ?i)\<lparr>failures := ?f\<rparr>"
  let ?s = "if ?f \<ge> 3 then ?s1\<lparr>healthy := False\<rparr> else ?s1"
  let ?ys = "?xs[?i := ?s]"
  let ?p = "select_best (p\<lparr>servers := ?ys\<rparr>)"
  have fo: "failover p = ret (active ?p \<noteq> ?i, ?p)" using assms(1) by (simp add: failover_def Let_def)
  have early: "active ?p = ?i" if "?f < 3"
  proof -
    have "map selection_view ?ys = map selection_view ?xs"
      using that assms(1) by (intro nth_equalityI) (auto simp: nth_list_update selection_view_def)
    then show ?thesis using assms(2) by (simp only: select_best_view)
  qed
  have nth: "?ys ! j = ?xs ! j" if "j \<noteq> ?i" for j using that by simp
  have at: "?ys ! ?i = ?s" using assms(1) by simp
  have late: "if \<exists>j < length ?xs. j \<noteq> ?i \<and> usable (j, ?xs ! j)
       then active ?p \<noteq> ?i \<and> healthy (?ys ! active ?p) else active ?p = ?i" if f: "?f \<ge> 3"
  proof -
    have no: "\<not> usable (?i, ?ys ! ?i)" using f at by (simp add: usable_def measured_def unmeasured_def)
    show ?thesis
    proof (cases "best_of (enumerate 0 ?ys)")
      case None
      have none: "\<not> usable (j, ?xs ! j)" if "j < length ?xs" "j \<noteq> ?i" for j
      proof -
        have "(j, ?ys ! j) \<in> set (enumerate 0 ?ys)" using that by (simp add: in_set_enumerate_eq)
        with None nth [OF that(2)] show ?thesis unfolding best_of_None by metis
      qed
      from None have "active ?p = ?i" by (simp add: select_best_active)
      with none show ?thesis by auto
    next
      case (Some e)
      obtain k s where e: "e = (k, s)" by fastforce
      have "(k, s) \<in> set (enumerate 0 ?ys)" using best_of_in [OF Some] e by simp
      then have k: "k < length ?xs" "s = ?ys ! k" by (auto simp: in_set_enumerate_eq)
      have u: "usable (k, ?ys ! k)" using best_of_usable [OF Some] e k by simp
      then have ki: "k \<noteq> ?i" using no by metis
      have "healthy (?ys ! k)" using u by (auto simp: usable_def measured_def unmeasured_def)
      moreover have "usable (k, ?xs ! k)" using u nth [OF ki] by metis
      moreover have "active ?p = k" using Some e by (simp add: select_best_active)
      ultimately show ?thesis using k(1) ki by auto
    qed
  qed
  have sp: "servers ?p = ?ys" by simp
  show ?thesis
  proof (intro exI [of _ ?p] conjI impI)
    show "failover p = ret (active ?p \<noteq> ?i, ?p)" by (rule fo)
    show "active ?p = ?i" if "?f < 3" using that by (rule early)
    show "servers ?p = ?xs[?i := ?s1]" if "?f < 3" using that by (simp add: not_le [symmetric])
    show "\<not> healthy (servers ?p ! ?i)" if "?f \<ge> 3" using that at by simp
    show "if \<exists>j < length ?xs. j \<noteq> ?i \<and> usable (j, ?xs ! j)
       then active ?p \<noteq> ?i \<and> healthy (servers ?p ! active ?p) else active ?p = ?i" if "?f \<ge> 3"
      unfolding sp using that by (rule late)
  qed
qed

theorem failover_spec_witness:
  "\<exists>p p'. pool_new [addr_a, addr_b] = ret p \<and> failover p = ret (active p' \<noteq> 0, p') \<and> active p' = 0"
proof -
  let ?p = "\<lparr>servers = [relay_server_new addr_a, relay_server_new addr_b], active = 0\<rparr>"
  have "active ?p < length (servers ?p)" by simp
  moreover have "select_best ?p = ?p"
    by (simp add: select_best_def select_turn_def relay_server_new_def)
  ultimately obtain p' where "failover ?p = ret (active p' \<noteq> active ?p, p')"
      "failures (servers ?p ! active ?p) + 1 < 3 \<longrightarrow> active p' = active ?p"
    using failover_spec [of ?p] by blast
  then show ?thesis by (intro exI [of _ ?p] exI [of _ p']) (simp add: pool_new_def relay_server_new_def)
qed

section \<open>Probing the relay server of this repository\<close>

text \<open>
  What a probe of \<open>services/relay\<close> meets: the server takes the one-byte datagram, and the
  socket sees an answer if the server then sends a datagram to the socket's address.
\<close>

definition probe_byte :: bytes where "probe_byte = [0x50]"

definition probe_relay :: "relay_state \<Rightarrow> socket_addr \<Rightarrow> bool \<Rightarrow> nat \<Rightarrow> probe_outcome" where
  "probe_relay srv src send_ok rtt =
     (let srv' = relay_step srv (Recv probe_byte src send_ok)
      in if src \<in> fst ` set (drop (length (sent srv)) (sent srv')) then Answered rtt else NoAnswer)"

definition probe_round ::
  "(nat \<Rightarrow> nat \<Rightarrow> nat \<times> probe_outcome) \<Rightarrow> nat \<Rightarrow> relay_pool \<Rightarrow> relay_pool" where
  "probe_round net n p = foldl (\<lambda>p k. probe_all (net k) p) p [0..<n]"

lemma probe_relay_silent: "probe_relay srv src ok rtt = NoAnswer"
  by (simp add: probe_relay_def relay_step_short probe_byte_def)

text \<open>The state of a pool after \<open>n\<close> unanswered rounds.\<close>

definition unanswered :: "nat \<Rightarrow> relay_pool \<Rightarrow> bool" where
  "unanswered n p \<longleftrightarrow> active p = 0 \<and>
     (\<forall>s\<in>set (servers p). latency s = None \<and> (healthy s \<longleftrightarrow> n < 3) \<and> (n < 3 \<longrightarrow> failures s = of_nat n))"

lemma probe_server_NoAnswer:
  "probe_server (t, NoAnswer) s =
     s\<lparr>failures := failures s + 1, healthy := (healthy s \<and> failures s + 1 < 3), last_probe := Some t\<rparr>"
  by (cases s) (auto simp: probe_server_def Let_def not_le)

lemma less_3: "(n :: nat) < 3 \<longleftrightarrow> n = 0 \<or> n = 1 \<or> n = 2"
  by auto

lemma select_best_unmeasured:
  assumes "\<forall>s\<in>set ys. latency s = None \<and> healthy s = h" and "ys \<noteq> []"
  shows "active (select_best (p\<lparr>servers := ys\<rparr>)) = (if h then 0 else active p)"
proof -
  have *: "measured e = False" "unmeasured e = h" if "e \<in> set (enumerate 0 ys)" for e
  proof -
    from that have "snd e \<in> set ys" by (metis enumerate_eq_zip set_zip_rightD prod.collapse)
    with assms(1) have "latency (snd e) = None" "healthy (snd e) = h" by blast+
    then show "measured e = False" "unmeasured e = h" by (simp_all add: measured_def unmeasured_def)
  qed
  obtain x xs where ys: "ys = x # xs" using assms(2) by (cases ys) auto
  have "filter measured (enumerate 0 ys) = []" using *(1) by (simp add: filter_empty_conv)
  moreover have "find unmeasured (enumerate 0 ys) = (if h then Some (0, x) else None)"
  proof (cases h)
    case True
    with *(2) [of "(0, x)"] show ?thesis by (simp add: ys)
  next
    case False
    with *(2) show ?thesis by (simp add: find_None_iff)
  qed
  ultimately show ?thesis by (simp add: select_best_active best_of_def)
qed

lemma unanswered_round:
  assumes "unanswered n p" and "servers p \<noteq> []" and "\<And>i. snd (net i) = NoAnswer"
  shows "unanswered (Suc n) (probe_all net p)"
proof -
  let ?ys = "map (\<lambda>(i, s). probe_server (net i) s) (enumerate 0 (servers p))"
  have each: "latency s = None \<and> (healthy s \<longleftrightarrow> Suc n < 3) \<and> (Suc n < 3 \<longrightarrow> failures s = of_nat (Suc n))"
    if s: "s \<in> set ?ys" for s
  proof -
    from s obtain i s0 where s0: "s0 \<in> set (servers p)" "s = probe_server (net i) s0"
      by (auto simp: in_set_enumerate_eq) (metis nth_mem)
    obtain t where "net i = (t, NoAnswer)" using assms(3) [of i] by (cases "net i") auto
    with s0 assms(1) show ?thesis
      using less_3 [of n] by (cases "n < 3") (auto simp: unanswered_def probe_server_NoAnswer)
  qed
  then have same: "\<forall>s\<in>set ?ys. latency s = None \<and> healthy s = (Suc n < 3)" by blast
  have "?ys \<noteq> []" using assms(2) by (cases "servers p") simp_all
  then have "active (probe_all net p) = 0"
    using select_best_unmeasured [OF same, of p] assms(1) by (auto simp: probe_all_def unanswered_def)
  moreover have "servers (probe_all net p) = ?ys" by (simp add: probe_all_def)
  ultimately show ?thesis using each unfolding unanswered_def by metis
qed

text \<open>
  The relay server never answers the pool's probe: a pool whose relays all run this
  repository's relay server, in whatever states, learns no latency, keeps its first relay
  active, and after three rounds of probing and ever after holds every relay unhealthy.
\<close>

theorem own_relays_fail_probes:
  assumes "pool_new addrs = ret p"
    and "net = (\<lambda>k i. (t k i, probe_relay (srv k i) (src k i) (ok k i) (rtt k i)))"
  shows "active (probe_round net n p) = 0
     \<and> map rs_addr (servers (probe_round net n p)) = addrs
     \<and> (\<forall>s\<in>set (servers (probe_round net n p)). latency s = None \<and> (healthy s \<longleftrightarrow> n < 3))"
proof -
  have ne: "addrs \<noteq> []" using assms(1) by (auto simp: pool_new_def)
  have "unanswered n (probe_round net n p) \<and> map rs_addr (servers (probe_round net n p)) = addrs"
  proof (induction n)
    case 0
    show ?case using assms(1)
      by (auto simp: probe_round_def unanswered_def pool_new_def relay_server_new_def o_def split: if_splits)
  next
    case (Suc n)
    have step: "probe_round net (Suc n) p = probe_all (net n) (probe_round net n p)"
      by (simp add: probe_round_def)
    have "servers (probe_round net n p) \<noteq> []" using Suc ne by auto
    with Suc have "unanswered (Suc n) (probe_all (net n) (probe_round net n p))"
      by (intro unanswered_round) (auto simp: assms(2) probe_relay_silent)
    with Suc step show ?case by (simp add: probe_all_addrs)
  qed
  then show ?thesis by (auto simp: unanswered_def)
qed

theorem own_relays_fail_probes_witness:
  "\<exists>p. pool_new [addr_a, addr_b] = ret p
     \<and> \<not> healthy (hd (servers (probe_round (\<lambda>k i. (k, probe_relay relay_init addr_c True 5)) 3 p)))"
proof -
  obtain p where p: "pool_new [addr_a, addr_b] = ret p" by (simp add: pool_new_def)
  let ?net = "\<lambda>(k::nat) (i::nat). (k, probe_relay relay_init addr_c True 5)"
  let ?q = "probe_round ?net 3 p"
  have q: "map rs_addr (servers ?q) = [addr_a, addr_b]" "\<forall>s\<in>set (servers ?q). healthy s \<longleftrightarrow> (3::nat) < 3"
    using own_relays_fail_probes [OF p refl, of "\<lambda>k i. k" "\<lambda>k i. relay_init" "\<lambda>k i. addr_c" "\<lambda>k i. True" "\<lambda>k i. 5" 3]
    by simp_all
  from q(1) have "servers ?q \<noteq> []" by auto
  with q(2) have "\<not> healthy (hd (servers ?q))" using hd_in_set by blast
  with p show ?thesis by blast
qed

text \<open>The summary names exactly one relay active, the one \<open>active_addr\<close> returns.\<close>

lemma summary_active:
  assumes "active p < length (servers p)"
  shows "map sum_addr (filter sum_active (pool_summary p)) = [rs_addr (servers p ! active p)]"
proof -
  have *: "map sum_addr (filter sum_active (map (\<lambda>(i, s). \<lparr>sum_addr = rs_addr s, sum_latency_ms = l s,
          sum_healthy = healthy s, sum_active = (i = k)\<rparr>) (enumerate n xs)))
        = (if n \<le> k \<and> k < n + length xs then [rs_addr (xs ! (k - n))] else [])" for n k l xs
  proof (induction xs arbitrary: n)
    case (Cons x xs)
    from Cons.IH [of "Suc n"] show ?case by (auto simp: nth_Cons' not_le split: if_splits)
  qed simp
  show ?thesis unfolding pool_summary_def
    by (subst *) (use assms in simp)
qed

end
