(* ===== verification/Pool_Recovery.thy ===== *)
theory Pool_Recovery
  imports Relay_Pool
begin

section \<open>Relays that fail and relays that answer\<close>

text \<open>A healthy relay has failed at most twice since it last answered.\<close>

definition health_ok :: "relay_server \<Rightarrow> bool" where
  "health_ok s \<longleftrightarrow> (healthy s \<longrightarrow> failures s \<in> {0, 1, 2})"

definition health_inv :: "relay_pool panics \<Rightarrow> bool" where
  "health_inv st \<longleftrightarrow> (case st of
      None \<Rightarrow> True
    | Some p \<Rightarrow> \<forall>s\<in>set (servers p). health_ok s)"

lemma probe_server_health: "health_ok s \<Longrightarrow> health_ok (probe_server so s)"
  by (cases so; cases "snd so") (auto simp: probe_server_def health_ok_def Let_def)

lemma servers_probe_all: "servers (probe_all net p) = map (\<lambda>(i, s). probe_server (net i) s) (enumerate 0 (servers p))"
  by (simp add: probe_all_def)

lemma length_probe_all [simp]: "length (servers (probe_all net p)) = length (servers p)"
  by (simp add: servers_probe_all)

lemma nth_probe_all [simp]:
  "i < length (servers p) \<Longrightarrow> servers (probe_all net p) ! i = probe_server (net i) (servers p ! i)"
  by (simp add: servers_probe_all nth_enumerate_eq)

lemma active_probe_all:
  "best_of (enumerate 0 (servers (probe_all net p))) = Some e \<Longrightarrow> active (probe_all net p) = fst e"
  by (simp add: servers_probe_all) (simp add: probe_all_def select_best_active)

interpretation pool_health: step_system pool_step health_inv
proof
  fix st e
  assume inv: "health_inv st"
  show "health_inv (pool_step st e)"
  proof (cases st)
    case None
    then show ?thesis by (cases e) (simp_all add: health_inv_def)
  next
    case (Some p)
    show ?thesis
    proof (cases e)
      case (Probe net)
      with inv Some show ?thesis
        by (simp add: health_inv_def all_set_conv_all_nth probe_server_health)
    next
      case Failover
      show ?thesis
      proof (cases "active p < length (servers p)")
        case True
        let ?s = "(servers p ! active p)\<lparr>failures := failures (servers p ! active p) + 1\<rparr>"
        let ?s' = "if 3 \<le> failures ?s then ?s\<lparr>healthy := False\<rparr> else ?s"
        have old: "health_ok s" if "s \<in> set (servers p)" for s
          using inv Some that by (simp add: health_inv_def)
        from old [of "servers p ! active p"] True
        have "health_ok ?s'" by (auto simp: health_ok_def)
        moreover have "set ((servers p)[active p := ?s']) \<subseteq> insert ?s' (set (servers p))" by (rule set_update_subset_insert)
        ultimately have "\<forall>s\<in>set ((servers p)[active p := ?s']). health_ok s"
          using old by blast
        with Failover Some True show ?thesis by (simp add: health_inv_def failover_def Let_def)
      next
        case False
        with Failover Some show ?thesis by (simp add: health_inv_def failover_def)
      qed
    qed
  qed
qed

lemma three_failures:
  assumes "health_ok s"
    and "\<forall>e. snd so1 \<noteq> Answered e" and "\<forall>e. snd so2 \<noteq> Answered e" and "\<forall>e. snd so3 \<noteq> Answered e"
  shows "\<not> healthy (probe_server so3 (probe_server so2 (probe_server so1 s)))"
proof -
  have down: "\<not> healthy s \<Longrightarrow> \<forall>e. snd so \<noteq> Answered e \<Longrightarrow> \<not> healthy (probe_server so s)" for s so
    by (cases so; cases "snd so") (auto simp: probe_server_def Let_def)
  have up: "failures (probe_server so s) = failures s + 1 \<and> (3 \<le> failures s + 1 \<longrightarrow> \<not> healthy (probe_server so s))"
    if "\<forall>e. snd so \<noteq> Answered e" for s so
    using that by (cases so; cases "snd so") (auto simp: probe_server_def Let_def)
  show ?thesis
  proof (cases "healthy s")
    case True
    with assms(1) consider "failures s = 0" | "failures s = 1" | "failures s = 2"
      by (auto simp: health_ok_def)
    then show ?thesis
      by cases (use up [OF assms(2)] up [OF assms(3)] up [OF assms(4)] down assms(2-4) in force)+
  next
    case False
    with down assms(2-4) show ?thesis by blast
  qed
qed

text \<open>
  C20: The pool recovers: from any state it can reach by probing and failing over, three rounds
  of probes in which every relay but one stays silent, and in which that one answers the last
  probe, leave the pool on the relay that answers. The silent relays are then all unhealthy.
\<close>

theorem pool_recovers:
  assumes "foldl pool_step (pool_new addrs) es = ret p" and "k < length addrs"
    and "\<forall>net\<in>{net1, net2, net3}. \<forall>i e. i \<noteq> k \<longrightarrow> snd (net i) \<noteq> Answered e"
    and "snd (net3 k) = Answered rtt" and "rtt < DURATION_MAX"
  shows "\<exists>p'. foldl pool_step (pool_new addrs) (es @ [Probe net1, Probe net2, Probe net3]) = ret p'
     \<and> active_addr p' = ret (addrs ! k)
     \<and> (\<forall>i < length addrs. healthy (servers p' ! i) \<longleftrightarrow> i = k)"
proof -
  let ?p' = "probe_all net3 (probe_all net2 (probe_all net1 p))"
  have "addrs \<noteq> []" using assms(2) by auto
  then have "pool_inv addrs (pool_new addrs)"
    by (simp add: pool_inv_def pool_new_def relay_server_new_def o_def)
  from pool_system.run_inv [OF this, of es] have p: "map rs_addr (servers p) = addrs"
    using assms(1) by (simp add: pool_inv_def)
  then have len: "length (servers p) = length addrs" by auto
  have "health_inv (pool_new addrs)"
    using \<open>addrs \<noteq> []\<close> by (simp add: health_inv_def health_ok_def pool_new_def relay_server_new_def)
  from pool_health.run_inv [OF this, of es] have inv: "health_ok s"
    if "s \<in> set (servers p)" for s
    using assms(1) that by (simp add: health_inv_def)
  have others: "\<not> healthy (servers ?p' ! i)" if "i < length addrs" "i \<noteq> k" for i
    using three_failures [OF inv, of "servers p ! i" "net1 i" "net2 i" "net3 i"] that assms(3) len by simp
  have last: "healthy (servers ?p' ! k)" "latency (servers ?p' ! k) = Some rtt"
    using assms(2,4) len by (cases "net3 k"; simp add: probe_server_def)+
  have "measured (k, servers ?p' ! k)" using last assms(5) by (simp add: measured_def)
  then have k: "usable (k, servers ?p' ! k)" "(k, servers ?p' ! k) \<in> set (enumerate 0 (servers ?p'))"
    using assms(2) len by (simp_all add: usable_def measured_def unmeasured_def in_set_enumerate_eq)
  then obtain e where e: "best_of (enumerate 0 (servers ?p')) = Some e"
    by (cases "best_of (enumerate 0 (servers ?p'))") (auto simp: best_of_None)
  have "fst e < length addrs" "servers ?p' ! fst e = snd e"
    using best_of_in [OF e] len by (simp_all add: in_set_enumerate_eq)
  moreover have "healthy (snd e)"
    using best_of_usable [OF e] by (auto simp: usable_def measured_def unmeasured_def)
  ultimately have "fst e = k" using others [of "fst e"] by auto
  with active_probe_all [OF e] have "active ?p' = k" by simp
  moreover have "rs_addr (servers ?p' ! k) = addrs ! k"
    using assms(2) len p by (metis length_probe_all nth_map nth_probe_all probe_server_addr)
  ultimately have "active_addr ?p' = ret (addrs ! k)" using assms(2) len by (simp add: active_addr_def)
  moreover have "foldl pool_step (pool_new addrs) (es @ [Probe net1, Probe net2, Probe net3]) = ret ?p'"
    using assms(1) by simp
  ultimately show ?thesis using others last(1) by blast
qed

theorem pool_recovers_witness:
  "\<exists>p'. foldl pool_step (pool_new [addr_a, addr_b])
       ([Failover] @ [Probe (\<lambda>i. (0, NoAnswer)), Probe (\<lambda>i. (30, NoAnswer)), Probe (\<lambda>i. (60, if i = 1 then Answered 5 else BindFails))]) = ret p'
     \<and> active_addr p' = ret addr_b"
proof -
  obtain p where p: "foldl pool_step (pool_new [addr_a, addr_b]) [Failover] = ret p"
    using pool_always_has_active [of "[addr_a, addr_b]" "[Failover]"] by auto
  have "\<forall>net\<in>{\<lambda>i. (0, NoAnswer), \<lambda>i. (30, NoAnswer), \<lambda>i. (60, if i = 1 then Answered 5 else BindFails)}.
      \<forall>i e. i \<noteq> 1 \<longrightarrow> snd (net i) \<noteq> Answered e" by simp
  from pool_recovers [OF p _ this] show ?thesis by (auto simp: DURATION_MAX_def)
qed

end
