(* ===== verification/Stun.thy ===== *)
theory Stun
  imports Net_Addr
begin

text \<open>
  \<open>crates/nat/src/stun.rs\<close> (the client: request, response parser, XOR-MAPPED-ADDRESS) and
  \<open>services/stun/src/main.rs\<close> (the server). Both parse untrusted datagrams; both are written
  with accesses that panic out of range and shown never to panic. The interface
  \<open>binding_service\<close> states what the client expects of a server; it is interpreted on the
  server of this repository.
\<close>

section \<open>Constants and errors\<close>

definition MAGIC_COOKIE :: u32 where "MAGIC_COOKIE = 0x2112A442"
definition BINDING_REQUEST :: u16 where "BINDING_REQUEST = 0x0001"
definition BINDING_SUCCESS :: u16 where "BINDING_SUCCESS = 0x0101"
definition ATTR_XOR_MAPPED_ADDRESS :: u16 where "ATTR_XOR_MAPPED_ADDRESS = 0x0020"
definition STUN_HEADER_LEN :: nat where "STUN_HEADER_LEN = 20"
definition IPV4_FAMILY :: u8 where "IPV4_FAMILY = 0x01"

lemma STUN_HEADER_LEN_20 [simp]: "STUN_HEADER_LEN = 20"
  by (simp add: STUN_HEADER_LEN_def)

datatype stun_error =
    StunIo
  | UnexpectedResponse u16
  | TransactionMismatch
  | MissingMappedAddress
  | InvalidServerAddress

text \<open>\<open>(MAGIC_COOKIE >> 16) as u16\<close>.\<close>

definition cookie_port :: u16 where
  "cookie_port = ucast (drop_bit 16 MAGIC_COOKIE)"

section \<open>The client\<close>

definition build_binding_request :: "bytes \<Rightarrow> bytes" where
  "build_binding_request tx_id =
     u16_be BINDING_REQUEST @ u16_be 0 @ u32_be MAGIC_COOKIE @ tx_id"

definition parse_response :: "bytes \<Rightarrow> (stun_error + u16 \<times> bytes \<times> bytes) panics" where
  "parse_response data =
     (if length data < STUN_HEADER_LEN then ret (Err MissingMappedAddress)
      else do {
        ty \<leftarrow> u16_at data 0;
        len \<leftarrow> u16_at data 2;
        magic \<leftarrow> u32_at data 4;
        if magic \<noteq> MAGIC_COOKIE then ret (Err MissingMappedAddress)
        else do {
          tx_id \<leftarrow> slice data 8 20;
          let attr_end = STUN_HEADER_LEN + min (unat len) (length data - STUN_HEADER_LEN);
          attrs \<leftarrow> slice data STUN_HEADER_LEN (min attr_end (length data));
          ret (Ok (ty, tx_id, attrs))
        }
      })"

text \<open>
  The attribute loop, by position as in the source. It ends because the position grows by at
  least four in every turn.
\<close>

function parse_attrs_from :: "bytes \<Rightarrow> nat \<Rightarrow> socket_addr option panics" where
  "parse_attrs_from attrs pos =
     (if pos + 4 \<le> length attrs then do {
        attr_type \<leftarrow> u16_at attrs pos;
        attr_len16 \<leftarrow> u16_at attrs (pos + 2);
        let attr_len = unat attr_len16;
        let p = pos + 4;
        if attr_type = ATTR_XOR_MAPPED_ADDRESS \<and> attr_len \<ge> 8 \<and> p + attr_len \<le> length attrs
        then do {
          _ \<leftarrow> idx attrs p;
          family \<leftarrow> idx attrs (p + 1);
          if family \<noteq> IPV4_FAMILY then ret None
          else do {
            x_port \<leftarrow> u16_at attrs (p + 2);
            x_addr \<leftarrow> u32_at attrs (p + 4);
            ret (Some (SocketAddr (V4 (x_addr XOR MAGIC_COOKIE)) (x_port XOR cookie_port)))
          }
        }
        else parse_attrs_from attrs (p + attr_len + (4 - attr_len mod 4) mod 4)
      }
      else ret None)"
  by pat_completeness auto
termination
  by (relation "measure (\<lambda>(attrs, pos). length attrs - pos)") auto

declare parse_attrs_from.simps [simp del]

definition parse_xor_mapped_address :: "bytes \<Rightarrow> socket_addr option panics" where
  "parse_xor_mapped_address attrs = parse_attrs_from attrs 0"

text \<open>
  What \<open>discover\<close> does with the datagram it receives (cut to its 512-byte buffer) after sending
  the request for the transaction \<open>tx_id\<close>; a socket error is \<open>StunIo\<close>.
\<close>

definition STUN_BUF :: nat where "STUN_BUF = 512"

definition discover_reply :: "bytes \<Rightarrow> bytes \<Rightarrow> (stun_error + socket_addr) panics" where
  "discover_reply tx_id data = do {
     r \<leftarrow> parse_response (take STUN_BUF data);
     case r of
       Err e \<Rightarrow> ret (Err e)
     | Ok (ty, resp_tx_id, attrs) \<Rightarrow>
         if ty \<noteq> BINDING_SUCCESS then ret (Err (UnexpectedResponse ty))
         else if resp_tx_id \<noteq> tx_id then ret (Err TransactionMismatch)
         else do {
           a \<leftarrow> parse_xor_mapped_address attrs;
           case a of None \<Rightarrow> ret (Err MissingMappedAddress) | Some addr \<Rightarrow> ret (Ok addr)
         }
   }"

text \<open>The whole call: \<open>send_ok\<close> is the fate of the request, \<open>reply\<close> what \<open>recv_from\<close> returns.\<close>

definition discover ::
  "bytes \<Rightarrow> bool \<Rightarrow> bytes option \<Rightarrow> (stun_error + socket_addr) panics" where
  "discover tx_id send_ok reply =
     (if \<not> send_ok then ret (Err StunIo)
      else (case reply of None \<Rightarrow> ret (Err StunIo) | Some data \<Rightarrow> discover_reply tx_id data))"

definition fuzz_stun_response :: "bytes \<Rightarrow> unit panics" where
  "fuzz_stun_response data = do {
     r \<leftarrow> parse_response data;
     case r of
       Ok (_, _, attrs) \<Rightarrow> do { _ \<leftarrow> parse_xor_mapped_address attrs; ret () }
     | Err _ \<Rightarrow> ret () }"

section \<open>The server\<close>

definition build_xor_mapped_v4 :: "ipv4 \<Rightarrow> u16 \<Rightarrow> bytes" where
  "build_xor_mapped_v4 ip port =
     (let x_port = port XOR cookie_port;
          addr_bits = u32_of_be (ipv4_octets ip);
          x_addr = addr_bits XOR MAGIC_COOKIE
      in u16_be ATTR_XOR_MAPPED_ADDRESS @ u16_be 8 @ [0x00] @ [0x01]
         @ u16_be x_port @ u32_be x_addr)"

definition build_xor_mapped_v6 :: "ipv6 \<Rightarrow> u16 \<Rightarrow> bytes" where
  "build_xor_mapped_v6 ip port =
     (let x_port = port XOR cookie_port;
          octets = ipv6_octets ip;
          mc = u32_be MAGIC_COOKIE;
          x_addr = map2 (XOR) (take 4 octets) mc @ drop 4 octets
      in u16_be ATTR_XOR_MAPPED_ADDRESS @ u16_be 20 @ [0x00] @ [0x02]
         @ u16_be x_port @ x_addr)"

definition handle_binding_request :: "bytes \<Rightarrow> socket_addr \<Rightarrow> bytes option panics" where
  "handle_binding_request data client_addr =
     (if length data < 20 then ret None
      else do {
        ty \<leftarrow> u16_at data 0;
        if ty \<noteq> BINDING_REQUEST then ret None
        else do {
          magic \<leftarrow> u32_at data 4;
          if magic \<noteq> MAGIC_COOKIE then ret None
          else do {
            tx_id \<leftarrow> slice data 8 20;
            let mapped_attr = (case addr_ip client_addr of
                V4 ip \<Rightarrow> build_xor_mapped_v4 ip (addr_port client_addr)
              | V6 ip \<Rightarrow> build_xor_mapped_v6 ip (addr_port client_addr));
            ret (Some (u16_be BINDING_SUCCESS @ u16_be (of_nat (length mapped_attr))
                       @ u32_be MAGIC_COOKIE @ tx_id @ mapped_attr))
          }
        }
      })"

text \<open>
  One turn of the server loop: \<open>None\<close> when \<open>main\<close> ends (a socket error), otherwise the
  datagrams it sends. The receive buffer has 512 bytes.
\<close>

definition stun_server_step ::
  "(bytes \<times> socket_addr) option \<Rightarrow> bool \<Rightarrow> (socket_addr \<times> bytes) list option panics" where
  "stun_server_step received send_ok =
     (case received of
        None \<Rightarrow> ret None
      | Some (data, client_addr) \<Rightarrow> do {
          r \<leftarrow> handle_binding_request (take STUN_BUF data) client_addr;
          case r of
            None \<Rightarrow> ret (Some [])
          | Some response \<Rightarrow> ret (if send_ok then Some [(client_addr, response)] else None) })"

section \<open>The parsers never panic\<close>

lemma parse_response_eq:
  "parse_response data =
     ret (if length data < 20 \<or> u32_of_be (take 4 (drop 4 data)) \<noteq> MAGIC_COOKIE
          then Err MissingMappedAddress
          else Ok (u16_of_be (take 2 data), take 12 (drop 8 data),
                   take (unat (u16_of_be (take 2 (drop 2 data)))) (drop 20 data)))"
  by (auto simp: parse_response_def Let_def min_def)

lemma parse_attrs_no_panic: "parse_attrs_from attrs pos \<noteq> panic"
proof (induction attrs pos rule: parse_attrs_from.induct)
  case (1 attrs pos)
  show ?case
  proof (cases "pos + 4 \<le> length attrs")
    case True
    then show ?thesis
      using "1" by (subst parse_attrs_from.simps) (auto simp: Let_def)
  next
    case False
    then show ?thesis by (subst parse_attrs_from.simps) simp
  qed
qed

lemma parse_xor_mapped_no_panic: "parse_xor_mapped_address attrs \<noteq> panic"
  by (simp add: parse_xor_mapped_address_def parse_attrs_no_panic del: not_None_eq)

text \<open>
  The STUN client never panics on a datagram, whatever its bytes (the statement of the
  crate's fuzz target): the attribute loop ends and no access is out of range, in the response
  parser, in the attribute parser and in the whole of \<open>discover\<close>.
\<close>

theorem stun_client_no_panic:
  "fuzz_stun_response data = ret () \<and> discover tx_id send_ok reply \<noteq> panic"
proof
  have x: "\<And>attrs. \<exists>a. parse_xor_mapped_address attrs = ret a"
    using parse_xor_mapped_no_panic by auto
  have y: "\<And>attrs. (parse_xor_mapped_address attrs \<bind> (\<lambda>_. ret ())) = ret ()"
    by (metis Option.bind.bind_lunit x)
  show "fuzz_stun_response data = ret ()"
    by (simp add: fuzz_stun_response_def parse_response_eq y)
  have z: "\<exists>y. (parse_xor_mapped_address attrs
              \<bind> case_option (ret (Err MissingMappedAddress)) (\<lambda>addr. ret (Ok addr))) = ret y" for attrs
    using x [of attrs] by (auto split: option.splits)
  have "discover_reply tx_id d \<noteq> panic" for d
    using z by (auto simp: discover_reply_def parse_response_eq Let_def)
  then show "discover tx_id send_ok reply \<noteq> panic"
    by (auto simp: discover_def split: option.splits)
qed

lemma take_take_2 [simp]: "length xs = 2 \<Longrightarrow> take 2 (xs @ ys) = xs"
  by simp

text \<open>
  The STUN server never panics; it answers exactly the datagrams of at least 20 bytes with
  the type and cookie of a binding request, with a success response that echoes the transaction
  id and whose length field is the length of its one attribute (12 bytes for IPv4, 24 for IPv6).
\<close>

theorem handle_binding_request_spec:
  "handle_binding_request data src =
     ret (if 20 \<le> length data \<and> u16_of_be (take 2 data) = BINDING_REQUEST
             \<and> u32_of_be (take 4 (drop 4 data)) = MAGIC_COOKIE
          then (let attr = (case addr_ip src of
                              V4 ip \<Rightarrow> build_xor_mapped_v4 ip (addr_port src)
                            | V6 ip \<Rightarrow> build_xor_mapped_v6 ip (addr_port src))
                in Some (u16_be BINDING_SUCCESS
                     @ u16_be (case addr_ip src of V4 _ \<Rightarrow> 12 | V6 _ \<Rightarrow> 24)
                     @ u32_be MAGIC_COOKIE @ take 12 (drop 8 data) @ attr))
          else None)"
  by (auto simp: handle_binding_request_def Let_def build_xor_mapped_v4_def
      build_xor_mapped_v6_def split: ip_addr.splits)

section \<open>Position in the attribute list\<close>

lemma u16_at_append: "u16_at (pre @ xs) (length pre + k) = u16_at xs k"
  by (simp add: u16_at_def idx_def nth_append add.assoc)

lemma u32_at_append: "u32_at (pre @ xs) (length pre + k) = u32_at xs k"
  by (simp add: u32_at_def idx_def nth_append add.assoc)

lemma idx_append: "idx (pre @ xs) (length pre + k) = idx xs k"
  by (simp add: idx_def nth_append)

lemma parse_attrs_shift:
  "parse_attrs_from (pre @ xs) (length pre + k) = parse_attrs_from xs k"
proof (induction xs k rule: parse_attrs_from.induct)
  case (1 xs k)
  note eqs = u16_at_append u32_at_append idx_append
  have le: "length pre + k + 4 \<le> length (pre @ xs) \<longleftrightarrow> k + 4 \<le> length xs" by simp
  show ?case
  proof (cases "k + 4 \<le> length xs")
    case False
    then show ?thesis
      by (subst (1 2) parse_attrs_from.simps) (simp add: le)
  next
    case True
    then have t: "u16_at xs k = ret (u16_of_be (take 2 (drop k xs)))"
      and l: "u16_at xs (k + 2) = ret (u16_of_be (take 2 (drop (k + 2) xs)))" by simp_all
    let ?n = "unat (u16_of_be (take 2 (drop (k + 2) xs)))"
    let ?c = "u16_of_be (take 2 (drop k xs)) = ATTR_XOR_MAPPED_ADDRESS \<and> 8 \<le> ?n
                \<and> k + 4 + ?n \<le> length xs"
    have IH: "\<not> ?c \<Longrightarrow> parse_attrs_from (pre @ xs) (length pre + (k + 4 + ?n + (4 - ?n mod 4) mod 4))
        = parse_attrs_from xs (k + 4 + ?n + (4 - ?n mod 4) mod 4)"
      by (rule "1.IH" [OF True t l refl refl])
    show ?thesis
      by (subst (1 2) parse_attrs_from.simps, cases ?c)
         (use IH in \<open>simp_all only: le True if_True if_False Let_def add.assoc eqs t l
            Option.bind.simps length_append add_le_cancel_left simp_thms\<close>)
  qed
qed

text \<open>An attribute on the wire: type, length, value and padding to a multiple of four.\<close>

definition attr_wire :: "u16 \<Rightarrow> bytes \<Rightarrow> bytes" where
  "attr_wire ty val = u16_be ty @ u16_be (of_nat (length val)) @ val
     @ replicate ((4 - length val mod 4) mod 4) 0"

definition skipped_attr :: "u16 \<times> bytes \<Rightarrow> bool" where
  "skipped_attr a \<longleftrightarrow>
     (fst a \<noteq> ATTR_XOR_MAPPED_ADDRESS \<or> length (snd a) < 8) \<and> length (snd a) < 2 ^ 16"

lemma parse_attrs_skip:
  assumes "skipped_attr (ty, val)"
  shows "parse_xor_mapped_address (attr_wire ty val @ rest) = parse_xor_mapped_address rest"
proof -
  let ?w = "attr_wire ty val" and ?pad = "(4 - length val mod 4) mod 4"
  have n: "unat (of_nat (length val) :: u16) = length val"
    using assms by (simp add: skipped_attr_def unat_of_nat)
  have t: "u16_at (?w @ rest) 0 = ret ty"
    by (simp add: attr_wire_def)
  have l: "u16_at (?w @ rest) (0 + 2) = ret (of_nat (length val))"
    by (simp add: attr_wire_def)
  have pos: "0 + 4 + length val + ?pad = length ?w + 0"
    by (simp add: attr_wire_def)
  have long: "0 + 4 \<le> length (?w @ rest)" by (simp add: attr_wire_def)
  have "parse_attrs_from (?w @ rest) 0 = parse_attrs_from (?w @ rest) (0 + 4 + length val + ?pad)"
    using assms long
    by (subst parse_attrs_from.simps)
       (simp only: if_True t l Option.bind.simps Let_def n skipped_attr_def fst_conv snd_conv,
        auto)
  also have "\<dots> = parse_attrs_from rest 0"
    unfolding pos by (rule parse_attrs_shift)
  finally show ?thesis by (simp add: parse_xor_mapped_address_def)
qed

lemma length_xor_mapped_v4 [simp]: "length (build_xor_mapped_v4 ip port) = 12"
  by (simp add: build_xor_mapped_v4_def Let_def)

lemma length_xor_mapped_v6 [simp]: "length (build_xor_mapped_v6 ip port) = 24"
  by (simp add: build_xor_mapped_v6_def Let_def)

lemma xor_cancel [simp]: "(a XOR b) XOR b = (a :: 'a::len word)"
  by (simp add: xor.assoc)

lemma parse_mapped_v4:
  "parse_xor_mapped_address (build_xor_mapped_v4 ip port @ rest)
     = ret (Some (SocketAddr (V4 ip) port))"
proof -
  let ?xp = "u16_be (port XOR cookie_port)" and ?xa = "u32_be (ip XOR MAGIC_COOKIE)"
  let ?a = "build_xor_mapped_v4 ip port @ rest"
  have a: "?a = u16_be ATTR_XOR_MAPPED_ADDRESS @ u16_be 8 @ [0, 1] @ ?xp @ ?xa @ rest"
    by (simp add: build_xor_mapped_v4_def Let_def)
  have f: "u16_at ?a 0 = ret ATTR_XOR_MAPPED_ADDRESS" "u16_at ?a (0 + 2) = ret 8"
    "idx ?a (0 + 4) = ret 0" "idx ?a (0 + 4 + 1) = ret 1"
    "u16_at ?a (0 + 4 + 2) = ret (port XOR cookie_port)"
    "u32_at ?a (0 + 4 + 4) = ret (ip XOR MAGIC_COOKIE)"
    unfolding a by (simp_all add: nth_append)
  have "0 + 4 \<le> length ?a" "0 + 4 + unat (8 :: u16) \<le> length ?a" by simp_all
  then show ?thesis
    unfolding parse_xor_mapped_address_def
    by (subst parse_attrs_from.simps)
       (simp only: if_True f Option.bind.simps Let_def, simp add: IPV4_FAMILY_def)
qed

lemma parse_mapped_v6:
  "parse_xor_mapped_address (build_xor_mapped_v6 ip port @ rest) = ret None"
proof -
  let ?a = "build_xor_mapped_v6 ip port @ rest"
  have f: "u16_at ?a 0 = ret ATTR_XOR_MAPPED_ADDRESS" "u16_at ?a (0 + 2) = ret 20"
    "idx ?a (0 + 4) = ret 0" "idx ?a (0 + 4 + 1) = ret 2"
    by (simp_all add: build_xor_mapped_v6_def Let_def nth_append)
  have "0 + 4 \<le> length ?a" "0 + 4 + unat (20 :: u16) \<le> length ?a" by simp_all
  then show ?thesis
    unfolding parse_xor_mapped_address_def
    by (subst parse_attrs_from.simps)
       (simp only: if_True f Option.bind.simps Let_def, simp add: IPV4_FAMILY_def)
qed

text \<open>
  The attribute parser finds the mapped address wherever it stands: after any number of
  other attributes (each padded to four bytes as the protocol requires) and before any further
  bytes, it returns the IPv4 address and port that the attribute was built from.
\<close>

theorem xor_mapped_found:
  assumes "\<forall>a\<in>set before. skipped_attr a"
  shows "parse_xor_mapped_address
           (concat (map (\<lambda>(ty, val). attr_wire ty val) before) @ build_xor_mapped_v4 ip port @ rest)
         = ret (Some (SocketAddr (V4 ip) port))"
  using assms
  by (induction before) (auto simp: parse_attrs_skip parse_mapped_v4)

theorem xor_mapped_found_witness:
  "parse_xor_mapped_address
     (attr_wire 0x8022 [1, 2, 3, 4, 5] @ attr_wire 0x0020 [9] @ build_xor_mapped_v4 ip 5678 @ [7])
   = ret (Some (SocketAddr (V4 ip) 5678))"
proof -
  have "\<forall>a\<in>set [(0x8022, [1, 2, 3, 4, 5]), (0x0020, [9])]. skipped_attr a"
    by (simp add: skipped_attr_def ATTR_XOR_MAPPED_ADDRESS_def)
  from xor_mapped_found [OF this, of ip 5678 "[7]"] show ?thesis by simp
qed

section \<open>Client against server\<close>

text \<open>
  What the client relies on: the service answers a well-formed request with a success response
  for the same transaction whose attributes, for an IPv4 source, yield that source.
\<close>

definition success_response :: "bytes \<Rightarrow> bytes \<Rightarrow> bytes" where
  "success_response tx attrs =
     u16_be BINDING_SUCCESS @ u16_be (of_nat (length attrs)) @ u32_be MAGIC_COOKIE @ tx @ attrs"

locale binding_service =
  fixes respond :: "bytes \<Rightarrow> socket_addr \<Rightarrow> bytes option panics"
    and attrs_for :: "socket_addr \<Rightarrow> bytes"
  assumes answers: "length tx = 12 \<Longrightarrow>
      respond (build_binding_request tx) src = ret (Some (success_response tx (attrs_for src)))"
    and attrs_short: "length (attrs_for src) \<le> 492"
    and attrs_v4: "parse_xor_mapped_address (attrs_for (SocketAddr (V4 ip) port))
                     = ret (Some (SocketAddr (V4 ip) port))"
begin

lemma reply_parsed:
  assumes "length tx = 12"
  shows "parse_response (take STUN_BUF (success_response tx (attrs_for src)))
           = ret (Ok (BINDING_SUCCESS, tx, attrs_for src))"
proof -
  have "unat (of_nat (length (attrs_for src)) :: u16) = length (attrs_for src)"
    using attrs_short [of src] by (simp add: unat_of_nat)
  moreover have "take STUN_BUF (success_response tx (attrs_for src))
                   = success_response tx (attrs_for src)"
    using attrs_short [of src] assms by (simp add: success_response_def STUN_BUF_def)
  ultimately show ?thesis
    using assms by (simp add: parse_response_eq success_response_def)
qed

lemma discover_reply_service:
  assumes "length tx = 12" and "respond (build_binding_request tx) src = ret (Some reply)"
  shows "discover_reply tx reply =
     do { a \<leftarrow> parse_xor_mapped_address (attrs_for src);
          case a of None \<Rightarrow> ret (Err MissingMappedAddress) | Some addr \<Rightarrow> ret (Ok addr) }"
proof -
  have "reply = success_response tx (attrs_for src)"
    using answers [OF assms(1), of src] assms(2) by simp
  then show ?thesis
    using reply_parsed [OF assms(1)] by (simp add: discover_reply_def)
qed

lemma discover_v4:
  assumes "length tx = 12"
  shows "\<exists>reply. respond (build_binding_request tx) (SocketAddr (V4 ip) port) = ret (Some reply)
      \<and> discover tx True (Some reply) = ret (Ok (SocketAddr (V4 ip) port))"
  using answers [OF assms] discover_reply_service [OF assms]
  by (simp add: discover_def attrs_v4)

lemma discover_other_transaction:
  assumes "length tx = 12" "respond (build_binding_request tx) src = ret (Some reply)" "tx' \<noteq> tx"
  shows "discover tx' True (Some reply) = ret (Err TransactionMismatch)"
proof -
  have "reply = success_response tx (attrs_for src)"
    using answers [OF assms(1), of src] assms(2) by simp
  then show ?thesis
    using reply_parsed [OF assms(1)] assms(3) by (simp add: discover_def discover_reply_def)
qed

end

definition server_attrs :: "socket_addr \<Rightarrow> bytes" where
  "server_attrs src = (case addr_ip src of
      V4 ip \<Rightarrow> build_xor_mapped_v4 ip (addr_port src)
    | V6 ip \<Rightarrow> build_xor_mapped_v6 ip (addr_port src))"

interpretation stun_server: binding_service handle_binding_request server_attrs
proof
  fix tx src
  assume "length (tx :: bytes) = 12"
  then show "handle_binding_request (build_binding_request tx) src
               = ret (Some (success_response tx (server_attrs src)))"
    by (simp add: handle_binding_request_spec build_binding_request_def success_response_def
        server_attrs_def split: ip_addr.splits)
next
  fix src show "length (server_attrs src) \<le> 492"
    by (simp add: server_attrs_def split: ip_addr.splits)
next
  fix ip port
  show "parse_xor_mapped_address (server_attrs (SocketAddr (V4 ip) port))
          = ret (Some (SocketAddr (V4 ip) port))"
    using parse_mapped_v4 [of ip port "[]"] by (simp add: server_attrs_def)
qed

text \<open>
  C17: The client of this repository against the server of this repository: for every 12-byte
  transaction id and every IPv4 source, the server answers the client's request and the client
  reads back exactly the source address and port the server saw; it refuses the same response
  for any other transaction.
\<close>

theorem stun_discovers_v4_source:
  assumes "length tx = 12"
  shows "\<exists>reply. handle_binding_request (build_binding_request tx) (SocketAddr (V4 ip) port)
                  = ret (Some reply)
      \<and> discover tx True (Some reply) = ret (Ok (SocketAddr (V4 ip) port))
      \<and> (\<forall>tx'. tx' \<noteq> tx \<longrightarrow> discover tx' True (Some reply) = ret (Err TransactionMismatch))"
  using stun_server.discover_v4 [OF assms] stun_server.discover_other_transaction [OF assms]
  by metis

theorem stun_discovers_v4_source_witness:
  "\<exists>reply. handle_binding_request (build_binding_request (replicate 12 3)) (SocketAddr (V4 0x01020304) 5678)
            = ret (Some reply)
      \<and> discover (replicate 12 3) True (Some reply) = ret (Ok (SocketAddr (V4 0x01020304) 5678))"
  using stun_discovers_v4_source [of "replicate 12 3" "0x01020304" 5678] by auto

text \<open>
  IPv6 sources cannot be discovered: the server answers them, with an attribute of family
  2 whose first four address bytes only are obfuscated, but the client rejects every such
  response as having no mapped address.
\<close>

theorem stun_v6_source_not_discovered:
  assumes "length tx = 12"
  shows "\<exists>reply. handle_binding_request (build_binding_request tx) (SocketAddr (V6 ip) port)
                  = ret (Some reply)
      \<and> drop 12 (drop 20 reply) = drop 4 (ipv6_octets ip)
      \<and> discover tx True (Some reply) = ret (Err MissingMappedAddress)"
proof -
  let ?src = "SocketAddr (V6 ip) port"
  have r: "handle_binding_request (build_binding_request tx) ?src
             = ret (Some (success_response tx (server_attrs ?src)))"
    by (rule stun_server.answers [OF assms])
  have "parse_xor_mapped_address (server_attrs ?src) = ret None"
    using parse_mapped_v6 [of ip port "[]"] by (simp add: server_attrs_def)
  then have "discover tx True (Some (success_response tx (server_attrs ?src)))
               = ret (Err MissingMappedAddress)"
    using stun_server.discover_reply_service [OF assms r] by (simp add: discover_def)
  moreover have "drop 12 (drop 20 (success_response tx (server_attrs ?src)))
                   = drop 4 (ipv6_octets ip)"
    using assms
    by (simp add: success_response_def server_attrs_def build_xor_mapped_v6_def Let_def)
  ultimately show ?thesis using r by blast
qed

theorem stun_v6_source_not_discovered_witness:
  "\<exists>reply. handle_binding_request (build_binding_request (replicate 12 1)) (SocketAddr (V6 1) 9)
            = ret (Some reply) \<and> discover (replicate 12 1) True (Some reply) = ret (Err MissingMappedAddress)"
  using stun_v6_source_not_discovered [of "replicate 12 1" 1 9] by auto

end
