(* ===== verification/Nat_Traversal.thy ===== *)
theory Nat_Traversal
  imports Stun
begin

text \<open>
  \<open>crates/nat/src\<close> apart from STUN: the NAT classification (\<open>nat_type.rs\<close>), the detector that
  compares the local with the discovered address (\<open>detector.rs\<close>), connection candidates
  (\<open>candidate.rs\<close>) and UDP hole punching (\<open>punch.rs\<close>).
\<close>

section \<open>NAT types\<close>

datatype nat_type = FullCone | RestrictedCone | PortRestrictedCone | Symmetric | Unknown | Open

fun nat_type_display :: "nat_type \<Rightarrow> string" where
  "nat_type_display FullCone = ''Full Cone''"
| "nat_type_display RestrictedCone = ''Restricted Cone''"
| "nat_type_display PortRestrictedCone = ''Port Restricted Cone''"
| "nat_type_display Symmetric = ''Symmetric''"
| "nat_type_display Unknown = ''Unknown''"
| "nat_type_display Open = ''Open (no NAT)''"

definition supports_p2p :: "nat_type \<Rightarrow> bool" where
  "supports_p2p t \<longleftrightarrow> t \<in> {FullCone, RestrictedCone, PortRestrictedCone, Open}"

definition needs_relay :: "nat_type \<Rightarrow> bool" where
  "needs_relay t \<longleftrightarrow> t \<in> {Symmetric, Unknown}"

lemma relay_iff_no_p2p: "needs_relay t \<longleftrightarrow> \<not> supports_p2p t"
  by (cases t) (simp_all add: needs_relay_def supports_p2p_def)

section \<open>Detection\<close>

definition normalize_ip :: "ip_addr \<Rightarrow> ip_addr" where
  "normalize_ip a = (if is_unspecified a then V4 (ipv4_new 127 0 0 1) else a)"

text \<open>
  \<open>NatDetector::detect\<close>: \<open>bound\<close> is the local address after \<open>bind\<close> (\<open>None\<close> when binding or
  asking for it fails), then the STUN exchange.
\<close>

definition detect ::
  "socket_addr option \<Rightarrow> bytes \<Rightarrow> bool \<Rightarrow> bytes option \<Rightarrow> (stun_error + nat_type) panics" where
  "detect bound tx_id send_ok reply =
     (case bound of
        None \<Rightarrow> ret (Err StunIo)
      | Some local \<Rightarrow> do {
          r \<leftarrow> discover tx_id send_ok reply;
          case r of
            Err e \<Rightarrow> ret (Err e)
          | Ok public \<Rightarrow>
              (let local_ip = normalize_ip (addr_ip local);
                   public_ip = normalize_ip (addr_ip public)
               in ret (Ok (if local_ip = public_ip \<and> addr_port local = addr_port public
                           then Open else Unknown))) })"

text \<open>
  Against the STUN server of this repository, a host bound to an IPv4 address is classified
  Open exactly when the source the server saw is the bound address and port (an unspecified
  address counting as 127.0.0.1), and Unknown otherwise; the other four NAT types are never
  reported, so a relay is recommended exactly when the two differ.
\<close>

theorem detect_against_server:
  assumes "length tx = 12"
    and "handle_binding_request (build_binding_request tx) (SocketAddr (V4 ip) port) = ret (Some reply)"
  shows "\<exists>t. detect (Some local) tx True (Some reply) = ret (Ok t)
           \<and> (t = Open \<longleftrightarrow> normalize_ip (addr_ip local) = normalize_ip (V4 ip) \<and> addr_port local = port)
           \<and> t \<in> {Open, Unknown}
           \<and> (needs_relay t \<longleftrightarrow> t \<noteq> Open)"
proof -
  have "discover tx True (Some reply) = ret (Ok (SocketAddr (V4 ip) port))"
    using stun_server.discover_v4 [OF assms(1), of ip port] assms(2) by simp
  then show ?thesis by (simp add: detect_def Let_def needs_relay_def)
qed

theorem detect_against_server_witness:
  "\<exists>t. detect (Some (SocketAddr (V4 0) 4000)) (replicate 12 0) True
        (Some (success_response (replicate 12 0) (server_attrs (SocketAddr (V4 0x7F000001) 4000))))
      = ret (Ok t) \<and> t = Open"
proof -
  have l: "length (replicate 12 (0 :: u8)) = 12" by simp
  have n: "normalize_ip (V4 0) = normalize_ip (V4 0x7F000001)"
    by (simp add: normalize_ip_def ipv4_new_def u32_of_be_def be_val_def)
  from detect_against_server [OF l stun_server.answers [OF l, of "SocketAddr (V4 0x7F000001) 4000"],
      of "SocketAddr (V4 0) 4000"] n
  show ?thesis by auto
qed

section \<open>Candidates\<close>

datatype candidate_type = Host | ServerReflexive

record candidate =
  cand_addr :: socket_addr
  cand_ty :: candidate_type

definition candidate_host :: "socket_addr \<Rightarrow> candidate" where
  "candidate_host a = \<lparr>cand_addr = a, cand_ty = Host\<rparr>"

definition candidate_server_reflexive :: "socket_addr \<Rightarrow> candidate" where
  "candidate_server_reflexive a = \<lparr>cand_addr = a, cand_ty = ServerReflexive\<rparr>"

section \<open>Hole punching\<close>

definition PUNCH_RETRIES :: nat where "PUNCH_RETRIES = 10"
definition PUNCH_BUF :: nat where "PUNCH_BUF = 1024"

text \<open>What the short receive of a round returns.\<close>

datatype punch_event = Timeout | PunchRecvError | PunchReceived bytes socket_addr

text \<open>
  The rounds of \<open>punch\<close>, with the datagrams they send (a failed send is only logged):
  \<open>env r\<close> is the outcome of the receive of round \<open>r\<close>. The field of the tracing span, which unwraps
  the local address of the bound socket, is left out with the rest of the logging.
\<close>

fun punch_rounds ::
  "nat \<Rightarrow> nat \<Rightarrow> (nat \<Rightarrow> punch_event) \<Rightarrow> candidate list \<Rightarrow> bytes
     \<Rightarrow> (socket_addr \<times> bytes) list \<times> (bytes \<times> socket_addr) option" where
  "punch_rounds 0 r env cands token = ([], None)"
| "punch_rounds (Suc k) r env cands token =
     (let out = map (\<lambda>c. (cand_addr c, token)) cands
      in case env r of
           PunchReceived data from \<Rightarrow> (out, Some (take PUNCH_BUF data, from))
         | _ \<Rightarrow> (case punch_rounds k (Suc r) env cands token of
                   (out', res) \<Rightarrow> (out @ out', res)))"

definition punch ::
  "(nat \<Rightarrow> punch_event) \<Rightarrow> candidate list \<Rightarrow> bytes
     \<Rightarrow> (socket_addr \<times> bytes) list \<times> (bytes \<times> socket_addr) option" where
  "punch env cands token = punch_rounds PUNCH_RETRIES 0 env cands token"

definition received_in :: "punch_event \<Rightarrow> (bytes \<times> socket_addr) option" where
  "received_in e = (case e of PunchReceived data from \<Rightarrow> Some (take PUNCH_BUF data, from) | _ \<Rightarrow> None)"

text \<open>
  The rest of \<open>Puncher\<close>: a bound socket, here its local address if it can be asked for. The
  outcome of each socket call is an argument.
\<close>

datatype puncher = Puncher (socket_local: "socket_addr option")

definition puncher_bind :: "bool \<Rightarrow> socket_addr option \<Rightarrow> puncher option" where
  "puncher_bind bound local = (if bound \<and> local \<noteq> None then Some (Puncher local) else None)"

definition puncher_from_socket :: "socket_addr option \<Rightarrow> puncher" where
  "puncher_from_socket local = Puncher local"

definition puncher_local_addr :: "puncher \<Rightarrow> socket_addr option" where
  "puncher_local_addr p = socket_local p"

definition puncher_send_to :: "bytes \<Rightarrow> socket_addr \<Rightarrow> bool \<Rightarrow> nat option \<times> (socket_addr \<times> bytes) list" where
  "puncher_send_to data peer ok = (if ok then (Some (length data), [(peer, data)]) else (None, []))"

definition puncher_recv_from :: "bytes \<Rightarrow> (bytes \<times> socket_addr) option \<Rightarrow> (nat \<times> socket_addr) option \<times> bytes" where
  "puncher_recv_from buf received =
     (case received of
        None \<Rightarrow> (None, buf)
      | Some (data, from) \<Rightarrow>
          (let n = min (length data) (length buf) in (Some (n, from), take n data @ drop n buf)))"

definition wait_for_punch :: "(bytes \<times> socket_addr) option \<Rightarrow> (bytes \<times> socket_addr) option" where
  "wait_for_punch received =
     (case puncher_recv_from (replicate PUNCH_BUF 0) received of
        (None, _) \<Rightarrow> None
      | (Some (n, from), buf) \<Rightarrow> Some (take n buf, from))"

lemma wait_for_punch_value:
  "wait_for_punch received = map_option (\<lambda>(data, from). (take PUNCH_BUF data, from)) received"
  by (auto simp: wait_for_punch_def puncher_recv_from_def Let_def min_def split: option.split)

lemma punch_rounds_spec:
  "punch_rounds k r env cands token =
     (case find (\<lambda>i. received_in (env i) \<noteq> None) [r..<r + k] of
        None \<Rightarrow> (concat (replicate k (map (\<lambda>c. (cand_addr c, token)) cands)), None)
      | Some i \<Rightarrow> (concat (replicate (Suc i - r) (map (\<lambda>c. (cand_addr c, token)) cands)),
                   received_in (env i)))"
proof (induction k arbitrary: r)
  case 0
  then show ?case by simp
next
  case (Suc k)
  let ?P = "\<lambda>i. received_in (env i) \<noteq> None" and ?m = "map (\<lambda>c. (cand_addr c, token)) cands"
  have "[r..<r + Suc k] = r # [Suc r..<Suc r + k]"
    by (simp add: upt_conv_Cons del: upt_Suc)
  then have f: "find ?P [r..<r + Suc k] = (if ?P r then Some r else find ?P [Suc r..<Suc r + k])"
    by (simp only: find.simps)
  show ?case
  proof (cases "received_in (env r)")
    case None
    then have "\<forall>d f. env r \<noteq> PunchReceived d f" by (auto simp: received_in_def)
    then have step: "punch_rounds (Suc k) r env cands token =
        (case punch_rounds k (Suc r) env cands token of (out', res) \<Rightarrow> (?m @ out', res))"
      by (cases "env r") (auto simp: Let_def)
    show ?thesis
    proof (cases "find ?P [Suc r..<Suc r + k]")
      case None
      with \<open>received_in (env r) = None\<close> show ?thesis
        unfolding step f Suc.IH by simp
    next
      case (Some i)
      then have "Suc r \<le> i" by (auto simp: find_Some_iff simp del: upt_Suc)
      then have "Suc i - r = Suc (Suc i - Suc r)" by simp
      with Some \<open>received_in (env r) = None\<close> show ?thesis
        unfolding step f Suc.IH by simp
    qed
  next
    case (Some x)
    then obtain d f' where "env r = PunchReceived d f'"
      by (auto simp: received_in_def split: punch_event.splits)
    with Some show ?thesis unfolding f by (simp add: received_in_def Let_def)
  qed
qed

lemma punch_first_round_fact:
  "punch env cands token =
     (case find (\<lambda>i. received_in (env i) \<noteq> None) [0..<10] of
        None \<Rightarrow> (concat (replicate 10 (map (\<lambda>c. (cand_addr c, token)) cands)), None)
      | Some i \<Rightarrow> (concat (replicate (Suc i) (map (\<lambda>c. (cand_addr c, token)) cands)),
                   received_in (env i)))"
  by (simp add: punch_def punch_rounds_spec PUNCH_RETRIES_def cong: option.case_cong del: upt_Suc)

text \<open>
  C37: Hole punching ends after at most ten rounds and its result is that of the first round in
  which anything was received (a payload of at most 1024 bytes and its source, whoever sent it),
  or none if all ten rounds timed out or failed; each round up to that one has sent our token
  once to every candidate, in order, so at most ten datagrams go to a candidate.
\<close>

theorem punch_first_round:
  "punch env cands token =
     (case find (\<lambda>i. received_in (env i) \<noteq> None) [0..<10] of
        None \<Rightarrow> (concat (replicate 10 (map (\<lambda>c. (cand_addr c, token)) cands)), None)
      | Some i \<Rightarrow> (concat (replicate (Suc i) (map (\<lambda>c. (cand_addr c, token)) cands)),
                   received_in (env i)))"
  by (fact punch_first_round_fact)

lemma find_upt_lt: "find P [0..<n] = Some i \<Longrightarrow> i < n"
  by (auto simp: find_Some_iff)

lemma punch_sends_bounded: "length (fst (punch env cands token)) \<le> 10 * length cands"
  using find_upt_lt [of "\<lambda>i. received_in (env i) \<noteq> None" 10]
  by (auto simp: punch_first_round_fact length_concat sum_list_replicate
      simp del: upt_Suc split: option.splits intro!: mult_right_mono)

end
