(* ===== verification/Punch_Pair.thy ===== *)
theory Punch_Pair
  imports Nat_Traversal
begin

text \<open>
  Two peers that punch towards each other, \<open>tokio::join!(peer_a.punch(..), peer_b.punch(..))\<close> on one
  network: the loop of \<open>punch\<close> as a step function with the queue of its socket, and the two loops
  under every interleaving. What a side receives is what the other side has sent before.
\<close>

section \<open>The loop of one side\<close>

datatype punch_phase = Sending nat | Listening nat | Finished "(bytes \<times> socket_addr) option"

text \<open>
  The state of a running \<open>punch\<close>: its arguments, the round it is in, and the datagrams that wait at
  its socket; with what it has sent and how its receives ended, for the statements.
\<close>

record punch_run =
  pr_addr :: socket_addr
  pr_cands :: "candidate list"
  pr_token :: bytes
  pr_phase :: punch_phase
  pr_inbox :: "(bytes \<times> socket_addr) list"
  pr_sent :: "(socket_addr \<times> bytes) list"
  pr_events :: "punch_event list"

definition punch_start :: "socket_addr \<Rightarrow> candidate list \<Rightarrow> bytes \<Rightarrow> punch_run" where
  "punch_start a cands token =
     \<lparr>pr_addr = a, pr_cands = cands, pr_token = token, pr_phase = Sending 0, pr_inbox = [],
      pr_sent = [], pr_events = []\<rparr>"

text \<open>
  One move: the sends of a round (their failures are only logged), or its receive. \<open>expired\<close> says
  that the 50 milliseconds are over: \<open>timeout\<close> polls the receive first, so a waiting datagram is
  received even then; without it and before the time is over the receive goes on waiting.
\<close>

definition punch_move :: "bool \<Rightarrow> punch_run \<Rightarrow> punch_run \<times> (socket_addr \<times> bytes) list" where
  "punch_move expired p =
     (case pr_phase p of
        Sending r \<Rightarrow>
          (let out = map (\<lambda>c. (cand_addr c, pr_token p)) (pr_cands p)
           in (p\<lparr>pr_phase := Listening r, pr_sent := pr_sent p @ out\<rparr>, out))
      | Listening r \<Rightarrow>
          (case pr_inbox p of
             (data, from) # rest \<Rightarrow>
               (p\<lparr>pr_phase := Finished (Some (take PUNCH_BUF data, from)), pr_inbox := rest,
                  pr_events := pr_events p @ [PunchReceived data from]\<rparr>, [])
           | [] \<Rightarrow>
               (if expired
                then (p\<lparr>pr_phase := (if Suc r < PUNCH_RETRIES then Sending (Suc r) else Finished None),
                        pr_events := pr_events p @ [Timeout]\<rparr>, [])
                else (p, [])))
      | Finished _ \<Rightarrow> (p, []))"

text \<open>The network hands a datagram to the socket with its destination address.\<close>

definition deliver :: "socket_addr \<Rightarrow> (socket_addr \<times> bytes) list \<Rightarrow> punch_run \<Rightarrow> punch_run" where
  "deliver src out p =
     p\<lparr>pr_inbox := pr_inbox p @ map (\<lambda>d. (snd d, src)) (filter (\<lambda>d. fst d = pr_addr p) out)\<rparr>"

datatype pair_move = MoveA bool | MoveB bool

fun pair_step :: "punch_run \<times> punch_run \<Rightarrow> pair_move \<Rightarrow> punch_run \<times> punch_run" where
  "pair_step (a, b) (MoveA expired) =
     (case punch_move expired a of (a', out) \<Rightarrow> (deliver (pr_addr a) out a', deliver (pr_addr a) out b))"
| "pair_step (a, b) (MoveB expired) =
     (case punch_move expired b of (b', out) \<Rightarrow> (deliver (pr_addr b) out a, deliver (pr_addr b) out b'))"

abbreviation joined_run :: "punch_run \<times> punch_run \<Rightarrow> pair_move list \<Rightarrow> punch_run \<times> punch_run" where
  "joined_run \<equiv> foldl pair_step"

section \<open>The loop is \<open>punch\<close>\<close>

definition round_out :: "punch_run \<Rightarrow> (socket_addr \<times> bytes) list" where
  "round_out p = map (\<lambda>c. (cand_addr c, pr_token p)) (pr_cands p)"

definition rounds_sent :: "punch_run \<Rightarrow> nat \<Rightarrow> bool" where
  "rounds_sent p n \<longleftrightarrow> pr_sent p = concat (replicate n (round_out p))"

text \<open>What a side has sent and seen in each phase.\<close>

definition loop_inv :: "punch_run \<Rightarrow> bool" where
  "loop_inv p \<longleftrightarrow>
     (case pr_phase p of
        Sending r \<Rightarrow> r < PUNCH_RETRIES \<and> pr_events p = replicate r Timeout \<and> rounds_sent p r
      | Listening r \<Rightarrow> r < PUNCH_RETRIES \<and> pr_events p = replicate r Timeout \<and> rounds_sent p (Suc r)
      | Finished None \<Rightarrow> pr_events p = replicate PUNCH_RETRIES Timeout \<and> rounds_sent p PUNCH_RETRIES
      | Finished (Some (data, from)) \<Rightarrow>
          \<exists>r bytes. r < PUNCH_RETRIES \<and> pr_events p = replicate r Timeout @ [PunchReceived bytes from]
            \<and> data = take PUNCH_BUF bytes \<and> rounds_sent p (Suc r))"

lemma round_out_update [simp]:
  "round_out (p\<lparr>pr_phase := x\<rparr>) = round_out p" "round_out (p\<lparr>pr_sent := y\<rparr>) = round_out p"
  "round_out (p\<lparr>pr_inbox := z\<rparr>) = round_out p" "round_out (p\<lparr>pr_events := u\<rparr>) = round_out p"
  by (simp_all add: round_out_def)

lemma loop_inv_start: "loop_inv (punch_start a cands token)"
  by (simp add: loop_inv_def punch_start_def rounds_sent_def PUNCH_RETRIES_def)

lemma loop_inv_move:
  assumes "loop_inv p"
  shows "loop_inv (fst (punch_move expired p))"
proof (cases "pr_phase p")
  case (Sending r)
  with assms show ?thesis
    by (auto simp: loop_inv_def punch_move_def rounds_sent_def round_out_def [symmetric] Let_def
        replicate_append_same [symmetric])
next
  case (Listening r)
  show ?thesis
  proof (cases "pr_inbox p")
    case Nil
    have last: "PUNCH_RETRIES = Suc r" if "\<not> Suc r < PUNCH_RETRIES" using that Listening assms by (simp add: loop_inv_def)
    show ?thesis
    proof (cases "Suc r < PUNCH_RETRIES")
      case True
      with Nil Listening assms show ?thesis
        by (auto simp: loop_inv_def punch_move_def rounds_sent_def replicate_append_same)
    next
      case False
      from Nil Listening assms show ?thesis
        by (auto simp: loop_inv_def punch_move_def rounds_sent_def replicate_append_same last [OF False])
    qed
  next
    case (Cons d rest)
    with Listening assms show ?thesis
      by (cases d) (auto simp: loop_inv_def punch_move_def rounds_sent_def)
  qed
next
  case (Finished res)
  with assms show ?thesis by (simp add: punch_move_def)
qed

lemma loop_inv_deliver [simp]: "loop_inv (deliver src out p) = loop_inv p"
  by (simp add: loop_inv_def deliver_def rounds_sent_def split: punch_phase.split option.split)

lemma loop_is_punch:
  assumes "loop_inv p" and "pr_phase p = Finished res"
  shows "punch (\<lambda>i. pr_events p ! i) (pr_cands p) (pr_token p) = (pr_sent p, res)"
proof (cases res)
  case None
  with assms have ev: "pr_events p = replicate 10 Timeout" and sent: "pr_sent p = concat (replicate 10 (round_out p))"
    by (simp_all add: loop_inv_def rounds_sent_def PUNCH_RETRIES_def)
  have "find (\<lambda>i. received_in (pr_events p ! i) \<noteq> None) [0..<10] = None"
    unfolding find_None_iff ev by (auto simp: received_in_def simp del: upt_Suc)
  then show ?thesis using None sent
    by (simp add: punch_first_round_fact round_out_def del: upt_Suc)
next
  case (Some x)
  obtain data src where x: "x = (data, src)" by fastforce
  with Some assms obtain r bs where r: "r < 10" "pr_events p = replicate r Timeout @ [PunchReceived bs src]"
      "data = take PUNCH_BUF bs" "pr_sent p = concat (replicate (Suc r) (round_out p))"
    by (auto simp: loop_inv_def rounds_sent_def PUNCH_RETRIES_def)
  have "find (\<lambda>i. received_in (pr_events p ! i) \<noteq> None) [0..<10] = Some r"
    unfolding find_Some_iff using r(1,2)
    by (intro exI [of _ r]) (auto simp: received_in_def nth_append simp del: upt_Suc)
  then show ?thesis using Some x r
    by (simp add: punch_first_round_fact round_out_def received_in_def nth_append del: upt_Suc)
qed

section \<open>Both sides\<close>

text \<open>Two peers that know each other's address, before their first poll.\<close>

definition pair_start :: "socket_addr \<Rightarrow> bytes \<Rightarrow> socket_addr \<Rightarrow> bytes \<Rightarrow> punch_run \<times> punch_run" where
  "pair_start a_addr a_token b_addr b_token =
     (punch_start a_addr [candidate_host b_addr] a_token, punch_start b_addr [candidate_host a_addr] b_token)"

definition got :: "punch_run \<Rightarrow> nat" where
  "got p = (case pr_phase p of Finished (Some _) \<Rightarrow> 1 | _ \<Rightarrow> 0)"

text \<open>What one side knows of the other: every datagram the peer sent was received or waits.\<close>

definition side_inv :: "punch_run \<Rightarrow> punch_run \<Rightarrow> bool" where
  "side_inv p peer \<longleftrightarrow>
     pr_cands p = [candidate_host (pr_addr peer)]
     \<and> set (pr_inbox p) \<subseteq> {(pr_token peer, pr_addr peer)}
     \<and> length (pr_inbox p) + got p = length (pr_sent peer)
     \<and> (\<forall>x. pr_phase p = Finished (Some x) \<longrightarrow> x = (take PUNCH_BUF (pr_token peer), pr_addr peer))"

definition pair_inv :: "punch_run \<times> punch_run \<Rightarrow> bool" where
  "pair_inv ab \<longleftrightarrow> (case ab of (a, b) \<Rightarrow>
     loop_inv a \<and> loop_inv b \<and> pr_addr a \<noteq> pr_addr b \<and> side_inv a b \<and> side_inv b a)"

text \<open>A move of a side and the delivery of what it sent.\<close>

lemma side_move:
  assumes "side_inv p q" and "side_inv q p" and "pr_addr p \<noteq> pr_addr q"
    and "punch_move expired p = (p', out)"
  shows "side_inv (deliver (pr_addr p) out p') (deliver (pr_addr p) out q)"
    and "side_inv (deliver (pr_addr p) out q) (deliver (pr_addr p) out p')"
    and "pr_addr p' = pr_addr p" and "pr_token p' = pr_token p"
proof -
  have "side_inv (deliver (pr_addr p) out p') (deliver (pr_addr p) out q)
      \<and> side_inv (deliver (pr_addr p) out q) (deliver (pr_addr p) out p')
      \<and> pr_addr p' = pr_addr p \<and> pr_token p' = pr_token p"
  proof (cases "pr_phase p")
    case (Sending r)
    with assms show ?thesis
      by (auto simp: side_inv_def punch_move_def deliver_def got_def candidate_host_def Let_def)
  next
    case (Finished x)
    with assms show ?thesis by (auto simp: side_inv_def punch_move_def deliver_def got_def)
  next
    case (Listening r)
    show ?thesis
    proof (cases "pr_inbox p")
      case Nil
      with Listening assms show ?thesis
        by (auto simp: side_inv_def punch_move_def deliver_def got_def split: if_splits)
    next
      case (Cons d rest)
      with assms(1) have "d = (pr_token q, pr_addr q)" "set rest \<subseteq> {(pr_token q, pr_addr q)}"
        by (simp_all add: side_inv_def)
      with Cons Listening assms show ?thesis
        by (auto simp: side_inv_def punch_move_def deliver_def got_def)
    qed
  qed
  then show "side_inv (deliver (pr_addr p) out p') (deliver (pr_addr p) out q)"
    "side_inv (deliver (pr_addr p) out q) (deliver (pr_addr p) out p')"
    "pr_addr p' = pr_addr p" "pr_token p' = pr_token p" by simp_all
qed

lemma deliver_addr [simp]: "pr_addr (deliver src out p) = pr_addr p" "pr_token (deliver src out p) = pr_token p"
  "pr_phase (deliver src out p) = pr_phase p" "pr_cands (deliver src out p) = pr_cands p"
  "pr_sent (deliver src out p) = pr_sent p" "pr_events (deliver src out p) = pr_events p"
  by (simp_all add: deliver_def)

interpretation punch_pair: step_system pair_step pair_inv
proof
  fix ab e
  assume inv: "pair_inv ab"
  obtain a b where ab: "ab = (a, b)" by fastforce
  note i = inv [unfolded ab pair_inv_def prod.case]
  show "pair_inv (pair_step ab e)"
  proof (cases e)
    case (MoveA x)
    obtain a' out where m: "punch_move x a = (a', out)" by fastforce
    have "loop_inv a'" using loop_inv_move [of a x] i m by simp
    with i ab MoveA m show ?thesis
      using side_move [of a b x a' out] by (simp add: pair_inv_def)
  next
    case (MoveB x)
    obtain b' out where m: "punch_move x b = (b', out)" by fastforce
    have "loop_inv b'" using loop_inv_move [of b x] i m by simp
    moreover have "pr_addr b \<noteq> pr_addr a" using i by auto
    ultimately show ?thesis
      using side_move [of b a x b' out] i ab MoveB m by (simp add: pair_inv_def)
  qed
qed

lemma pair_start_inv: "a_addr \<noteq> b_addr \<Longrightarrow> pair_inv (pair_start a_addr a_token b_addr b_token)"
  by (simp add: pair_inv_def pair_start_def loop_inv_start)
     (simp add: side_inv_def punch_start_def got_def)

text \<open>What a finished side sent: one datagram per round.\<close>

lemma finished_sent:
  assumes "loop_inv p" and "pr_cands p = [candidate_host peer]" and "pr_phase p = Finished (Some x)"
  shows "pr_sent p = replicate (Suc (count_list (pr_events p) Timeout)) (peer, pr_token p)"
proof -
  have concat: "concat (replicate n [y]) = replicate n y" for n and y :: "socket_addr \<times> bytes"
    by (induction n) simp_all
  obtain data src where x: "x = (data, src)" by fastforce
  with assms(1,3) obtain r bs where "pr_events p = replicate r Timeout @ [PunchReceived bs src]" "rounds_sent p (Suc r)"
    by (auto simp: loop_inv_def)
  moreover have "count_list (replicate r Timeout) Timeout = r" by (induction r) simp_all
  ultimately show ?thesis
    using assms(2) concat [of "Suc r"] by (simp add: rounds_sent_def round_out_def candidate_host_def)
qed

lemma pair_outcome_side:
  assumes "loop_inv p" and "loop_inv q" and "side_inv p q" and "side_inv q p"
  shows "(\<forall>res. pr_phase p = Finished res \<longrightarrow>
            punch (\<lambda>i. pr_events p ! i) [candidate_host (pr_addr q)] (pr_token p) = (pr_sent p, res))
       \<and> (\<forall>x. pr_phase p = Finished (Some x) \<longrightarrow>
            x = (take PUNCH_BUF (pr_token q), pr_addr q) \<and> pr_sent q \<noteq> []
            \<and> (\<forall>y. pr_phase q = Finished (Some y) \<longrightarrow>
                 pr_inbox q = replicate (count_list (pr_events p) Timeout) (pr_token p, pr_addr p)))"
proof -
  have "pr_inbox q = replicate (count_list (pr_events p) Timeout) (pr_token p, pr_addr p)"
    if "pr_phase p = Finished (Some x)" "pr_phase q = Finished (Some y)" for x y
  proof -
    have "length (pr_sent p) = Suc (count_list (pr_events p) Timeout)"
      using finished_sent [OF assms(1) _ that(1)] assms(3) by (simp add: side_inv_def)
    then have "length (pr_inbox q) = count_list (pr_events p) Timeout"
      using assms(4) that(2) by (simp add: side_inv_def got_def)
    moreover have "\<forall>d\<in>set (pr_inbox q). d = (pr_token p, pr_addr p)" using assms(4) by (auto simp: side_inv_def)
    ultimately show ?thesis by (metis replicate_length_same)
  qed
  moreover have "pr_sent q \<noteq> []" if "pr_phase p = Finished (Some x)" for x
    using assms(3) that by (auto simp: side_inv_def got_def)
  moreover have "pr_cands p = [candidate_host (pr_addr q)]" using assms(3) by (simp add: side_inv_def)
  ultimately show ?thesis
    using loop_is_punch [OF assms(1)] assms(3) by (simp add: side_inv_def)
qed

lemma joined_static:
  "joined_run (p, q) ms = (a, b) \<Longrightarrow> pr_addr a = pr_addr p \<and> pr_addr b = pr_addr q \<and> pr_token a = pr_token p \<and> pr_token b = pr_token q"
proof (induction ms arbitrary: p q)
  case (Cons m ms)
  have move: "pr_addr (fst (punch_move x p)) = pr_addr p \<and> pr_token (fst (punch_move x p)) = pr_token p" for x p
    by (simp add: punch_move_def Let_def split: punch_phase.split list.split prod.split)
  obtain p' q' where s: "pair_step (p, q) m = (p', q')" by fastforce
  then have "pr_addr p' = pr_addr p \<and> pr_addr q' = pr_addr q \<and> pr_token p' = pr_token p \<and> pr_token q' = pr_token q"
    by (cases m) (auto simp: move split: prod.splits dest!: arg_cong [of _ _ fst])
  with Cons s show ?case by simp
qed simp


text \<open>The side of \<open>A\<close> waits in vain once: its first token is still at the socket of \<open>B\<close>.\<close>

definition late_peer :: "pair_move list" where
  "late_peer = [MoveA False, MoveA True, MoveA False, MoveB False, MoveB False, MoveA False]"

lemma late_peer_run:
  assumes "a_addr \<noteq> b_addr"
  shows "joined_run (pair_start a_addr [1] b_addr [2]) late_peer =
     (\<lparr>pr_addr = a_addr, pr_cands = [candidate_host b_addr], pr_token = [1], pr_phase = Finished (Some ([2], b_addr)),
       pr_inbox = [], pr_sent = [(b_addr, [1]), (b_addr, [1])], pr_events = [Timeout, PunchReceived [2] b_addr]\<rparr>,
      \<lparr>pr_addr = b_addr, pr_cands = [candidate_host a_addr], pr_token = [2], pr_phase = Finished (Some ([1], a_addr)),
       pr_inbox = [([1], a_addr)], pr_sent = [(a_addr, [2])], pr_events = [PunchReceived [1] a_addr]\<rparr>)"
  using assms assms [symmetric]
  by (simp add: late_peer_def pair_start_def punch_start_def punch_move_def deliver_def candidate_host_def
      PUNCH_BUF_def PUNCH_RETRIES_def Let_def)


section \<open>In time\<close>

text \<open>
  No timer expires, and each side is polled again after both have been polled, as the join of two
  futures does while the 50 milliseconds last.
\<close>

definition in_time :: "pair_move list \<Rightarrow> bool" where
  "in_time ms \<longleftrightarrow> set ms \<subseteq> {MoveA False, MoveB False}
     \<and> (\<exists>n < length ms. {MoveA False, MoveB False} \<subseteq> set (take n ms) \<and> {MoveA False, MoveB False} \<subseteq> set (drop n ms))"

lemma in_time_example: "in_time [MoveA False, MoveB False, MoveB False, MoveA False]"
  unfolding in_time_def by (intro conjI exI [of _ 2]) simp_all

lemma run_keeps:
  assumes "\<And>s e. e \<in> E \<Longrightarrow> J s \<Longrightarrow> J (step s e)" and "set es \<subseteq> E" and "J s"
  shows "J (foldl step s es)"
  using assms(2,3) by (induction es arbitrary: s) (auto intro: assms(1))

lemma run_reaches:
  assumes "\<And>s e. e \<in> E \<Longrightarrow> J s \<Longrightarrow> J (step s e)" and "\<And>s e. e \<in> E \<Longrightarrow> J s \<Longrightarrow> P s \<Longrightarrow> P (step s e)"
    and "\<And>s. J s \<Longrightarrow> P (step s m)" and "m \<in> set es" and "set es \<subseteq> E" and "J s"
  shows "P (foldl step s es)"
proof -
  from assms(4) obtain xs ys where es: "es = xs @ m # ys" by (auto simp: in_set_conv_decomp)
  have m: "m \<in> E" using assms(4,5) by auto
  have "J (foldl step s xs)" by (rule run_keeps [of E]) (use assms es in auto)
  then have "J (step (foldl step s xs) m) \<and> P (step (foldl step s xs) m)" using assms(1,3) m by blast
  then have "J (foldl step (step (foldl step s xs) m) ys) \<and> P (foldl step (step (foldl step s xs) m) ys)"
    by (intro run_keeps [of E "\<lambda>s. J s \<and> P s"]) (use assms(1,2,5) es in auto)
  then show ?thesis by (simp add: es)
qed

definition timely :: "punch_run \<times> punch_run \<Rightarrow> bool" where
  "timely ab \<longleftrightarrow> pair_inv ab \<and> Timeout \<notin> set (pr_events (fst ab)) \<and> Timeout \<notin> set (pr_events (snd ab))"

definition waits :: "punch_run \<Rightarrow> bool" where
  "waits p \<longleftrightarrow> (\<forall>r. pr_phase p \<noteq> Sending r)"

definition served :: "punch_run \<Rightarrow> bool" where
  "served p \<longleftrightarrow> (\<exists>x. pr_phase p = Finished (Some x))"

lemma move_in_time:
  shows "Timeout \<notin> set (pr_events p) \<Longrightarrow> Timeout \<notin> set (pr_events (fst (punch_move False p)))"
    and "waits (fst (punch_move False p))"
    and "served p \<Longrightarrow> served (fst (punch_move False p))"
  by (auto simp: punch_move_def waits_def served_def Let_def split: punch_phase.split list.split)

lemma move_serves:
  assumes "waits p" and "waits q" and "side_inv p q" and "loop_inv p" and "loop_inv q" and "Timeout \<notin> set (pr_events p)"
    and "Timeout \<notin> set (pr_events q)" and "side_inv q p"
  shows "served (fst (punch_move False p))"
proof (cases "pr_phase p")
  case (Listening r)
  have "pr_sent q \<noteq> []"
    using assms(2,5,7,8)
    by (cases "pr_phase q")
       (auto simp: waits_def loop_inv_def rounds_sent_def round_out_def side_inv_def PUNCH_RETRIES_def split: option.splits)
  with Listening assms(3) have "pr_inbox p \<noteq> []" by (auto simp: side_inv_def got_def)
  with Listening show ?thesis by (cases "pr_inbox p") (auto simp: punch_move_def served_def)
next
  case (Finished res)
  with assms(4,6) obtain x where "res = Some x" by (cases res) (auto simp: loop_inv_def PUNCH_RETRIES_def)
  with Finished show ?thesis by (auto simp: punch_move_def served_def)
qed (use assms(1) in \<open>simp add: waits_def\<close>)

lemma deliver_waits [simp]: "waits (deliver src out p) = waits p" "served (deliver src out p) = served p"
  by (simp_all add: waits_def served_def)

lemma in_time_serves:
  assumes "in_time ms" and "pair_inv s" and "Timeout \<notin> set (pr_events (fst s))" and "Timeout \<notin> set (pr_events (snd s))"
  shows "timely (joined_run s ms) \<and> served (fst (joined_run s ms)) \<and> served (snd (joined_run s ms))"
proof -
  let ?E = "{MoveA False, MoveB False}"
  obtain xs ys where ms: "ms = xs @ ys" "set xs \<subseteq> ?E" "set ys \<subseteq> ?E" "?E \<subseteq> set xs" "?E \<subseteq> set ys"
  proof -
    from assms(1) obtain n where "?E \<subseteq> set (take n ms)" "?E \<subseteq> set (drop n ms)" "set ms \<subseteq> ?E"
      unfolding in_time_def by blast
    moreover from this(3) have "set (take n ms) \<subseteq> ?E" "set (drop n ms) \<subseteq> ?E"
      using set_take_subset [of n ms] set_drop_subset [of n ms] by blast+
    ultimately show thesis by (intro that [of "take n ms" "drop n ms"]) simp_all
  qed
  have J: "timely (pair_step t e)" if "e \<in> ?E" "timely t" for t e
  proof -
    have "pair_inv (pair_step t e)" using that(2) by (auto simp: timely_def intro: punch_pair.step_inv)
    with that move_in_time(1) [of "fst t"] move_in_time(1) [of "snd t"] show ?thesis
      by (cases t) (auto simp: timely_def split: prod.splits)
  qed
  let ?K = "\<lambda>t. timely t \<and> waits (fst t) \<and> waits (snd t)"
  have w: "waits (fst (pair_step t e))" if "e = MoveA False \<or> e = MoveB False \<and> waits (fst t)" for t e
    using that move_in_time(2) [of "fst t"] by (cases t) (auto split: prod.splits)
  have w': "waits (snd (pair_step t e))" if "e = MoveB False \<or> e = MoveA False \<and> waits (snd t)" for t e
    using that move_in_time(2) [of "snd t"] by (cases t) (auto split: prod.splits)
  have K: "?K (pair_step t e)" if "e \<in> ?E" "?K t" for t e using J w w' that by blast
  have start: "timely s" using assms(2-4) by (simp add: timely_def)
  have "waits (fst (joined_run s xs))"
    by (rule run_reaches [of ?E timely pair_step "\<lambda>t. waits (fst t)" "MoveA False", OF J]) (use w ms start in auto)
  moreover have "waits (snd (joined_run s xs))"
    by (rule run_reaches [of ?E timely pair_step "\<lambda>t. waits (snd t)" "MoveB False", OF J]) (use w' ms start in auto)
  moreover have "timely (joined_run s xs)" by (rule run_keeps [of ?E timely pair_step]) (use J ms start in blast)+
  ultimately have mid: "?K (joined_run s xs)" by simp
  have serve: "served (fst (pair_step t (MoveA False)))" "served (snd (pair_step t (MoveB False)))" if "?K t" for t
    using that move_serves [of "fst t" "snd t"] move_serves [of "snd t" "fst t"]
    by (cases t; auto simp: timely_def pair_inv_def split: prod.splits)+
  have keep: "served (fst (pair_step t e))" if "e \<in> ?E" "served (fst t)" for t e
    using that move_in_time(3) [of "fst t"] by (cases t) (auto split: prod.splits)
  have keep': "served (snd (pair_step t e))" if "e \<in> ?E" "served (snd t)" for t e
    using that move_in_time(3) [of "snd t"] by (cases t) (auto split: prod.splits)
  have "served (fst (joined_run (joined_run s xs) ys))"
    by (rule run_reaches [of ?E ?K pair_step "\<lambda>t. served (fst t)" "MoveA False", OF K keep serve(1)]) (use ms mid in simp_all)
  moreover have "served (snd (joined_run (joined_run s xs) ys))"
    by (rule run_reaches [of ?E ?K pair_step "\<lambda>t. served (snd t)" "MoveB False", OF K keep' serve(2)]) (use ms mid in simp_all)
  moreover have "?K (joined_run (joined_run s xs) ys)" by (rule run_keeps [of ?E ?K pair_step]) (use K ms mid in blast)+
  ultimately show ?thesis by (simp add: ms(1))
qed

text \<open>The value of a side's future, which a side that has not finished does not have.\<close>

definition punched :: "punch_run \<Rightarrow> (bytes \<times> socket_addr) option panics" where
  "punched p = (case pr_phase p of Finished res \<Rightarrow> ret res | _ \<Rightarrow> panic)"

text \<open>What the next receive on the socket of a side meets.\<close>

definition next_datagram :: "punch_run \<Rightarrow> (bytes \<times> socket_addr) option" where
  "next_datagram p = (case pr_inbox p of [] \<Rightarrow> None | d # _ \<Rightarrow> Some d)"

lemma joined_in_time:
  assumes "a_addr \<noteq> b_addr" and "in_time ms"
  obtains a b where "joined_run (pair_start a_addr a_token b_addr b_token) ms = (a, b)"
    and "pr_addr a = a_addr" and "pr_addr b = b_addr"
    and "punched a = ret (Some (take PUNCH_BUF b_token, b_addr))" and "punched b = ret (Some (take PUNCH_BUF a_token, a_addr))"
    and "pr_inbox a = []" and "pr_inbox b = []"
proof -
  let ?s = "pair_start a_addr a_token b_addr b_token"
  obtain a b where ab: "joined_run ?s ms = (a, b)" by fastforce
  have "pair_inv ?s" "pr_events (fst ?s) = []" "pr_events (snd ?s) = []"
    using pair_start_inv [OF assms(1)] by (simp_all add: pair_start_def punch_start_def)
  then have t: "timely (a, b)" "served a" "served b" using in_time_serves [OF assms(2), of ?s] ab by simp_all
  then have inv: "loop_inv a" "loop_inv b" "side_inv a b" "side_inv b a"
    and ev: "count_list (pr_events a) Timeout = 0" "count_list (pr_events b) Timeout = 0"
    by (simp_all add: timely_def pair_inv_def count_list_0_iff)
  from t(2,3) obtain x y where "pr_phase a = Finished (Some x)" "pr_phase b = Finished (Some y)"
    by (auto simp: served_def)
  with pair_outcome_side [OF inv(1-4)] pair_outcome_side [OF inv(2,1,4,3)] ev
    joined_static [OF ab [unfolded pair_start_def]]
  show ?thesis by (intro that [OF ab]) (simp_all add: punched_def punch_start_def)
qed

end
