(* ===== verification/Session_Cipher.thy ===== *)
theory Session_Cipher
  imports CA_Prelude
begin

text \<open>
  \<open>crates/crypto/src/key_exchange.rs\<close>: X25519 key pairs and the ChaCha20-Poly1305 session
  cipher. The two primitives are third-party code, so they are arguments of the definitions:
  \<open>seal\<close> and \<open>unseal\<close> (encrypt and decrypt under a key and a nonce), \<open>pub\<close> and \<open>dh\<close> (the
  public key of a secret, the shared secret). What the code relies on is stated by \<open>aead_ok\<close>
  (decryption inverts encryption; a 16-byte tag) and \<open>dh_ok\<close> (both sides derive the same
  secret). The nonces are this repository's own code and are modelled completely: a 64-bit
  counter, little-endian, after four zero bytes.
\<close>

type_synonym seal_fn = "bytes \<Rightarrow> bytes \<Rightarrow> bytes \<Rightarrow> bytes option"

definition KEY_LEN :: nat where "KEY_LEN = 32"
definition NONCE_LEN :: nat where "NONCE_LEN = 12"
definition TAG_LEN :: nat where "TAG_LEN = 16"

lemma nonce_tag_len [simp]: "NONCE_LEN = 12" "TAG_LEN = 16"
  by (simp_all add: NONCE_LEN_def TAG_LEN_def)

datatype crypto_error = Encrypt | Decrypt

definition aead_ok :: "seal_fn \<Rightarrow> seal_fn \<Rightarrow> bool" where
  "aead_ok seal unseal \<longleftrightarrow>
     (\<forall>k n p c. seal k n p = Some c \<longrightarrow> unseal k n c = Some p \<and> length c = length p + 16)"

section \<open>Key pairs\<close>

record 'k key_pair =
  kp_secret :: 'k
  kp_public :: bytes

definition generate :: "('k \<Rightarrow> bytes) \<Rightarrow> 'k \<Rightarrow> 'k key_pair" where
  "generate pub secret = \<lparr>kp_secret = secret, kp_public = pub secret\<rparr>"

definition public_key_bytes :: "'k key_pair \<Rightarrow> bytes" where
  "public_key_bytes kp = kp_public kp"

definition diffie_hellman :: "('k \<Rightarrow> bytes \<Rightarrow> bytes) \<Rightarrow> 'k key_pair \<Rightarrow> bytes \<Rightarrow> bytes" where
  "diffie_hellman dh kp peer_public = dh (kp_secret kp) peer_public"

definition dh_ok :: "('k \<Rightarrow> bytes) \<Rightarrow> ('k \<Rightarrow> bytes \<Rightarrow> bytes) \<Rightarrow> bool" where
  "dh_ok pub dh \<longleftrightarrow> (\<forall>a b. dh a (pub b) = dh b (pub a))"

section \<open>The session cipher\<close>

record session_cipher =
  sc_key :: bytes
  sc_counter :: u64

definition cipher_new :: "bytes \<Rightarrow> u64 \<Rightarrow> session_cipher" where
  "cipher_new shared_secret init_counter = \<lparr>sc_key = shared_secret, sc_counter = init_counter\<rparr>"

text \<open>\<open>nonce_bytes[4..12].copy_from_slice(&c.to_le_bytes())\<close> on twelve zero bytes.\<close>

definition nonce_of :: "u64 \<Rightarrow> bytes" where
  "nonce_of c = replicate 4 0 @ u64_le c"

definition next_nonce :: "session_cipher \<Rightarrow> bytes \<times> session_cipher" where
  "next_nonce sc = (let c = sc_counter sc in (nonce_of c, sc\<lparr>sc_counter := c + 1\<rparr>))"

definition cipher_encrypt ::
  "seal_fn \<Rightarrow> session_cipher \<Rightarrow> bytes \<Rightarrow> (crypto_error + bytes) \<times> session_cipher" where
  "cipher_encrypt seal sc plaintext =
     (case next_nonce sc of
        (nonce, sc') \<Rightarrow>
          (case seal (sc_key sc') nonce plaintext of
             None \<Rightarrow> (Err Encrypt, sc')
           | Some ciphertext \<Rightarrow> (Ok (nonce @ ciphertext), sc')))"

definition cipher_decrypt ::
  "seal_fn \<Rightarrow> session_cipher \<Rightarrow> bytes \<Rightarrow> crypto_error + bytes" where
  "cipher_decrypt unseal sc packet =
     (if length packet < NONCE_LEN + TAG_LEN then Err Decrypt
      else (case unseal (sc_key sc) (take NONCE_LEN packet) (drop NONCE_LEN packet) of
              None \<Rightarrow> Err Decrypt
            | Some p \<Rightarrow> Ok p))"

text \<open>Encrypting a list of plaintexts one after the other; the packets that were produced.\<close>

fun encrypt_all :: "seal_fn \<Rightarrow> session_cipher \<Rightarrow> bytes list \<Rightarrow> bytes list \<times> session_cipher" where
  "encrypt_all seal sc [] = ([], sc)"
| "encrypt_all seal sc (p # ps) =
     (case cipher_encrypt seal sc p of
        (r, sc') \<Rightarrow>
          (case encrypt_all seal sc' ps of
             (packets, sc'') \<Rightarrow>
               (case r of Err _ \<Rightarrow> (packets, sc'') | Ok pkt \<Rightarrow> (pkt # packets, sc''))))"

definition packet_nonce :: "bytes \<Rightarrow> bytes" where
  "packet_nonce packet = take NONCE_LEN packet"

section \<open>Encryption and decryption\<close>

lemma length_nonce_of [wire, simp]: "length (nonce_of c) = 12"
  by (simp add: nonce_of_def)

lemma nonce_of_inj [simp]: "nonce_of c = nonce_of d \<longleftrightarrow> c = d"
  by (simp add: nonce_of_def u64_le_inj)

lemma cipher_encrypt_eq:
  "cipher_encrypt seal sc p =
     ((case seal (sc_key sc) (nonce_of (sc_counter sc)) p of
         None \<Rightarrow> Err Encrypt | Some c \<Rightarrow> Ok (nonce_of (sc_counter sc) @ c)),
      sc\<lparr>sc_counter := sc_counter sc + 1\<rparr>)"
  by (simp add: cipher_encrypt_def next_nonce_def Let_def split: option.split)

lemma cipher_encrypt_state:
  "snd (cipher_encrypt seal sc p) = sc\<lparr>sc_counter := sc_counter sc + 1\<rparr>"
  by (simp add: cipher_encrypt_eq)

lemma cipher_encrypt_Ok:
  "fst (cipher_encrypt seal sc p) = Ok pkt \<longleftrightarrow>
     (\<exists>c. seal (sc_key sc) (nonce_of (sc_counter sc)) p = Some c
        \<and> pkt = nonce_of (sc_counter sc) @ c)"
  by (auto simp: cipher_encrypt_eq split: option.splits)

lemma encrypt_decrypt_roundtrip_fact:
  assumes "aead_ok seal unseal" and "sc_key rx = sc_key tx"
    and "cipher_encrypt seal tx p = (r, tx')"
  shows "(\<forall>pkt. r = Ok pkt \<longrightarrow>
            length pkt = NONCE_LEN + length p + TAG_LEN \<and> cipher_decrypt unseal rx pkt = Ok p)
       \<and> tx' = tx\<lparr>sc_counter := sc_counter tx + 1\<rparr>"
proof -
  have "length pkt = 12 + length p + 16 \<and> cipher_decrypt unseal rx pkt = Ok p" if "r = Ok pkt" for pkt
  proof -
    have "fst (cipher_encrypt seal tx p) = Ok pkt" using assms(3) that by simp
    then obtain c where c: "seal (sc_key tx) (nonce_of (sc_counter tx)) p = Some c"
      and pkt: "pkt = nonce_of (sc_counter tx) @ c"
      by (auto simp: cipher_encrypt_Ok)
    then have "unseal (sc_key tx) (nonce_of (sc_counter tx)) c = Some p" "length c = length p + 16"
      using assms(1) by (auto simp: aead_ok_def)
    then show ?thesis by (simp add: pkt cipher_decrypt_def assms(2))
  qed
  moreover have "tx' = tx\<lparr>sc_counter := sc_counter tx + 1\<rparr>"
    using cipher_encrypt_state [of seal tx p] assms(3) by simp
  ultimately show ?thesis by simp
qed

text \<open>
  What one side encrypts, the other side decrypts, whatever the two counters are: if the
  AEAD inverts and the keys agree, an encrypted packet of an \<open>n\<close>-byte plaintext has \<open>n + 28\<close>
  bytes and decrypts to that plaintext, and every encryption moves the sender's counter on by
  one (also a failed one).
\<close>

theorem encrypt_decrypt_roundtrip:
  assumes "aead_ok seal unseal" and "sc_key rx = sc_key tx"
    and "cipher_encrypt seal tx p = (r, tx')"
  shows "(\<forall>pkt. r = Ok pkt \<longrightarrow>
            length pkt = NONCE_LEN + length p + TAG_LEN \<and> cipher_decrypt unseal rx pkt = Ok p)
       \<and> tx' = tx\<lparr>sc_counter := sc_counter tx + 1\<rparr>"
  using assms by (rule encrypt_decrypt_roundtrip_fact)

text \<open>A toy AEAD for the witnesses: the key's first byte is added, the tag repeats the nonce.\<close>

definition toy_seal :: seal_fn where
  "toy_seal k n p = Some (map ((+) (hd (k @ [0]))) p @ take 16 (n @ replicate 16 0))"

definition toy_unseal :: seal_fn where
  "toy_unseal k n c =
     (if length c \<ge> 16 \<and> drop (length c - 16) c = take 16 (n @ replicate 16 0)
      then Some (map (\<lambda>b. b - hd (k @ [0])) (take (length c - 16) c)) else None)"

lemma toy_aead_ok: "aead_ok toy_seal toy_unseal"
  by (auto simp: aead_ok_def toy_seal_def toy_unseal_def comp_def)

theorem encrypt_decrypt_roundtrip_witness:
  "\<exists>pkt. fst (cipher_encrypt toy_seal (cipher_new [9] 5) [1, 2]) = Ok pkt
     \<and> cipher_decrypt toy_unseal (cipher_new [9] 0) pkt = Ok [1, 2]"
proof -
  obtain r tx' where e: "cipher_encrypt toy_seal (cipher_new [9] 5) [1, 2] = (r, tx')"
    by (cases "cipher_encrypt toy_seal (cipher_new [9] 5) [1, 2]")
  have "sc_key (cipher_new [9] 0) = sc_key (cipher_new [9] 5)" by (simp add: cipher_new_def)
  from encrypt_decrypt_roundtrip [OF toy_aead_ok this e] e show ?thesis
    by (auto simp: cipher_encrypt_eq toy_seal_def)
qed

text \<open>A packet too short for a nonce and a tag is refused without calling the AEAD.\<close>

lemma decrypt_short: "length packet < 28 \<Longrightarrow> cipher_decrypt unseal sc packet = Err Decrypt"
  by (simp add: cipher_decrypt_def)

section \<open>Nonces\<close>

text \<open>The AEAD accepts all of the given plaintexts under a key, whatever the nonce.\<close>

definition seals_all :: "seal_fn \<Rightarrow> bytes \<Rightarrow> bytes list \<Rightarrow> bool" where
  "seals_all seal k ps \<longleftrightarrow> (\<forall>p\<in>set ps. \<forall>n. seal k n p \<noteq> None)"

lemma packet_nonce_sealed [simp]: "packet_nonce (nonce_of c @ x) = nonce_of c"
  by (simp add: packet_nonce_def)

text \<open>The nonces a cipher uses for its next \<open>m\<close> packets.\<close>

definition nonces_from :: "u64 \<Rightarrow> nat \<Rightarrow> bytes list" where
  "nonces_from c m = map (\<lambda>i. nonce_of (c + of_nat i)) [0..<m]"

lemma nonces_from_Suc: "nonces_from c (Suc m) = nonce_of c # nonces_from (c + 1) m"
  by (simp add: nonces_from_def upt_conv_Cons map_Suc_upt [symmetric] add.assoc comp_def
      del: upt_Suc)

lemma set_nonces_from: "set (nonces_from c m) = {nonce_of (c + of_nat i) | i. i < m}"
  by (auto simp: nonces_from_def)

lemma encrypt_all_nonces:
  assumes "seals_all seal (sc_key sc) ps"
  shows "map packet_nonce (fst (encrypt_all seal sc ps)) = nonces_from (sc_counter sc) (length ps)
       \<and> snd (encrypt_all seal sc ps) = sc\<lparr>sc_counter := sc_counter sc + of_nat (length ps)\<rparr>"
  using assms
proof (induction ps arbitrary: sc)
  case Nil
  then show ?case by (simp add: nonces_from_def)
next
  case (Cons p ps)
  let ?sc = "sc\<lparr>sc_counter := sc_counter sc + 1\<rparr>"
  obtain c where c: "seal (sc_key sc) (nonce_of (sc_counter sc)) p = Some c"
    using Cons.prems by (fastforce simp: seals_all_def)
  have IH: "map packet_nonce (fst (encrypt_all seal ?sc ps)) = nonces_from (sc_counter sc + 1) (length ps)
       \<and> snd (encrypt_all seal ?sc ps) = sc\<lparr>sc_counter := sc_counter sc + 1 + of_nat (length ps)\<rparr>"
    using Cons.IH [of ?sc] Cons.prems by (simp add: seals_all_def)
  then show ?case
    by (cases "encrypt_all seal ?sc ps")
       (simp add: cipher_encrypt_eq c nonces_from_Suc add.assoc)
qed

lemma of_nat_u64_eq_iff:
  "(of_nat i :: u64) = of_nat j \<longleftrightarrow> i mod 2 ^ 64 = j mod 2 ^ 64"
proof -
  have "unat (of_nat n :: u64) = n mod 2 ^ 64" for n by (simp add: unat_of_nat)
  then show ?thesis by (metis word_unat_eq_iff)
qed

lemma distinct_nonces_from: "distinct (nonces_from c m) \<longleftrightarrow> m \<le> 2 ^ 64"
proof
  assume d: "distinct (nonces_from c m)"
  show "m \<le> 2 ^ 64"
  proof (rule ccontr)
    assume "\<not> m \<le> 2 ^ 64"
    then have m: "2 ^ 64 < m" by simp
    have "nonces_from c m ! 0 = nonces_from c m ! (2 ^ 64)"
      using m by (simp add: nonces_from_def of_nat_u64_eq_iff)
    moreover have "0 < length (nonces_from c m)" "2 ^ 64 < length (nonces_from c m)"
      using m by (simp_all add: nonces_from_def)
    ultimately show False using d nth_eq_iff_index_eq [of "nonces_from c m" 0 "2 ^ 64"] by simp
  qed
next
  assume "m \<le> 2 ^ 64"
  then show "distinct (nonces_from c m)"
    by (auto simp: nonces_from_def distinct_map inj_on_def of_nat_u64_eq_iff)
qed

text \<open>
  A cipher never repeats a nonce within its first \<open>2^64\<close> packets: encrypting any list of
  plaintexts that the AEAD accepts gives packets with pairwise different nonces exactly when the
  list has at most \<open>2^64\<close> elements (then the wrapping counter starts again).
\<close>

theorem nonces_distinct:
  assumes "seals_all seal (sc_key sc) ps"
  shows "distinct (map packet_nonce (fst (encrypt_all seal sc ps))) \<longleftrightarrow> length ps \<le> 2 ^ 64"
  using encrypt_all_nonces [OF assms] distinct_nonces_from by metis

theorem nonces_distinct_witness:
  "distinct (map packet_nonce (fst (encrypt_all toy_seal (cipher_new [1] (- 1)) [[5], [6], [7]])))"
proof -
  have "seals_all toy_seal (sc_key (cipher_new [1] (- 1))) [[5], [6], [7]]"
    by (simp add: toy_seal_def seals_all_def)
  from nonces_distinct [OF this] show ?thesis by simp
qed

section \<open>The two directions of a tunnel\<close>

text \<open>
  Both directions use the same key. The counters of the two sides start at 0 and at \<open>2^32\<close>
  (\<open>RESPONDER_TX_OFFSET\<close> of the tunnel crate).
\<close>

definition RESPONDER_TX_OFFSET :: u64 where "RESPONDER_TX_OFFSET = push_bit 32 1"

lemma RESPONDER_TX_OFFSET_nat: "RESPONDER_TX_OFFSET = of_nat (2 ^ 32)"
  by (simp add: RESPONDER_TX_OFFSET_def push_bit_eq_mult)

lemma nonce_collision_iff:
  "nonce_of (0 + of_nat i) = nonce_of (RESPONDER_TX_OFFSET + of_nat j)
     \<longleftrightarrow> i mod 2 ^ 64 = (2 ^ 32 + j) mod 2 ^ 64"
proof -
  have "RESPONDER_TX_OFFSET + of_nat j = of_nat (2 ^ 32 + j)"
    by (simp add: RESPONDER_TX_OFFSET_nat)
  then show ?thesis by (simp only: add_0 nonce_of_inj of_nat_u64_eq_iff)
qed

text \<open>The sequences of \<open>m\<close> nonces from 0 and of \<open>n\<close> from the offset.\<close>

lemma nonces_from_disjoint:
  assumes "0 < m" and "0 < n"
  shows "set (nonces_from 0 m) \<inter> set (nonces_from RESPONDER_TX_OFFSET n) = {}
           \<longleftrightarrow> m \<le> 2 ^ 32 \<and> n \<le> 2 ^ 64 - 2 ^ 32"
proof
  assume d: "set (nonces_from 0 m) \<inter> set (nonces_from RESPONDER_TX_OFFSET n) = {}"
  have none: "i mod 2 ^ 64 \<noteq> (2 ^ 32 + j) mod 2 ^ 64" if "i < m" "j < n" for i j
  proof -
    have "nonce_of (0 + of_nat i) \<in> set (nonces_from 0 m)"
      "nonce_of (RESPONDER_TX_OFFSET + of_nat j) \<in> set (nonces_from RESPONDER_TX_OFFSET n)"
      unfolding set_nonces_from using that by blast+
    with d have "nonce_of (0 + of_nat i) \<noteq> nonce_of (RESPONDER_TX_OFFSET + of_nat j)"
      by (metis disjoint_iff)
    then show ?thesis unfolding nonce_collision_iff .
  qed
  have "m \<le> 2 ^ 32" using none [of "2 ^ 32" 0] assms(2) by (cases "2 ^ 32 < m") auto
  moreover have "n \<le> 2 ^ 64 - 2 ^ 32"
    using none [of 0 "2 ^ 64 - 2 ^ 32"] assms(1) by (cases "2 ^ 64 - 2 ^ 32 < n") auto
  ultimately show "m \<le> 2 ^ 32 \<and> n \<le> 2 ^ 64 - 2 ^ 32" ..
next
  assume le: "m \<le> 2 ^ 32 \<and> n \<le> 2 ^ 64 - 2 ^ 32"
  have "nonce_of (0 + of_nat i) \<noteq> nonce_of (RESPONDER_TX_OFFSET + of_nat j)"
    if "i < m" "j < n" for i j
    using that le by (simp only: nonce_collision_iff) simp
  then show "set (nonces_from 0 m) \<inter> set (nonces_from RESPONDER_TX_OFFSET n) = {}"
    unfolding set_nonces_from by blast
qed

end
