(* ===== verification/Tunnel.thy ===== *)
theory Tunnel
  imports Session_Cipher Relay_Client
begin

text \<open>
  \<open>crates/tunnel/src/lib.rs\<close> (the encrypted tunnel over one UDP socket) and
  \<open>crates/tunnel/src/path.rs\<close> (the path manager that owns a relay client and the status of the
  direct path). The outcome of each socket call is an argument, the datagrams sent are part of
  the result. The watch channel is its current value and its number of receivers: tokio's
  \<open>send\<close> fails, and stores nothing, when there is no receiver.
\<close>

section \<open>The tunnel\<close>

datatype io_kind = IoOther | IoTimedOut string | IoConnectionRefused string

datatype tunnel_error = TunnelIo io_kind | TunnelCrypto crypto_error

definition MAX_PACKET :: nat where "MAX_PACKET = 65536"

record tunnel =
  tx_cipher :: session_cipher
  rx_cipher :: session_cipher

definition bind_with_nonce :: "bool \<Rightarrow> bytes \<Rightarrow> u64 \<Rightarrow> tunnel_error + tunnel" where
  "bind_with_nonce bind_ok shared_secret tx_nonce_start =
     (if \<not> bind_ok then Err (TunnelIo IoOther)
      else Ok \<lparr>tx_cipher = cipher_new shared_secret tx_nonce_start,
               rx_cipher = cipher_new shared_secret 0\<rparr>)"

definition bind_initiator :: "bool \<Rightarrow> bytes \<Rightarrow> tunnel_error + tunnel" where
  "bind_initiator bind_ok shared_secret = bind_with_nonce bind_ok shared_secret 0"

definition bind_responder :: "bool \<Rightarrow> bytes \<Rightarrow> tunnel_error + tunnel" where
  "bind_responder bind_ok shared_secret = bind_with_nonce bind_ok shared_secret RESPONDER_TX_OFFSET"

definition tunnel_send_to ::
  "seal_fn \<Rightarrow> tunnel \<Rightarrow> bytes \<Rightarrow> socket_addr \<Rightarrow> bool
     \<Rightarrow> (tunnel_error + nat) \<times> tunnel \<times> datagram list" where
  "tunnel_send_to seal t plaintext peer send_ok =
     (case cipher_encrypt seal (tx_cipher t) plaintext of
        (r, tx) \<Rightarrow>
          (let t' = t\<lparr>tx_cipher := tx\<rparr>
           in case r of
                Err e \<Rightarrow> (Err (TunnelCrypto e), t', [])
              | Ok packet \<Rightarrow>
                  (if send_ok then (Ok (length plaintext), t', [(peer, packet)])
                   else (Err (TunnelIo IoOther), t', []))))"

definition tunnel_recv_from ::
  "seal_fn \<Rightarrow> tunnel \<Rightarrow> (bytes \<times> socket_addr) option \<Rightarrow> tunnel_error + bytes \<times> socket_addr" where
  "tunnel_recv_from unseal t received =
     (case received of
        None \<Rightarrow> Err (TunnelIo IoOther)
      | Some (data, peer) \<Rightarrow>
          (case cipher_decrypt unseal (rx_cipher t) (take MAX_PACKET data) of
             Err e \<Rightarrow> Err (TunnelCrypto e)
           | Ok plaintext \<Rightarrow> Ok (plaintext, peer)))"

lemma bind_responder_Ok:
  "bind_responder True k = Ok \<lparr>tx_cipher = cipher_new k RESPONDER_TX_OFFSET, rx_cipher = cipher_new k 0\<rparr>"
  by (simp add: bind_responder_def bind_with_nonce_def)

lemma bind_initiator_Ok:
  "bind_initiator True k = Ok \<lparr>tx_cipher = cipher_new k 0, rx_cipher = cipher_new k 0\<rparr>"
  by (simp add: bind_initiator_def bind_with_nonce_def)

lemma tunnel_transfer:
  assumes "aead_ok seal unseal" and "sc_key (rx_cipher b) = sc_key (tx_cipher a)"
    and "length p \<le> MAX_PACKET - 28"
    and "tunnel_send_to seal a p addr True = (Ok n, a', out)"
  shows "n = length p \<and> (\<exists>pkt. out = [(addr, pkt)]
           \<and> tunnel_recv_from unseal b (Some (pkt, src)) = Ok (p, src))"
proof -
  obtain r tx where e: "cipher_encrypt seal (tx_cipher a) p = (r, tx)"
    by (cases "cipher_encrypt seal (tx_cipher a) p")
  with assms(4) obtain pkt where r: "r = Ok pkt" and n: "n = length p" and out: "out = [(addr, pkt)]"
    by (auto simp: tunnel_send_to_def Let_def split: sum.splits)
  from encrypt_decrypt_roundtrip_fact [OF assms(1,2) e] r
  have l: "length pkt = 12 + length p + 16" and d: "cipher_decrypt unseal (rx_cipher b) pkt = Ok p"
    by auto
  from l assms(3) have "take MAX_PACKET pkt = pkt" by (simp add: MAX_PACKET_def)
  with d n out show ?thesis by (simp add: tunnel_recv_from_def)
qed

text \<open>
  C8: A key exchange followed by a transfer: two parties that generate key pairs, exchange the
  public keys and bind their tunnels as initiator and responder can talk in both directions;
  what either sends is what the other receives, with the sender's address, provided the
  Diffie-Hellman secrets agree and the AEAD inverts and accepts the plaintext.
\<close>

theorem tunnel_exchange:
  assumes "dh_ok pub dh" and "aead_ok seal unseal"
    and "alice = generate pub sa" and "bob = generate pub sb"
    and "bind_initiator True (diffie_hellman dh alice (public_key_bytes bob)) = Ok ta"
    and "bind_responder True (diffie_hellman dh bob (public_key_bytes alice)) = Ok tb"
    and "length p \<le> MAX_PACKET - 28" and "length q \<le> MAX_PACKET - 28"
    and "tunnel_send_to seal ta p b_addr True = (Ok n, ta', out_a)"
    and "tunnel_send_to seal tb q a_addr True = (Ok m, tb', out_b)"
  shows "\<exists>pkt_a pkt_b. out_a = [(b_addr, pkt_a)] \<and> out_b = [(a_addr, pkt_b)]
           \<and> tunnel_recv_from unseal tb' (Some (pkt_a, a_src)) = Ok (p, a_src)
           \<and> tunnel_recv_from unseal ta' (Some (pkt_b, b_src)) = Ok (q, b_src)"
proof -
  let ?k = "dh sa (pub sb)"
  have k: "dh sb (pub sa) = ?k" using assms(1) by (auto simp: dh_ok_def)
  have ta: "ta = \<lparr>tx_cipher = cipher_new ?k 0, rx_cipher = cipher_new ?k 0\<rparr>"
    using assms(3,4,5)
    by (simp add: bind_initiator_Ok diffie_hellman_def public_key_bytes_def generate_def)
  have tb: "tb = \<lparr>tx_cipher = cipher_new ?k RESPONDER_TX_OFFSET, rx_cipher = cipher_new ?k 0\<rparr>"
    using assms(3,4,6) k
    by (simp add: bind_responder_Ok diffie_hellman_def public_key_bytes_def generate_def)
  have rx: "rx_cipher ta' = rx_cipher ta" "rx_cipher tb' = rx_cipher tb"
    using assms(9,10) by (auto simp: tunnel_send_to_def Let_def split: prod.splits sum.splits)
  have "sc_key (rx_cipher tb') = sc_key (tx_cipher ta)" "sc_key (rx_cipher ta') = sc_key (tx_cipher tb)"
    by (simp_all add: rx ta tb cipher_new_def)
  then show ?thesis
    using tunnel_transfer [OF assms(2) _ assms(7,9), of tb' a_src]
      tunnel_transfer [OF assms(2) _ assms(8,10), of ta' b_src] by auto
qed

definition toy_pub :: "nat \<Rightarrow> bytes" where "toy_pub s = [of_nat s]"
definition toy_dh :: "nat \<Rightarrow> bytes \<Rightarrow> bytes" where "toy_dh s p = [of_nat s * hd (p @ [0])]"

lemma toy_dh_ok: "dh_ok toy_pub toy_dh"
  by (simp add: dh_ok_def toy_pub_def toy_dh_def mult.commute)

theorem tunnel_exchange_witness:
  "\<exists>pkt ta ta' tb. bind_initiator True (toy_dh 3 (toy_pub 5)) = Ok ta
     \<and> bind_responder True (toy_dh 5 (toy_pub 3)) = Ok tb
     \<and> tunnel_send_to toy_seal ta [42] addr_b True = (Ok 1, ta', [(addr_b, pkt)])
     \<and> tunnel_recv_from toy_unseal tb (Some (pkt, addr_a)) = Ok ([42], addr_a)"
proof -
  let ?ga = "generate toy_pub 3" and ?gb = "generate toy_pub 5"
  let ?ka = "diffie_hellman toy_dh ?ga (public_key_bytes ?gb)"
  let ?kb = "diffie_hellman toy_dh ?gb (public_key_bytes ?ga)"
  let ?ta = "\<lparr>tx_cipher = cipher_new ?ka 0, rx_cipher = cipher_new ?ka 0\<rparr>"
  let ?tb = "\<lparr>tx_cipher = cipher_new ?kb RESPONDER_TX_OFFSET, rx_cipher = cipher_new ?kb 0\<rparr>"
  have k: "?ka = toy_dh 3 (toy_pub 5)" "?kb = toy_dh 5 (toy_pub 3)"
    by (simp_all add: diffie_hellman_def public_key_bytes_def generate_def)
  have ok: "\<exists>t' out. tunnel_send_to toy_seal t p d True = (Ok (length p), t', out)
      \<and> rx_cipher t' = rx_cipher t" for t p d
    by (simp add: tunnel_send_to_def cipher_encrypt_eq toy_seal_def Let_def)
  obtain ta' oa where sa: "tunnel_send_to toy_seal ?ta [42] addr_b True = (Ok 1, ta', oa)"
    using ok [of ?ta "[42]" addr_b] by auto
  obtain tb' ob where sb: "tunnel_send_to toy_seal ?tb [7] addr_a True = (Ok 1, tb', ob)"
      and rb: "rx_cipher tb' = rx_cipher ?tb"
    using ok [of ?tb "[7]" addr_a] by auto
  obtain pkt where "oa = [(addr_b, pkt)]" "tunnel_recv_from toy_unseal tb' (Some (pkt, addr_a)) = Ok ([42], addr_a)"
    using tunnel_exchange [OF toy_dh_ok toy_aead_ok refl refl bind_initiator_Ok bind_responder_Ok
        _ _ sa sb, of addr_a addr_b] by (auto simp: MAX_PACKET_def)
  moreover have "tunnel_recv_from toy_unseal tb' r = tunnel_recv_from toy_unseal ?tb r" for r
    by (simp only: tunnel_recv_from_def rb)
  ultimately show ?thesis
    using sa bind_initiator_Ok [of ?ka] bind_responder_Ok [of ?kb] unfolding k by auto
qed

section \<open>The nonces of the two directions\<close>

text \<open>Sending messages one after the other: the tunnel afterwards and all datagrams.\<close>

fun tunnel_send_all :: "seal_fn \<Rightarrow> tunnel \<Rightarrow> (bytes \<times> socket_addr) list \<Rightarrow> tunnel \<times> datagram list" where
  "tunnel_send_all seal t [] = (t, [])"
| "tunnel_send_all seal t ((p, peer) # msgs) =
     (case tunnel_send_to seal t p peer True of
        (_, t', out) \<Rightarrow> (case tunnel_send_all seal t' msgs of (t'', out') \<Rightarrow> (t'', out @ out')))"

definition wire_nonces :: "datagram list \<Rightarrow> bytes list" where
  "wire_nonces out = map (\<lambda>d. packet_nonce (snd d)) out"

lemma tunnel_send_all_nonces:
  assumes "seals_all seal (sc_key (tx_cipher t)) (map fst msgs)"
  shows "wire_nonces (snd (tunnel_send_all seal t msgs)) = nonces_from (sc_counter (tx_cipher t)) (length msgs)"
  using assms
proof (induction msgs arbitrary: t)
  case Nil
  then show ?case by (simp add: wire_nonces_def nonces_from_def)
next
  case (Cons m msgs)
  obtain p peer where m: "m = (p, peer)" by fastforce
  let ?t = "t\<lparr>tx_cipher := (tx_cipher t)\<lparr>sc_counter := sc_counter (tx_cipher t) + 1\<rparr>\<rparr>"
  obtain c where "seal (sc_key (tx_cipher t)) (nonce_of (sc_counter (tx_cipher t))) p = Some c"
    using Cons.prems m by (fastforce simp: seals_all_def)
  then have send: "tunnel_send_to seal t p peer True
      = (Ok (length p), ?t, [(peer, nonce_of (sc_counter (tx_cipher t)) @ c)])"
    by (simp add: tunnel_send_to_def cipher_encrypt_eq)
  have "wire_nonces (snd (tunnel_send_all seal ?t msgs)) = nonces_from (sc_counter (tx_cipher t) + 1) (length msgs)"
    using Cons.IH [of ?t] Cons.prems by (simp add: seals_all_def)
  with send show ?case
    by (auto simp: m wire_nonces_def nonces_from_Suc split: prod.split)
qed

text \<open>
  C31: The two directions of a tunnel are encrypted under one key. Their packets have no nonce in
  common exactly while the initiator has sent at most \<open>2^32\<close> packets and the responder at most
  \<open>2^64 - 2^32\<close>: with its next packet the initiator uses the first nonce of the responder again. The
  packets are those that \<open>send_to\<close> puts on the wire on the tunnels that the two bind operations give,
  for plaintexts that the AEAD accepts.
\<close>

theorem direction_nonces_disjoint_iff:
  assumes "bind_initiator True k = Ok ta" and "bind_responder True k = Ok tb"
    and "seals_all seal k (map fst ps @ map fst qs)" and "ps \<noteq> []" and "qs \<noteq> []"
  shows "set (wire_nonces (snd (tunnel_send_all seal ta ps)))
           \<inter> set (wire_nonces (snd (tunnel_send_all seal tb qs))) = {}
         \<longleftrightarrow> length ps \<le> 2 ^ 32 \<and> length qs \<le> 2 ^ 64 - 2 ^ 32"
proof -
  have "wire_nonces (snd (tunnel_send_all seal ta ps)) = nonces_from 0 (length ps)"
      "wire_nonces (snd (tunnel_send_all seal tb qs)) = nonces_from RESPONDER_TX_OFFSET (length qs)"
    using tunnel_send_all_nonces [of seal ta ps] tunnel_send_all_nonces [of seal tb qs] assms(1-3)
    by (auto simp: bind_initiator_Ok bind_responder_Ok cipher_new_def seals_all_def)
  then show ?thesis using nonces_from_disjoint [of "length ps" "length qs"] assms(4,5) by simp
qed

theorem direction_nonces_disjoint_iff_witness:
  "\<exists>ta tb. bind_initiator True [7] = Ok ta \<and> bind_responder True [7] = Ok tb
     \<and> set (wire_nonces (snd (tunnel_send_all toy_seal ta [([1], addr_b), ([2], addr_b)])))
         \<inter> set (wire_nonces (snd (tunnel_send_all toy_seal tb [([3], addr_a)]))) = {}"
proof -
  let ?ta = "\<lparr>tx_cipher = cipher_new [7] 0, rx_cipher = cipher_new [7] 0\<rparr>"
  let ?tb = "\<lparr>tx_cipher = cipher_new [7] RESPONDER_TX_OFFSET, rx_cipher = cipher_new [7] 0\<rparr>"
  have "seals_all toy_seal [7] (map fst [([1], addr_b), ([2], addr_b)] @ map fst [([3], addr_a)])"
    by (simp add: seals_all_def toy_seal_def)
  from direction_nonces_disjoint_iff [OF bind_initiator_Ok bind_responder_Ok this] show ?thesis
    by (intro exI [of _ ?ta] exI [of _ ?tb]) (simp add: bind_initiator_Ok bind_responder_Ok del: tunnel_send_all.simps)
qed

section \<open>The path manager\<close>

definition INITIAL_RETRY_MS :: nat where "INITIAL_RETRY_MS = 200"
definition MAX_RETRY_MS :: nat where "MAX_RETRY_MS = 30000"
definition BACKOFF_MULTIPLIER :: nat where "BACKOFF_MULTIPLIER = 2"

lemmas retry_defs = INITIAL_RETRY_MS_def MAX_RETRY_MS_def BACKOFF_MULTIPLIER_def

datatype path_status = Direct | Relay | Probing

record path_manager =
  pm_relay :: relay_client
  direct_peer :: socket_addr
  status :: path_status
  backoff_ms :: nat
  watch_value :: path_status
  watch_receivers :: nat

definition path_new :: "relay_client \<Rightarrow> socket_addr \<Rightarrow> path_manager" where
  "path_new relay peer =
     \<lparr>pm_relay = relay, direct_peer = peer, status = Relay, backoff_ms = INITIAL_RETRY_MS,
      watch_value = Relay, watch_receivers = 0\<rparr>"

definition status_rx :: "path_manager \<Rightarrow> path_manager" where
  "status_rx pm = pm\<lparr>watch_receivers := watch_receivers pm + 1\<rparr>"

definition current_status :: "path_manager \<Rightarrow> path_status" where
  "current_status pm = status pm"

definition watch_send :: "path_status \<Rightarrow> path_manager \<Rightarrow> path_manager" where
  "watch_send st pm = (if watch_receivers pm = 0 then pm else pm\<lparr>watch_value := st\<rparr>)"

definition probe_bytes :: bytes where
  "probe_bytes = [0x50, 0x52, 0x4F, 0x42, 0x45]"

definition try_direct ::
  "seal_fn \<Rightarrow> path_manager \<Rightarrow> tunnel \<Rightarrow> bool \<Rightarrow> (tunnel_error + unit) \<times> path_manager \<times> datagram list"
  where
  "try_direct seal pm direct_tunnel send_ok =
     (case tunnel_send_to seal direct_tunnel probe_bytes (direct_peer pm) send_ok of
        (Ok _, _, out) \<Rightarrow>
          (Ok (), watch_send Direct (pm\<lparr>status := Direct, backoff_ms := INITIAL_RETRY_MS\<rparr>), out)
      | (Err e, _, out) \<Rightarrow>
          (Err e, pm\<lparr>backoff_ms := min (backoff_ms pm * BACKOFF_MULTIPLIER) MAX_RETRY_MS\<rparr>, out))"

text \<open>\<open>send\<close> uses the relay, whatever the status.\<close>

definition path_send ::
  "path_manager \<Rightarrow> bytes \<Rightarrow> bool \<Rightarrow> (tunnel_error + datagram list) panics" where
  "path_send pm plaintext send_ok = do {
     r \<leftarrow> client_send (pm_relay pm) plaintext send_ok;
     case r of
       Err _ \<Rightarrow> ret (Err (TunnelIo IoOther))
     | Ok (_, out) \<Rightarrow> ret (Ok out) }"

datatype path_recv_result =
    PathWaiting
  | PathError tunnel_error "(io_error + bytes) list"
  | PathReceived bytes socket_addr "(io_error + bytes) list"

definition path_recv :: "path_manager \<Rightarrow> (io_error + bytes) list \<Rightarrow> path_recv_result panics" where
  "path_recv pm rs = do {
     r \<leftarrow> client_recv (pm_relay pm) rs;
     ret (case r of
            Waiting \<Rightarrow> PathWaiting
          | RecvError rest \<Rightarrow> PathError (TunnelIo IoOther) rest
          | Received data _ rest \<Rightarrow> PathReceived data (direct_peer pm) rest) }"

text \<open>
  \<open>ping_pong\<close>: \<open>outer_expires\<close> says that the outer timer fires before the inner block is done,
  \<open>reply = None\<close> that the inner receive times out.
\<close>

definition ping_bytes :: bytes where "ping_bytes = [0x50, 0x49, 0x4E, 0x47]"
definition pong_bytes :: bytes where "pong_bytes = [0x50, 0x4F, 0x4E, 0x47]"

definition ping_pong ::
  "seal_fn \<Rightarrow> seal_fn \<Rightarrow> tunnel \<Rightarrow> socket_addr \<Rightarrow> bool \<Rightarrow> bool
     \<Rightarrow> (bytes \<times> socket_addr) option option \<Rightarrow> (tunnel_error + unit) \<times> tunnel" where
  "ping_pong seal unseal t peer outer_expires send_ok reply =
     (case tunnel_send_to seal t ping_bytes peer send_ok of
        (r, t', _) \<Rightarrow>
          (if outer_expires then (Err (TunnelIo (IoTimedOut ''ping timeout'')), t')
           else (case r of
               Err e \<Rightarrow> (Err e, t')
             | Ok _ \<Rightarrow>
                 (case reply of
                    None \<Rightarrow> (Err (TunnelIo (IoTimedOut ''pong timeout'')), t')
                  | Some received \<Rightarrow>
                      (case tunnel_recv_from unseal t' received of
                         Err e \<Rightarrow> (Err e, t')
                       | Ok (data, _) \<Rightarrow>
                           (if length data \<ge> 4 \<and> take 4 data = pong_bytes then (Ok (), t')
                            else (Err (TunnelIo (IoConnectionRefused ''unexpected pong'')), t')))))))"

lemma ping_pong_Ok:
  "fst (ping_pong seal unseal t peer outer ok reply) = Ok () \<longleftrightarrow>
     \<not> outer \<and> (\<exists>n t' out received data from.
       tunnel_send_to seal t ping_bytes peer ok = (Ok n, t', out) \<and> reply = Some received
       \<and> tunnel_recv_from unseal t' received = Ok (data, from) \<and> take 4 data = pong_bytes)"
proof -
  have "4 \<le> length data" if "take 4 data = pong_bytes" for data
    using arg_cong [OF that, of length] by (simp add: pong_bytes_def min_def split: if_splits)
  then show ?thesis
    by (auto simp: ping_pong_def split: prod.splits sum.splits option.splits)
qed

section \<open>The status as a state machine\<close>

text \<open>
  The events of a path manager: an attempt at the direct path (with the outcome of encrypting
  and sending the probe), a send or receive through the relay, and the appearance and
  disappearance of status receivers.
\<close>

datatype path_event =
    TryDirect seal_fn tunnel bool
  | PathSend bytes bool
  | PathRecv "(io_error + bytes) list"
  | Subscribe
  | Unsubscribe

fun path_step :: "path_manager \<Rightarrow> path_event \<Rightarrow> path_manager" where
  "path_step pm (TryDirect seal t ok) = fst (snd (try_direct seal pm t ok))"
| "path_step pm (PathSend p ok) = pm"
| "path_step pm (PathRecv rs) = pm"
| "path_step pm Subscribe = status_rx pm"
| "path_step pm Unsubscribe = pm\<lparr>watch_receivers := watch_receivers pm - 1\<rparr>"

definition path_inv :: "path_manager \<Rightarrow> bool" where
  "path_inv pm \<longleftrightarrow> status pm \<noteq> Probing \<and> watch_value pm \<noteq> Probing
     \<and> (watch_value pm = Direct \<longrightarrow> status pm = Direct)
     \<and> INITIAL_RETRY_MS \<le> backoff_ms pm \<and> backoff_ms pm \<le> MAX_RETRY_MS"

definition path_le :: "path_manager \<Rightarrow> path_manager \<Rightarrow> bool" where
  "path_le a b \<longleftrightarrow> (status a = Direct \<longrightarrow> status b = Direct)
     \<and> pm_relay b = pm_relay a \<and> direct_peer b = direct_peer a"

lemma try_direct_cases:
  obtains (ok) n t' pkt where "tunnel_send_to seal t probe_bytes (direct_peer pm) send_ok = (Ok n, t', [(direct_peer pm, pkt)])"
      "try_direct seal pm t send_ok =
         (Ok (), watch_send Direct (pm\<lparr>status := Direct, backoff_ms := INITIAL_RETRY_MS\<rparr>), [(direct_peer pm, pkt)])"
    | (fail) e where "try_direct seal pm t send_ok =
         (Err e, pm\<lparr>backoff_ms := min (backoff_ms pm * BACKOFF_MULTIPLIER) MAX_RETRY_MS\<rparr>, [])"
proof (cases "cipher_encrypt seal (tx_cipher t) probe_bytes")
  case (Pair r tx)
  show ?thesis
  proof (cases r)
    case (Inl e)
    with Pair show ?thesis by (intro fail) (simp add: try_direct_def tunnel_send_to_def)
  next
    case (Inr pkt)
    show ?thesis
    proof (cases send_ok)
      case True
      with Pair Inr show ?thesis by (intro ok) (simp_all add: try_direct_def tunnel_send_to_def)
    next
      case False
      with Pair Inr show ?thesis by (intro fail) (simp add: try_direct_def tunnel_send_to_def)
    qed
  qed
qed

interpretation path_status_system: step_system path_step path_inv
proof
  fix pm e
  assume inv: "path_inv pm"
  show "path_inv (path_step pm e)"
  proof (cases e)
    case (TryDirect seal t ok)
    then show ?thesis
      using inv by (cases rule: try_direct_cases [of seal t pm ok])
        (auto simp: path_inv_def watch_send_def retry_defs)
  qed (use inv in \<open>auto simp: path_inv_def status_rx_def\<close>)
qed

interpretation path_progress: monotone_system path_step path_le
proof
  fix pm e
  show "path_le pm (path_step pm e)"
  proof (cases e)
    case (TryDirect seal t ok)
    then show ?thesis
      by (cases rule: try_direct_cases [of seal t pm ok]) (auto simp: path_le_def watch_send_def)
  qed (auto simp: path_le_def status_rx_def)
qed (auto simp: path_le_def)

text \<open>
  In every history of a path manager the status is Relay or Direct (Probing is never
  entered), receivers are never told Direct before it holds, and the backoff stays between 200
  and 30000 milliseconds.
\<close>

theorem path_manager_invariant:
  "path_inv (foldl path_step (path_new relay peer) es)"
  by (rule path_status_system.run_inv) (simp add: path_inv_def path_new_def retry_defs)

text \<open>
  There is no way back: once the status is Direct it is Direct after every later event,
  whatever fails afterwards.
\<close>

theorem path_direct_is_final:
  assumes "current_status (foldl path_step (path_new relay peer) es) = Direct"
  shows "current_status (foldl path_step (path_new relay peer) (es @ later)) = Direct"
  using path_progress.run_le [of "foldl path_step (path_new relay peer) es" later] assms
  by (simp add: path_le_def current_status_def)

lemma toy_seal_send:
  "tunnel_send_to toy_seal t p peer True
     = (Ok (length p), t\<lparr>tx_cipher := (tx_cipher t)\<lparr>sc_counter := sc_counter (tx_cipher t) + 1\<rparr>\<rparr>,
        [(peer, nonce_of (sc_counter (tx_cipher t)) @ the (toy_seal (sc_key (tx_cipher t)) (nonce_of (sc_counter (tx_cipher t))) p))])"
  by (simp add: tunnel_send_to_def cipher_encrypt_eq toy_seal_def Let_def)

theorem path_direct_is_final_witness:
  "current_status (foldl path_step (path_new relay peer)
     ([TryDirect toy_seal t True] @ [TryDirect toy_seal t False, PathSend [1] False])) = Direct"
  by (rule path_direct_is_final)
     (simp add: try_direct_def toy_seal_send watch_send_def path_new_def current_status_def)

text \<open>
  The direct path is reported as established as soon as the local socket accepts one
  encrypted datagram: success needs no answer from the peer, and the only effects are that one
  probe, the status, the backoff reset and the notification; the tunnel is not kept.
\<close>

theorem try_direct_spec:
  "(case cipher_encrypt seal (tx_cipher t) probe_bytes of
      (Ok packet, _) \<Rightarrow>
        (if send_ok
         then try_direct seal pm t send_ok =
                (Ok (), pm\<lparr>status := Direct, backoff_ms := 200,
                           watch_value := (if watch_receivers pm = 0 then watch_value pm else Direct)\<rparr>,
                 [(direct_peer pm, packet)])
         else try_direct seal pm t send_ok =
                (Err (TunnelIo IoOther), pm\<lparr>backoff_ms := min (2 * backoff_ms pm) 30000\<rparr>, []))
    | (Err e, _) \<Rightarrow>
        try_direct seal pm t send_ok =
          (Err (TunnelCrypto e), pm\<lparr>backoff_ms := min (2 * backoff_ms pm) 30000\<rparr>, []))"
  by (auto simp: try_direct_def tunnel_send_to_def Let_def watch_send_def retry_defs mult.commute
      split: prod.splits sum.splits)

text \<open>The backoff after a run of failed attempts.\<close>

lemma backoff_failures:
  "backoff_ms (foldl path_step pm (replicate n (TryDirect seal t False)))
           = (if n = 0 then backoff_ms pm else min (backoff_ms pm * 2 ^ n) 30000)"
proof (induction n arbitrary: pm)
  case 0
  then show ?case by simp
next
  case (Suc n)
  have one: "backoff_ms (path_step pm (TryDirect seal t False)) = min (backoff_ms pm * 2) 30000"
    by (cases "fst (cipher_encrypt seal (tx_cipher t) probe_bytes)")
       (auto simp: try_direct_def tunnel_send_to_def Let_def retry_defs split: prod.splits)
  have "min (min (b * 2) 30000 * 2 ^ n) 30000 = min (b * 2 ^ Suc n) (30000 :: nat)" for b
  proof (cases "b * 2 \<le> 30000")
    case False
    have "(1 :: nat) \<le> 2 ^ n" by simp
    then have "30000 \<le> 30000 * (2 :: nat) ^ n" "30000 \<le> b * 2 * 2 ^ n"
      using False mult_le_mono [of 30000 "b * 2" 1 "2 ^ n"] by simp_all
    with False show ?thesis by (simp add: mult.assoc)
  qed (simp add: mult.assoc)
  then show ?case by (simp add: Suc.IH one del: path_step.simps)
qed

section \<open>What travels through the relay\<close>

text \<open>
  The path manager's send does not encrypt and does not use the direct path: in every
  status it hands the plaintext to the relay client, so the datagram that goes to the relay is a
  Data frame whose payload is the plaintext itself, readable by the relay server.
\<close>

theorem path_send_is_plaintext:
  assumes "length p \<le> MAX_PAYLOAD"
  shows "\<exists>bs. path_send pm p True = ret (Ok [(relay_addr (pm_relay pm), bs)])
           \<and> decode bs = ret (Ok (frame_data (our_id (pm_relay pm)) (peer_id_of (pm_relay pm)) p))
           \<and> drop HEADER_LEN bs = p"
proof -
  let ?c = "pm_relay pm"
  have send: "client_send ?c p True = ret (Ok (36 + length p,
        [(relay_addr ?c, ev_data (data_event (our_id ?c) (peer_id_of ?c) p undefined True))]))"
    by (rule client_send_datagram [OF assms])
  then have "decode (ev_data (data_event (our_id ?c) (peer_id_of ?c) p undefined True))
      = ret (Ok (frame_data (our_id ?c) (peer_id_of ?c) p))"
    using client_send_spec [of ?c p True] assms by auto
  with send show ?thesis by (simp add: path_send_def data_event_def)
qed

theorem path_send_is_plaintext_witness:
  "\<exists>bs. path_send ((path_new \<lparr>relay_addr = addr_a, our_id = 1, peer_id_of = 2\<rparr> addr_b)\<lparr>status := Direct\<rparr>)
          [115, 101, 99, 114, 101, 116] True = ret (Ok [(addr_a, bs)])
      \<and> drop 36 bs = [115, 101, 99, 114, 101, 116]"
  using path_send_is_plaintext [of "[115, 101, 99, 114, 101, 116]"
      "(path_new \<lparr>relay_addr = addr_a, our_id = 1, peer_id_of = 2\<rparr> addr_b)\<lparr>status := Direct\<rparr>"]
  by (auto simp: MAX_PAYLOAD_def path_new_def)

end
