(* ===== verification/Fuzz_Targets.thy ===== *)
theory Fuzz_Targets
  imports Relay_Proto Stun
begin

text \<open>
  The fuzz targets of \<open>crates/relay-proto\<close> and \<open>crates/nat\<close>: what each does with one input. An
  \<open>unwrap\<close> of an error and a failed \<open>assert_eq!\<close> are panics; the fuzzer itself, which supplies the
  inputs, is not modelled.
\<close>

definition assert_that :: "bool \<Rightarrow> unit panics" where
  "assert_that b = (if b then ret () else panic)"

definition fuzz_frame_decode :: "bytes \<Rightarrow> unit panics" where
  "fuzz_frame_decode data = do { _ \<leftarrow> Relay_Proto.decode data; ret () }"

definition fuzz_frame_roundtrip :: "bytes \<Rightarrow> unit panics" where
  "fuzz_frame_roundtrip data = do {
     r \<leftarrow> Relay_Proto.decode data;
     case r of
       Err _ \<Rightarrow> ret ()
     | Ok frame \<Rightarrow>
         (case Relay_Proto.encode frame of
            Err _ \<Rightarrow> ret ()
          | Ok encoded \<Rightarrow> do {
              r2 \<leftarrow> Relay_Proto.decode encoded;
              case r2 of
                Err _ \<Rightarrow> panic
              | Ok decoded2 \<Rightarrow> do {
                  _ \<leftarrow> assert_that (sender_id frame = sender_id decoded2);
                  _ \<leftarrow> assert_that (target_id frame = target_id decoded2);
                  _ \<leftarrow> assert_that (msg_type frame = msg_type decoded2);
                  assert_that (payload frame = payload decoded2) } }) }"

definition fuzz_stun_parse :: "bytes \<Rightarrow> unit panics" where
  "fuzz_stun_parse data = fuzz_stun_response data"

text \<open>
  No input makes a fuzz target panic: the frame decoder and the STUN parser return on every
  byte sequence, and every frame that decodes and can be encoded again decodes to itself.
\<close>

theorem fuzz_targets_never_panic:
  "fuzz_frame_decode data = ret () \<and> fuzz_frame_roundtrip data = ret () \<and> fuzz_stun_parse data = ret ()"
proof (intro conjI)
  show "fuzz_frame_decode data = ret ()" by (simp add: fuzz_frame_decode_def decode_total)
  have "Relay_Proto.decode encoded = ret (Ok frame)" if "Relay_Proto.encode frame = Ok encoded" for frame encoded
    using that by (rule decode_encode)
  then show "fuzz_frame_roundtrip data = ret ()"
    by (simp add: fuzz_frame_roundtrip_def decode_total assert_that_def split: sum.split)
  show "fuzz_stun_parse data = ret ()"
    using stun_client_no_panic by (simp add: fuzz_stun_parse_def)
qed

end
