(* ===== verification/Unit_Tests.thy ===== *)
theory Unit_Tests
  imports Fuzz_Targets Acl Relay_Proto Relay_Pool Tunnel Punch_Pair
begin

text \<open>
  The unit tests of the crates under \<open>src/crates\<close>, one definition per test function, run on
  the model: a failed assertion and an \<open>unwrap\<close> of an error are panics. What a test draws at random
  (ids, key pairs, transaction ids, ports) is an argument, so a test that passes here passes for
  every draw. They check the model against what the authors expect of the code.
\<close>

section \<open>Assertions\<close>

definition unwrap :: "'e + 'a \<Rightarrow> 'a panics" where
  "unwrap r = (case r of Ok x \<Rightarrow> ret x | Err _ \<Rightarrow> panic)"

lemma assert_that_simps [simp]: "assert_that True = ret ()" "assert_that False = panic" "assert_that b = ret u \<longleftrightarrow> b"
  by (simp_all add: assert_that_def)

lemma unwrap_simps [simp]: "unwrap (Ok x) = ret x" "unwrap (Err e) = panic"
  by (simp_all add: unwrap_def)

definition ascii :: "string \<Rightarrow> bytes" where
  "ascii s = map of_char s"

section \<open>\<open>crates/relay-proto\<close>\<close>

definition hello_roundtrip :: "peer_id \<Rightarrow> unit panics" where
  "hello_roundtrip i = do {
     encoded \<leftarrow> unwrap (encode (frame_hello i));
     r \<leftarrow> decode encoded;
     decoded \<leftarrow> unwrap r;
     assert_that (sender_id decoded = i);
     assert_that (target_id decoded = uuid_nil);
     assert_that (msg_type decoded = Hello);
     assert_that (payload decoded = []) }"

definition data_roundtrip :: "peer_id \<Rightarrow> peer_id \<Rightarrow> unit panics" where
  "data_roundtrip alice bob = do {
     let p = replicate 256 0xAA;
     encoded \<leftarrow> unwrap (encode (frame_data alice bob p));
     r \<leftarrow> decode encoded;
     decoded \<leftarrow> unwrap r;
     assert_that (sender_id decoded = alice);
     assert_that (target_id decoded = bob);
     assert_that (msg_type decoded = Data);
     assert_that (payload decoded = p) }"

definition payload_too_large :: "peer_id \<Rightarrow> unit panics" where
  "payload_too_large i = assert_that (\<not> is_ok (encode (frame_data i i (replicate (MAX_PAYLOAD + 1) 0))))"

definition decode_truncated :: "unit panics" where
  "decode_truncated = do {
     a \<leftarrow> decode [0x01];
     assert_that (\<not> is_ok a);
     b \<leftarrow> decode (replicate 35 0);
     assert_that (\<not> is_ok b) }"

definition decode_bad_version :: "unit panics" where
  "decode_bad_version = do {
     r \<leftarrow> decode ((replicate HEADER_LEN 0)[0 := 0xFF]);
     assert_that (\<not> is_ok r) }"

definition decode_bad_type :: "unit panics" where
  "decode_bad_type = do {
     r \<leftarrow> decode ((replicate HEADER_LEN 0)[0 := PROTO_VERSION, 1 := 0xFF]);
     assert_that (\<not> is_ok r) }"

lemma relay_proto_tests:
  "hello_roundtrip i = ret ()" "data_roundtrip i j = ret ()" "payload_too_large i = ret ()"
  "decode_truncated = ret ()" "decode_bad_version = ret ()" "decode_bad_type = ret ()"
proof -
  have rt: "decode bs = ret (Ok f)" if "encode f = Ok bs" for f bs
    using wire_frame_encoded [OF that] by (simp add: decode_total)
  obtain bs where bs: "encode (frame_data i j (replicate 256 0xAA)) = Ok bs"
    using encode_Ok_iff [of "frame_data i j (replicate 256 0xAA)"] by (auto simp: frame_data_def MAX_PAYLOAD_def)
  from rt [OF bs] bs show "data_roundtrip i j = ret ()" by (simp add: data_roundtrip_def frame_data_def)
  from rt [OF hello_encoded] hello_encoded show "hello_roundtrip i = ret ()"
    by (simp add: hello_roundtrip_def frame_hello_def)
  show "payload_too_large i = ret ()" by (simp add: payload_too_large_def encode_def frame_data_def)
  show "decode_truncated = ret ()" "decode_bad_version = ret ()" "decode_bad_type = ret ()"
    by (simp_all add: decode_truncated_def decode_bad_version_def decode_bad_type_def decode_total wire_ok_def
        msg_type_from_byte_def PROTO_VERSION_def nth_list_update)
qed

section \<open>\<open>crates/core\<close>\<close>

text \<open>\<open>pkt[i..].copy_from_slice\<close>, inside the packet.\<close>

definition put :: "nat \<Rightarrow> bytes \<Rightarrow> bytes \<Rightarrow> bytes" where
  "put i bs pkt = take i pkt @ bs @ drop (i + length bs) pkt"

definition packet_parse_ipv4_tcp :: "unit panics" where
  "packet_parse_ipv4_tcp = do {
     let pkt = (replicate 40 0)[0 := 0x45, 9 := 6];
     let pkt = put 12 [10, 0, 0, 1] pkt;
     let pkt = put 16 [10, 0, 0, 2] pkt;
     let pkt = put 20 (u16_be 12345) pkt;
     let pkt = put 22 (u16_be 80) pkt;
     parsed \<leftarrow> packet_parse pkt;
     info \<leftarrow> parsed;
     assert_that (pkt_src_ip info = ipv4_new 10 0 0 1);
     assert_that (pkt_src_port info = 12345);
     assert_that (pkt_dst_port info = 80) }"

definition acl_deny_ssh :: "unit panics" where
  "acl_deny_ssh = do {
     let rules = [\<lparr>priority = 10, action = ''deny'', rule_src_ip = [], rule_dst_ip = [],
                    rule_protocol = ''tcp'', rule_src_port = 0, rule_dst_port = 22\<rparr>];
     let pkt = (replicate 40 0)[0 := 0x45, 9 := 6];
     let pkt = put 12 [10, 0, 0, 1] pkt;
     let pkt = put 16 [10, 0, 0, 2] pkt;
     let pkt = put 22 (u16_be 22) pkt;
     v \<leftarrow> evaluate_acls rules pkt;
     assert_that (v = ''deny'') }"

definition acl_allow_default :: "unit panics" where
  "acl_allow_default = do {
     v \<leftarrow> evaluate_acls [] (replicate 40 0);
     assert_that (v = ''allow'') }"

lemma ihl_0x45: "ihl_bytes 0x45 = 20"
  by code_simp

lemma zeros_40: "replicate 40 (0 :: u8) = [0, 0, 0, 0, 0, 0, 0, 0, 0, 0, 0, 0, 0, 0, 0, 0, 0, 0, 0, 0, 0, 0, 0, 0] @ replicate 16 0"
  by (simp add: numeral_eq_Suc)

lemma core_tests: "packet_parse_ipv4_tcp = ret ()" "acl_deny_ssh = ret ()" "acl_allow_default = ret ()"
proof -
  have p1: "put 22 (u16_be 80) (put 20 (u16_be 12345) (put 16 [10, 0, 0, 2] (put 12 [10, 0, 0, 1] ((replicate 40 0)[0 := 0x45, 9 := 6]))))
      = [0x45, 0, 0, 0, 0, 0, 0, 0, 0, 6, 0, 0, 10, 0, 0, 1, 10, 0, 0, 2, 48, 57, 0, 80] @ replicate 16 0"
    by (simp add: put_def u16_be_def zeros_40)
  show "packet_parse_ipv4_tcp = ret ()"
    unfolding packet_parse_ipv4_tcp_def Let_def p1
    by (simp add: packet_parse_def ihl_0x45 Let_def ipv4_new_def u16_of_be_def be_val_def)
  have p2: "put 22 (u16_be 22) (put 16 [10, 0, 0, 2] (put 12 [10, 0, 0, 1] ((replicate 40 0)[0 := 0x45, 9 := 6])))
      = [0x45, 0, 0, 0, 0, 0, 0, 0, 0, 6, 0, 0, 10, 0, 0, 1, 10, 0, 0, 2, 0, 0, 0, 22] @ replicate 16 0"
    by (simp add: put_def u16_be_def zeros_40)
  show "acl_deny_ssh = ret ()"
    unfolding acl_deny_ssh_def Let_def p2
    by (simp add: evaluate_acls_def packet_parse_def ihl_0x45 Let_def rule_matches_def proto_number_def ip_excluded_def verdict_def u16_of_be_def be_val_def)
  show "acl_allow_default = ret ()"
    by (simp add: acl_allow_default_def evaluate_acls_def packet_parse_def)
qed

section \<open>\<open>crates/nat\<close>: the NAT types\<close>

definition test_nat_type_display :: "unit panics" where
  "test_nat_type_display = do {
     assert_that (nat_type_display FullCone = ''Full Cone'');
     assert_that (nat_type_display Symmetric = ''Symmetric'');
     assert_that (nat_type_display Open = ''Open (no NAT)'') }"

definition p2p_support :: "unit panics" where
  "p2p_support = do {
     assert_that (supports_p2p FullCone);
     assert_that (supports_p2p RestrictedCone);
     assert_that (supports_p2p PortRestrictedCone);
     assert_that (\<not> supports_p2p Symmetric);
     assert_that (supports_p2p Open);
     assert_that (\<not> supports_p2p Unknown) }"

definition relay_need :: "unit panics" where
  "relay_need = do {
     assert_that (needs_relay Symmetric);
     assert_that (needs_relay Unknown);
     assert_that (\<not> needs_relay PortRestrictedCone);
     assert_that (\<not> needs_relay Open) }"

lemma nat_type_tests: "test_nat_type_display = ret ()" "p2p_support = ret ()" "relay_need = ret ()"
  by (simp_all add: test_nat_type_display_def p2p_support_def relay_need_def supports_p2p_def needs_relay_def)

section \<open>\<open>crates/tunnel\<close>: the relay pool\<close>

text \<open>\<open>net\<close>: what the two probes meet.\<close>

definition relay_pool_selection ::
  "socket_addr \<Rightarrow> socket_addr \<Rightarrow> (nat \<Rightarrow> nat \<times> probe_outcome) \<Rightarrow> unit panics" where
  "relay_pool_selection addr0 addr1 net = do {
     pool \<leftarrow> pool_new [addr0, addr1];
     assert_that (pool_len pool = 2);
     a \<leftarrow> active_addr pool;
     assert_that (a = addr0);
     let pool = probe_all net pool;
     s0 \<leftarrow> idx (servers pool) 0;
     assert_that (failures s0 > 0 \<or> \<not> healthy s0);
     s1 \<leftarrow> idx (servers pool) 1;
     assert_that (failures s1 > 0 \<or> \<not> healthy s1);
     (_, pool) \<leftarrow> failover pool;
     assert_that (active pool = 0) }"

definition test_relay_summary :: "socket_addr \<Rightarrow> unit panics" where
  "test_relay_summary addr = do {
     pool \<leftarrow> pool_new [addr];
     let summary = pool_summary pool;
     assert_that (length summary = 1);
     s \<leftarrow> idx summary 0;
     assert_that (sum_addr s = addr);
     assert_that (sum_healthy s);
     assert_that (sum_active s) }"

lemma relay_pool_tests:
  "(\<And>i. snd (net i) = NoAnswer) \<Longrightarrow> relay_pool_selection a b net = ret ()"
  "test_relay_summary a = ret ()"
proof -
  assume silent: "\<And>i. snd (net i) = NoAnswer"
  obtain t0 t1 where net: "net 0 = (t0, NoAnswer)" "net (Suc 0) = (t1, NoAnswer)"
    using silent by (metis prod.collapse)
  show "relay_pool_selection a b net = ret ()"
    by (simp add: relay_pool_selection_def pool_new_def pool_len_def active_addr_def relay_server_new_def
        probe_all_def net probe_server_def select_best_def select_turn_def failover_def Let_def)
qed (simp add: test_relay_summary_def pool_new_def pool_summary_def relay_server_new_def)

section \<open>\<open>crates/crypto\<close>\<close>

text \<open>
  What the tests rely on of the cipher: under a 12-byte nonce ChaCha20-Poly1305 encrypts every
  plaintext up to the limit of RFC 8439, \<open>2^38 - 64\<close> bytes; the error of the call is for longer ones.
\<close>

abbreviation P_MAX :: nat where "P_MAX \<equiv> 274877906880"

definition aead_accepts :: "seal_fn \<Rightarrow> bool" where
  "aead_accepts seal \<longleftrightarrow> (\<forall>k n p. length n = NONCE_LEN \<and> length p \<le> P_MAX \<longrightarrow> seal k n p \<noteq> None)"

lemma accepted: "aead_accepts seal \<Longrightarrow> length p \<le> P_MAX \<Longrightarrow> \<exists>c. seal k (nonce_of n) p = Some c"
  by (simp add: aead_accepts_def)

definition key_exchange_and_encrypt_decrypt ::
  "('k \<Rightarrow> bytes) \<Rightarrow> ('k \<Rightarrow> bytes \<Rightarrow> bytes) \<Rightarrow> seal_fn \<Rightarrow> seal_fn \<Rightarrow> 'k \<Rightarrow> 'k \<Rightarrow> unit panics" where
  "key_exchange_and_encrypt_decrypt pub dh seal unseal sa sb = do {
     let alice = generate pub sa;
     let bob = generate pub sb;
     let alice_shared = diffie_hellman dh alice (public_key_bytes bob);
     let bob_shared = diffie_hellman dh bob (public_key_bytes alice);
     assert_that (alice_shared = bob_shared);
     let msg = ascii ''hello encrypted world'';
     encrypted \<leftarrow> unwrap (fst (cipher_encrypt seal (cipher_new alice_shared 0) msg));
     decrypted \<leftarrow> unwrap (cipher_decrypt unseal (cipher_new bob_shared 0) encrypted);
     assert_that (decrypted = msg) }"

definition wrong_key_fails_decryption ::
  "('k \<Rightarrow> bytes) \<Rightarrow> ('k \<Rightarrow> bytes \<Rightarrow> bytes) \<Rightarrow> seal_fn \<Rightarrow> seal_fn \<Rightarrow> 'k \<Rightarrow> 'k \<Rightarrow> 'k \<Rightarrow> unit panics" where
  "wrong_key_fails_decryption pub dh seal unseal sa sb se = do {
     let bob_pub = public_key_bytes (generate pub sb);
     let alice_shared = diffie_hellman dh (generate pub sa) bob_pub;
     let eve_shared = diffie_hellman dh (generate pub se) bob_pub;
     encrypted \<leftarrow> unwrap (fst (cipher_encrypt seal (cipher_new alice_shared 0) (ascii ''secret message'')));
     assert_that (\<not> is_ok (cipher_decrypt unseal (cipher_new eve_shared 0) encrypted)) }"

definition nonce_increments :: "seal_fn \<Rightarrow> seal_fn \<Rightarrow> unit panics" where
  "nonce_increments seal unseal = do {
     let key = replicate KEY_LEN 0;
     let (r1, cipher) = cipher_encrypt seal (cipher_new key 0) (ascii ''msg1'');
     c1 \<leftarrow> unwrap r1;
     let (r2, cipher) = cipher_encrypt seal cipher (ascii ''msg2'');
     c2 \<leftarrow> unwrap r2;
     assert_that (take NONCE_LEN c1 \<noteq> take NONCE_LEN c2);
     let rx = cipher_new key 0;
     d1 \<leftarrow> unwrap (cipher_decrypt unseal rx c1);
     assert_that (d1 = ascii ''msg1'');
     d2 \<leftarrow> unwrap (cipher_decrypt unseal rx c2);
     assert_that (d2 = ascii ''msg2'') }"

definition truncated_packet_fails :: "seal_fn \<Rightarrow> seal_fn \<Rightarrow> unit panics" where
  "truncated_packet_fails seal unseal = do {
     let key = replicate KEY_LEN 0;
     encrypted \<leftarrow> unwrap (fst (cipher_encrypt seal (cipher_new key 0) (ascii ''test'')));
     assert_that (\<not> is_ok (cipher_decrypt unseal (cipher_new key 0) (take 10 encrypted))) }"

lemma encrypts:
  assumes "aead_accepts seal" and "aead_ok seal unseal" and "length p \<le> P_MAX"
  obtains pkt where "cipher_encrypt seal tx p = (Ok pkt, tx\<lparr>sc_counter := sc_counter tx + 1\<rparr>)"
    and "length pkt = length p + 28" and "take NONCE_LEN pkt = nonce_of (sc_counter tx)"
    and "\<And>rx. sc_key rx = sc_key tx \<Longrightarrow> cipher_decrypt unseal rx pkt = Ok p"
proof -
  obtain c where c: "seal (sc_key tx) (nonce_of (sc_counter tx)) p = Some c"
    using accepted [OF assms(1,3)] by blast
  then have enc: "cipher_encrypt seal tx p
      = (Ok (nonce_of (sc_counter tx) @ c), tx\<lparr>sc_counter := sc_counter tx + 1\<rparr>)"
    by (simp add: cipher_encrypt_eq)
  have "cipher_decrypt unseal rx (nonce_of (sc_counter tx) @ c) = Ok p
      \<and> length (nonce_of (sc_counter tx) @ c) = length p + 28" if "sc_key rx = sc_key tx" for rx
    using encrypt_decrypt_roundtrip_fact [OF assms(2) that enc] by simp
  with enc show ?thesis by (intro that [of "nonce_of (sc_counter tx) @ c"]) auto
qed

lemma crypto_tests:
  assumes "dh_ok pub dh" and "aead_accepts seal" and "aead_ok seal unseal"
  shows "key_exchange_and_encrypt_decrypt pub dh seal unseal sa sb = ret ()"
    and "nonce_increments seal unseal = ret ()" and "truncated_packet_fails seal unseal = ret ()"
proof -
  have agree: "dh sb (pub sa) = dh sa (pub sb)" using assms(1) by (simp add: dh_ok_def)
  show "key_exchange_and_encrypt_decrypt pub dh seal unseal sa sb = ret ()"
    by (rule encrypts [OF assms(2,3), where p = "ascii ''hello encrypted world''" and tx = "cipher_new (dh sa (pub sb)) 0"], simp add: ascii_def)
       (simp add: key_exchange_and_encrypt_decrypt_def generate_def diffie_hellman_def public_key_bytes_def
          cipher_new_def agree)
  show "truncated_packet_fails seal unseal = ret ()"
    by (rule encrypts [OF assms(2,3), where p = "ascii ''test''" and tx = "cipher_new (replicate KEY_LEN 0) 0"], simp add: ascii_def)
       (simp add: truncated_packet_fails_def decrypt_short)
  let ?c = "cipher_new (replicate KEY_LEN 0) 0"
  let ?c' = "?c\<lparr>sc_counter := sc_counter ?c + 1\<rparr>"
  obtain p1 where p1: "cipher_encrypt seal ?c (ascii ''msg1'') = (Ok p1, ?c')" "take NONCE_LEN p1 = nonce_of 0"
      "cipher_decrypt unseal ?c p1 = Ok (ascii ''msg1'')"
    by (rule encrypts [OF assms(2,3), where p = "ascii ''msg1''" and tx = ?c], simp add: ascii_def)
       (auto simp: cipher_new_def)
  obtain p2 c2 where p2: "cipher_encrypt seal ?c' (ascii ''msg2'') = (Ok p2, c2)" "take NONCE_LEN p2 = nonce_of 1"
      "cipher_decrypt unseal ?c p2 = Ok (ascii ''msg2'')"
    by (rule encrypts [OF assms(2,3), where p = "ascii ''msg2''" and tx = ?c'], simp add: ascii_def)
       (auto simp: cipher_new_def)
  show "nonce_increments seal unseal = ret ()"
    unfolding nonce_increments_def Let_def p1(1) prod.case unwrap_simps Option.bind.simps p2(1)
    using p1(2,3) p2(2,3) by simp
qed

text \<open>The test with the wrong key asks the AEAD to refuse it.\<close>

lemma wrong_key_test:
  assumes "aead_accepts seal" and "dh sa (pub sb) \<noteq> dh se (pub sb)"
    and "\<forall>k k' n p c. k' \<noteq> k \<longrightarrow> seal k n p = Some c \<longrightarrow> unseal k' n c = None"
  shows "wrong_key_fails_decryption pub dh seal unseal sa sb se = ret ()"
proof -
  obtain c where c: "seal (dh sa (pub sb)) (nonce_of 0) (ascii ''secret message'') = Some c"
    using accepted [OF assms(1)] by (fastforce simp: ascii_def)
  then have "unseal (dh se (pub sb)) (nonce_of 0) c = None" using assms(2,3) by metis
  with c show ?thesis
    by (simp add: wrong_key_fails_decryption_def generate_def diffie_hellman_def public_key_bytes_def
        cipher_new_def cipher_encrypt_eq cipher_decrypt_def)
qed

section \<open>\<open>crates/nat\<close>: STUN\<close>

text \<open>The response builder of the tests, for an IPv4 or IPv6 address.\<close>

definition build_success_response :: "bytes \<Rightarrow> socket_addr \<Rightarrow> bytes" where
  "build_success_response tx_id mapped =
     (let attr = u16_be ATTR_XOR_MAPPED_ADDRESS @ u16_be 8 @ [0x00] @ [IPV4_FAMILY]
                 @ u16_be (addr_port mapped XOR cookie_port)
                 @ (case addr_ip mapped of
                      V4 ip \<Rightarrow> u32_be (u32_of_be (ipv4_octets ip) XOR MAGIC_COOKIE)
                    | V6 _ \<Rightarrow> [])
      in u16_be BINDING_SUCCESS @ u16_be (of_nat (length attr)) @ u32_be MAGIC_COOKIE @ tx_id @ attr)"

text \<open>\<open>"1.2.3.4:5678".parse()\<close> and the other constants are written as addresses.\<close>

definition decode_success_response :: "bytes \<Rightarrow> unit panics" where
  "decode_success_response tx_id = do {
     let mapped = SocketAddr (V4 (ipv4_new 1 2 3 4)) 5678;
     let response = build_success_response tx_id mapped;
     r \<leftarrow> parse_response response;
     (ty, resp_tx_id, attrs) \<leftarrow> unwrap r;
     assert_that (ty = BINDING_SUCCESS);
     assert_that (resp_tx_id = tx_id);
     a \<leftarrow> parse_xor_mapped_address attrs;
     addr \<leftarrow> a;
     assert_that (addr = mapped) }"

definition roundtrip_case :: "socket_addr \<Rightarrow> unit panics" where
  "roundtrip_case addr = do {
     r \<leftarrow> parse_response (build_success_response (replicate 12 0) addr);
     (_, _, attrs) \<leftarrow> unwrap r;
     a \<leftarrow> parse_xor_mapped_address attrs;
     parsed \<leftarrow> a;
     assert_that (parsed = addr) }"

definition parse_xor_mapped_address_roundtrip :: "unit panics" where
  "parse_xor_mapped_address_roundtrip = do {
     roundtrip_case (SocketAddr (V4 (ipv4_new 1 2 3 4)) 5678);
     roundtrip_case (SocketAddr (V4 (ipv4_new 192 168 1 1)) 12345);
     roundtrip_case (SocketAddr (V4 (ipv4_new 10 0 0 1)) 9) }"

text \<open>The tests build what the server builds.\<close>

lemma build_success_response_server:
  "build_success_response tx (SocketAddr (V4 ip) port)
     = success_response tx (server_attrs (SocketAddr (V4 ip) port))"
  by (simp add: build_success_response_def success_response_def server_attrs_def build_xor_mapped_v4_def
      IPV4_FAMILY_def Let_def)

lemma built_response_parsed:
  assumes "length tx = 12"
  shows "parse_response (build_success_response tx (SocketAddr (V4 ip) port))
      = ret (Ok (BINDING_SUCCESS, tx, server_attrs (SocketAddr (V4 ip) port)))"
proof -
  have "length (server_attrs (SocketAddr (V4 ip) port)) = 12" by (simp add: server_attrs_def)
  with assms have "take STUN_BUF (build_success_response tx (SocketAddr (V4 ip) port))
      = build_success_response tx (SocketAddr (V4 ip) port)"
    by (simp add: build_success_response_server success_response_def STUN_BUF_def)
  then show ?thesis
    using stun_server.reply_parsed [OF assms, of "SocketAddr (V4 ip) port"]
    by (simp add: build_success_response_server)
qed

lemma stun_tests:
  "length tx = 12 \<Longrightarrow> decode_success_response tx = ret ()"
  "parse_xor_mapped_address_roundtrip = ret ()"
  by (simp_all add: decode_success_response_def parse_xor_mapped_address_roundtrip_def roundtrip_case_def
      built_response_parsed stun_server.attrs_v4)

section \<open>\<open>crates/nat\<close>: the detector\<close>

text \<open>The STUN server of the test: it answers every datagram of 20 bytes from an IPv4 client.\<close>

definition build_response :: "bytes \<Rightarrow> socket_addr \<Rightarrow> bytes option panics" where
  "build_response data client =
     (if length data < 20 then ret None
      else do {
        tx_id \<leftarrow> slice data 8 20;
        (case addr_ip client of
           V6 _ \<Rightarrow> ret None
         | V4 ip \<Rightarrow>
             (let attr = u16_be 0x0020 @ u16_be 8 @ [0x00] @ [0x01]
                         @ u16_be (addr_port client XOR ucast (drop_bit 16 (0x2112A442 :: u32)))
                         @ u32_be (u32_of_be (ipv4_octets ip) XOR 0x2112A442)
              in ret (Some (u16_be 0x0101 @ u16_be (of_nat (length attr)) @ u32_be 0x2112A442
                            @ tx_id @ attr)))) })"

text \<open>
  A socket bound to the unspecified address with some port; the server of the test is on the same
  host and sees the loopback address with that port.
\<close>

definition detect_open_internet :: "bytes \<Rightarrow> u16 \<Rightarrow> unit panics" where
  "detect_open_internet tx_id port = do {
     rsp \<leftarrow> build_response (build_binding_request tx_id) (SocketAddr (V4 (ipv4_new 127 0 0 1)) port);
     r \<leftarrow> detect (Some (SocketAddr (V4 0) port)) tx_id True rsp;
     t \<leftarrow> unwrap r;
     assert_that (t = Open) }"

lemma build_response_server:
  assumes "length tx = 12"
  shows "build_response (build_binding_request tx) (SocketAddr (V4 ip) port)
      = handle_binding_request (build_binding_request tx) (SocketAddr (V4 ip) port)"
  unfolding stun_server.answers [OF assms]
  using assms by (simp add: build_response_def success_response_def server_attrs_def build_xor_mapped_v4_def
      build_binding_request_def Let_def BINDING_SUCCESS_def MAGIC_COOKIE_def ATTR_XOR_MAPPED_ADDRESS_def cookie_port_def)

lemma detector_test:
  assumes "length tx = 12"
  shows "detect_open_internet tx port = ret ()"
proof -
  obtain reply where reply: "handle_binding_request (build_binding_request tx) (SocketAddr (V4 (ipv4_new 127 0 0 1)) port) = ret (Some reply)"
    using stun_server.answers [OF assms] by blast
  have "normalize_ip (V4 0) = normalize_ip (V4 (ipv4_new 127 0 0 1))"
    by (simp add: normalize_ip_def ipv4_new_def u32_of_be_def be_val_def)
  with detect_against_server [OF assms reply, of "SocketAddr (V4 0) port"] reply show ?thesis
    by (auto simp: detect_open_internet_def build_response_server [OF assms])
qed

section \<open>\<open>crates/tunnel\<close>: the tunnel\<close>

text \<open>The loopback network hands over the first datagram, from the address of its sender.\<close>

definition handed_over :: "socket_addr \<Rightarrow> datagram list \<Rightarrow> (bytes \<times> socket_addr) option" where
  "handed_over src out = (case out of [] \<Rightarrow> None | (_, bs) # _ \<Rightarrow> Some (bs, src))"

definition two_node_encrypted_exchange ::
  "('k \<Rightarrow> bytes) \<Rightarrow> ('k \<Rightarrow> bytes \<Rightarrow> bytes) \<Rightarrow> seal_fn \<Rightarrow> seal_fn \<Rightarrow> 'k \<Rightarrow> 'k
     \<Rightarrow> socket_addr \<Rightarrow> socket_addr \<Rightarrow> unit panics" where
  "two_node_encrypted_exchange pub dh seal unseal sa sb alice_addr bob_addr = do {
     let shared = diffie_hellman dh (generate pub sa) (public_key_bytes (generate pub sb));
     alice \<leftarrow> unwrap (bind_initiator True shared);
     bob \<leftarrow> unwrap (bind_responder True shared);
     let msg = ascii ''hello from alice'';
     let (sent, alice, out) = tunnel_send_to seal alice msg bob_addr True;
     _ \<leftarrow> unwrap sent;
     (received, sender) \<leftarrow> unwrap (tunnel_recv_from unseal bob (handed_over alice_addr out));
     assert_that (received = msg);
     assert_that (sender = alice_addr);
     let msg = ascii ''echo from bob'';
     let (sent, bob, out) = tunnel_send_to seal bob msg alice_addr True;
     _ \<leftarrow> unwrap sent;
     (received, sender) \<leftarrow> unwrap (tunnel_recv_from unseal alice (handed_over bob_addr out));
     assert_that (received = msg);
     assert_that (sender = bob_addr) }"

fun packets_in_order ::
  "seal_fn \<Rightarrow> seal_fn \<Rightarrow> socket_addr \<Rightarrow> socket_addr \<Rightarrow> u8 list \<Rightarrow> tunnel \<Rightarrow> tunnel \<Rightarrow> unit panics" where
  "packets_in_order seal unseal alice_addr bob_addr [] alice bob = ret ()"
| "packets_in_order seal unseal alice_addr bob_addr (i # is) alice bob = do {
     let msg = replicate 16 i;
     let (sent, alice, out) = tunnel_send_to seal alice msg bob_addr True;
     _ \<leftarrow> unwrap sent;
     (received, _) \<leftarrow> unwrap (tunnel_recv_from unseal bob (handed_over alice_addr out));
     assert_that (received = msg);
     packets_in_order seal unseal alice_addr bob_addr is alice bob }"

definition multiple_packets_in_order ::
  "('k \<Rightarrow> bytes) \<Rightarrow> ('k \<Rightarrow> bytes \<Rightarrow> bytes) \<Rightarrow> seal_fn \<Rightarrow> seal_fn \<Rightarrow> 'k \<Rightarrow> 'k
     \<Rightarrow> socket_addr \<Rightarrow> socket_addr \<Rightarrow> unit panics" where
  "multiple_packets_in_order pub dh seal unseal sa sb alice_addr bob_addr = do {
     let shared = diffie_hellman dh (generate pub sa) (public_key_bytes (generate pub sb));
     alice \<leftarrow> unwrap (bind_initiator True shared);
     bob \<leftarrow> unwrap (bind_responder True shared);
     packets_in_order seal unseal alice_addr bob_addr [0, 1, 2, 3, 4, 5, 6, 7, 8, 9] alice bob }"

definition wrong_key_rejected ::
  "('k \<Rightarrow> bytes) \<Rightarrow> ('k \<Rightarrow> bytes \<Rightarrow> bytes) \<Rightarrow> seal_fn \<Rightarrow> seal_fn \<Rightarrow> 'k \<Rightarrow> 'k \<Rightarrow> 'k \<Rightarrow> 'k
     \<Rightarrow> socket_addr \<Rightarrow> socket_addr \<Rightarrow> unit panics" where
  "wrong_key_rejected pub dh seal unseal sa sb se sf alice_addr eve_addr = do {
     let shared = diffie_hellman dh (generate pub sa) (public_key_bytes (generate pub sb));
     let eve_shared = diffie_hellman dh (generate pub sf) (public_key_bytes (generate pub se));
     alice \<leftarrow> unwrap (bind_initiator True shared);
     eve \<leftarrow> unwrap (bind_responder True eve_shared);
     let (sent, alice, out) = tunnel_send_to seal alice (ascii ''secret'') eve_addr True;
     _ \<leftarrow> unwrap sent;
     assert_that (\<not> is_ok (tunnel_recv_from unseal eve (handed_over alice_addr out))) }"

lemma tunnel_sends:
  assumes "aead_accepts seal" and "aead_ok seal unseal" and "length p \<le> 100"
  obtains out a' where "tunnel_send_to seal a p addr True = (Ok (length p), a', out)"
    and "sc_key (tx_cipher a') = sc_key (tx_cipher a)" and "rx_cipher a' = rx_cipher a"
    and "\<And>b src. sc_key (rx_cipher b) = sc_key (tx_cipher a)
           \<Longrightarrow> tunnel_recv_from unseal b (handed_over src out) = Ok (p, src)"
proof (rule encrypts [OF assms(1,2) order_trans [OF assms(3)], where tx = "tx_cipher a"])
  show "(100 :: nat) \<le> P_MAX" by simp
next
  fix pkt
  assume pkt: "cipher_encrypt seal (tx_cipher a) p = (Ok pkt, (tx_cipher a)\<lparr>sc_counter := sc_counter (tx_cipher a) + 1\<rparr>)"
    "length pkt = length p + 28" "\<And>rx. sc_key rx = sc_key (tx_cipher a) \<Longrightarrow> cipher_decrypt unseal rx pkt = Ok p"
  have "take MAX_PACKET pkt = pkt" using pkt(2) assms(3) by (simp add: MAX_PACKET_def)
  with pkt show ?thesis
    by (intro that [of "a\<lparr>tx_cipher := (tx_cipher a)\<lparr>sc_counter := sc_counter (tx_cipher a) + 1\<rparr>\<rparr>" "[(addr, pkt)]"])
       (simp_all add: tunnel_send_to_def handed_over_def tunnel_recv_from_def)
qed

lemma packets_in_order_pass:
  assumes "aead_accepts seal" and "aead_ok seal unseal" and "sc_key (rx_cipher bob) = sc_key (tx_cipher alice)"
  shows "packets_in_order seal unseal alice_addr bob_addr is alice bob = ret ()"
  using assms(3)
proof (induction "is" arbitrary: alice)
  case (Cons i "is")
  have "length (replicate 16 i) \<le> 100" by simp
  from tunnel_sends [OF assms(1,2) this, of alice bob_addr] obtain out a' where
      s: "tunnel_send_to seal alice (replicate 16 i) bob_addr True = (Ok (length (replicate 16 i)), a', out)"
      "sc_key (tx_cipher a') = sc_key (tx_cipher alice)"
      "tunnel_recv_from unseal bob (handed_over alice_addr out) = Ok (replicate 16 i, alice_addr)"
    using Cons.prems by metis
  with Cons show ?case by (simp del: length_replicate)
qed simp

lemma tunnel_tests:
  assumes "aead_accepts seal" and "aead_ok seal unseal"
  shows "two_node_encrypted_exchange pub dh seal unseal sa sb alice_addr bob_addr = ret ()"
    and "multiple_packets_in_order pub dh seal unseal sa sb alice_addr bob_addr = ret ()"
proof -
  show "multiple_packets_in_order pub dh seal unseal sa sb alice_addr bob_addr = ret ()"
    unfolding multiple_packets_in_order_def Let_def bind_initiator_Ok bind_responder_Ok unwrap_simps Option.bind.simps
    by (rule packets_in_order_pass [OF assms]) (simp add: cipher_new_def)
  let ?k = "diffie_hellman dh (generate pub sa) (public_key_bytes (generate pub sb))"
  let ?a = "\<lparr>tx_cipher = cipher_new ?k 0, rx_cipher = cipher_new ?k 0\<rparr>"
  let ?b = "\<lparr>tx_cipher = cipher_new ?k RESPONDER_TX_OFFSET, rx_cipher = cipher_new ?k 0\<rparr>"
  have keys: "sc_key (rx_cipher ?b) = sc_key (tx_cipher ?a)" "sc_key (rx_cipher ?a) = sc_key (tx_cipher ?b)"
    by (simp_all add: cipher_new_def)
  have short: "length (ascii ''hello from alice'') \<le> 100" "length (ascii ''echo from bob'') \<le> 100"
    by (simp_all add: ascii_def)
  obtain a' out where a: "tunnel_send_to seal ?a (ascii ''hello from alice'') bob_addr True
        = (Ok (length (ascii ''hello from alice'')), a', out)" "rx_cipher a' = rx_cipher ?a"
      "tunnel_recv_from unseal ?b (handed_over alice_addr out) = Ok (ascii ''hello from alice'', alice_addr)"
    using tunnel_sends [OF assms short(1), of ?a bob_addr] keys(1) by metis
  obtain b' out' where b: "tunnel_send_to seal ?b (ascii ''echo from bob'') alice_addr True
        = (Ok (length (ascii ''echo from bob'')), b', out')"
      "tunnel_recv_from unseal a' (handed_over bob_addr out') = Ok (ascii ''echo from bob'', bob_addr)"
    using tunnel_sends [OF assms short(2), of ?b alice_addr] keys(2) a(2) by metis
  show "two_node_encrypted_exchange pub dh seal unseal sa sb alice_addr bob_addr = ret ()"
    unfolding two_node_encrypted_exchange_def Let_def bind_initiator_Ok bind_responder_Ok unwrap_simps
      Option.bind.simps a(1) a(3) b(1) b(2) prod.case
    by simp
qed

lemma wrong_key_tunnel_test:
  assumes "aead_accepts seal" and "dh sa (pub sb) \<noteq> dh sf (pub se)"
    and "\<forall>k k' n p c. k' \<noteq> k \<longrightarrow> seal k n p = Some c \<longrightarrow> unseal k' n c = None"
    and "aead_ok seal unseal"
  shows "wrong_key_rejected pub dh seal unseal sa sb se sf alice_addr eve_addr = ret ()"
proof -
  obtain c where c: "seal (dh sa (pub sb)) (nonce_of 0) (ascii ''secret'') = Some c"
    using accepted [OF assms(1)] by (fastforce simp: ascii_def)
  then have "length c = 22" using assms(4) by (auto simp: aead_ok_def ascii_def)
  moreover from c have "unseal (dh sf (pub se)) (nonce_of 0) c = None" using assms(2,3) by metis
  ultimately show ?thesis using c
    by (simp add: wrong_key_rejected_def bind_initiator_Ok bind_responder_Ok tunnel_send_to_def generate_def
        diffie_hellman_def public_key_bytes_def cipher_new_def cipher_encrypt_eq cipher_decrypt_def
        handed_over_def tunnel_recv_from_def MAX_PACKET_def)
qed

section \<open>\<open>crates/nat\<close>: hole punching\<close>

text \<open>
  The two sides of these tests run in one join, here under a sequence of their moves; after the
  punching a socket still has the datagrams that arrived before.
\<close>

definition hole_punch_simulation :: "pair_move list \<Rightarrow> socket_addr \<Rightarrow> socket_addr \<Rightarrow> unit panics" where
  "hole_punch_simulation ms a_addr b_addr = do {
     let a_token = ascii ''alice-token-42'';
     let b_token = ascii ''bob-token-07'';
     let (peer_a, peer_b) = joined_run (pair_start a_addr a_token b_addr b_token) ms;
     a_response \<leftarrow> punched peer_a;
     b_response \<leftarrow> punched peer_b;
     assert_that (a_response \<noteq> None);
     assert_that (b_response \<noteq> None);
     (a_payload, a_from) \<leftarrow> a_response;
     (b_payload, b_from) \<leftarrow> b_response;
     assert_that (a_payload = b_token);
     assert_that (a_from = b_addr);
     assert_that (b_payload = a_token);
     assert_that (b_from = a_addr) }"

definition punch_then_communicate :: "pair_move list \<Rightarrow> socket_addr \<Rightarrow> socket_addr \<Rightarrow> unit panics" where
  "punch_then_communicate ms a_addr b_addr = do {
     let (peer_a, peer_b) = joined_run (pair_start a_addr (ascii ''ping'') b_addr (ascii ''pong'')) ms;
     a_res \<leftarrow> punched peer_a;
     b_res \<leftarrow> punched peer_b;
     assert_that (a_res \<noteq> None);
     assert_that (b_res \<noteq> None);
     let (sent, out) = puncher_send_to (ascii ''hello bob'') b_addr True;
     _ \<leftarrow> sent;
     let (received, buf) = puncher_recv_from (replicate 1024 0) (next_datagram (deliver a_addr out peer_b));
     (n, sender) \<leftarrow> received;
     assert_that (take n buf = ascii ''hello bob'');
     assert_that (sender = a_addr);
     let (sent, out) = puncher_send_to (ascii ''hi alice'') a_addr True;
     _ \<leftarrow> sent;
     let (received, buf) = puncher_recv_from buf (next_datagram (deliver b_addr out peer_a));
     (n, sender) \<leftarrow> received;
     assert_that (take n buf = ascii ''hi alice'');
     assert_that (sender = b_addr) }"

lemma punch_tests:
  assumes "a_addr \<noteq> b_addr" and "in_time ms"
  shows "hole_punch_simulation ms a_addr b_addr = ret ()" and "punch_then_communicate ms a_addr b_addr = ret ()"
proof -
  show "hole_punch_simulation ms a_addr b_addr = ret ()"
    by (rule joined_in_time [OF assms, of "ascii ''alice-token-42''" "ascii ''bob-token-07''"])
       (simp add: hole_punch_simulation_def PUNCH_BUF_def ascii_def)
  show "punch_then_communicate ms a_addr b_addr = ret ()"
    by (rule joined_in_time [OF assms, of "ascii ''ping''" "ascii ''pong''"])
       (simp add: punch_then_communicate_def puncher_send_to_def puncher_recv_from_def next_datagram_def
          deliver_def ascii_def)
qed

text \<open>
  They need not pass: if one timer expires before the peer has started, an old token waits at the
  peer's socket and is what the test receives instead of the message.
\<close>

lemma late_peer_test:
  assumes "a_addr \<noteq> b_addr"
  shows "punch_then_communicate late_peer a_addr b_addr = panic"
  using assms assms [symmetric]
  by (simp add: punch_then_communicate_def late_peer_def pair_start_def punch_start_def punch_move_def punched_def
      deliver_def candidate_host_def PUNCH_BUF_def PUNCH_RETRIES_def puncher_send_to_def puncher_recv_from_def
      next_datagram_def assert_that_def ascii_def Let_def)

section \<open>All of them\<close>

text \<open>
  The model passes the unit tests of the crates, for every id, key pair, transaction id, port
  and address they draw: the tests of the relay frames, the packet parser and the ACL, the NAT
  types, the relay pool (whose probes nobody answers), the key exchange and cipher, STUN, the
  detector, the tunnel and hole punching (when no timer expires before the peer is polled).
\<close>

theorem unit_tests_pass:
  assumes "dh_ok pub dh" and "aead_accepts seal" and "aead_ok seal unseal" and "length tx = 12"
    and "\<And>i. snd (net i) = NoAnswer"
    and "a_addr \<noteq> b_addr" and "in_time ms"
  shows "list_all (\<lambda>test. test = ret ())
    [hello_roundtrip i, data_roundtrip i j, payload_too_large i,
     decode_truncated, decode_bad_version, decode_bad_type,
     packet_parse_ipv4_tcp, acl_deny_ssh, acl_allow_default,
     test_nat_type_display, p2p_support, relay_need,
     relay_pool_selection a_addr b_addr net, test_relay_summary a_addr,
     key_exchange_and_encrypt_decrypt pub dh seal unseal sa sb,
     nonce_increments seal unseal, truncated_packet_fails seal unseal,
     decode_success_response tx, parse_xor_mapped_address_roundtrip, detect_open_internet tx port,
     two_node_encrypted_exchange pub dh seal unseal sa sb a_addr b_addr,
     multiple_packets_in_order pub dh seal unseal sa sb a_addr b_addr,
     hole_punch_simulation ms a_addr b_addr, punch_then_communicate ms a_addr b_addr]"
  using relay_proto_tests core_tests nat_type_tests relay_pool_tests(1) [of net a_addr b_addr, OF assms(5)] relay_pool_tests(2)
    crypto_tests [OF assms(1-3)] stun_tests(1) [OF assms(4)] stun_tests(2) detector_test [OF assms(4)]
    tunnel_tests [OF assms(2,3), of pub dh] punch_tests [OF assms(6,7)]
  by simp

theorem unit_tests_pass_witness:
  "two_node_encrypted_exchange toy_pub toy_dh toy_seal toy_unseal 3 5 addr_a addr_b = ret ()
   \<and> hole_punch_simulation [MoveA False, MoveB False, MoveB False, MoveA False] addr_a addr_b = ret ()"
proof -
  have accepts: "aead_accepts toy_seal" by (simp add: aead_accepts_def toy_seal_def)
  have tx: "length (replicate 12 (0 :: u8)) = 12" by simp
  have net: "\<And>i. snd ((\<lambda>_. (0, NoAnswer)) (i :: nat)) = NoAnswer" by simp
  have ne: "addr_a \<noteq> addr_b" by (simp add: addr_a_def addr_b_def)
  have moves: "in_time [MoveA False, MoveB False, MoveB False, MoveA False]" by (rule in_time_example)
  from unit_tests_pass [where i = 0 and j = 0 and sa = 3 and sb = 5 and port = 0 and a_addr = addr_a and b_addr = addr_b,
      OF toy_dh_ok accepts toy_aead_ok tx net ne moves]
  show ?thesis by (simp only: list.pred_inject simp_thms)
qed

end
