(* ===== verification/Relay_Interop.thy ===== *)
theory Relay_Interop
  imports Relay_Client Session_Cipher
begin

text \<open>
  \<open>crates/tunnel/tests/e2e_interop.rs\<close>, for all inputs instead of the ones of the tests. The tests
  run their clients against a relay of their own (\<open>spawn_relay\<close>): it is compared with the relay server
  (\<open>services/relay/src/main.rs\<close>). Then the test of an encrypted tunnel over the relay: the key exchange
  of \<open>crates/crypto\<close>, the relay client of \<open>crates/tunnel\<close> and the relay server in one run.
\<close>

section \<open>The relay of the tests\<close>

record test_relay =
  tr_peers :: "peer_id \<rightharpoonup> socket_addr"
  tr_sent :: "(socket_addr \<times> bytes) list"
  tr_stopped :: bool

definition test_relay_init :: test_relay where
  "test_relay_init = \<lparr>tr_peers = Map.empty, tr_sent = [], tr_stopped = False\<rparr>"

text \<open>
  One turn of its loop. It stops when the socket fails and, by a panic of its task, when a frame
  cannot be encoded again; the result of sending is ignored.
\<close>

definition test_relay_step :: "test_relay \<Rightarrow> relay_event \<Rightarrow> test_relay" where
  "test_relay_step t e =
     (if tr_stopped t then t
      else (case e of
              RecvFail \<Rightarrow> t\<lparr>tr_stopped := True\<rparr>
            | Recv data src send_ok \<Rightarrow>
                (case decode (take RELAY_BUF data) of
                   panic \<Rightarrow> t\<lparr>tr_stopped := True\<rparr>
                 | Some (Err _) \<Rightarrow> t
                 | Some (Ok f) \<Rightarrow>
                     (if msg_type f = Hello \<or> msg_type f = Keepalive
                      then t\<lparr>tr_peers := (tr_peers t)(sender_id f \<mapsto> src)\<rparr>
                      else (case tr_peers t (target_id f) of
                              None \<Rightarrow> t
                            | Some target \<Rightarrow>
                                (case encode (frame_data (sender_id f) (target_id f) (payload f)) of
                                   Err _ \<Rightarrow> t\<lparr>tr_stopped := True\<rparr>
                                 | Ok bs \<Rightarrow>
                                     (if send_ok then t\<lparr>tr_sent := tr_sent t @ [(target, bs)]\<rparr> else t)))))))"

text \<open>What the test relay should be for a state of the server.\<close>

definition as_test_relay :: "relay_state \<Rightarrow> test_relay" where
  "as_test_relay s = \<lparr>tr_peers = peers s, tr_sent = sent s, tr_stopped = (exited s \<noteq> None)\<rparr>"

lemma exited_stays: "exited s \<noteq> None \<Longrightarrow> exited (relay_run s es) = exited s"
  by simp

lemma test_relay_step_agrees:
  assumes "exited (relay_step s e) \<noteq> Some ExitSend"
  shows "test_relay_step (as_test_relay s) e = as_test_relay (relay_step s e)"
proof (cases "exited s = None")
  case True
  show ?thesis
  proof (cases e)
    case RecvFail
    with True show ?thesis by (simp add: test_relay_step_def as_test_relay_def relay_step.simps)
  next
    case (Recv data src ok)
    show ?thesis
    proof (cases "wire_ok (take RELAY_BUF data)")
      case False
      with Recv True show ?thesis
        by (simp add: test_relay_step_def as_test_relay_def relay_step.simps decode_total)
    next
      case ok: True
      let ?f = "wire_frame (take RELAY_BUF data)"
      have step: "relay_step s e = relay_handle s src ok ?f"
        using Recv True ok by (simp add: relay_step.simps decode_total)
      show ?thesis
        using Recv True ok assms unfolding step
        by (cases ok; cases "msg_type ?f"; cases "peers s (target_id ?f)";
            cases "encode (frame_data (sender_id ?f) (target_id ?f) (payload ?f))")
           (auto simp: test_relay_step_def as_test_relay_def decode_total relay_handle.simps)
    qed
  qed
next
  case False
  then show ?thesis by (simp add: test_relay_step_def as_test_relay_def)
qed

text \<open>
  C33: The relay that the integration tests spawn is the relay server: on every sequence of
  datagrams and socket failures it has the same registrations, sends the same datagrams and stops
  exactly when the server does, unless the server has stopped because a send failed, which the
  test relay ignores.
\<close>

theorem test_relay_agrees:
  assumes "exited (relay_run relay_init es) \<noteq> Some ExitSend"
  shows "foldl test_relay_step test_relay_init es = as_test_relay (relay_run relay_init es)"
  using assms
proof (induction es rule: rev_induct)
  case Nil
  show ?case by (simp add: test_relay_init_def as_test_relay_def relay_init_def)
next
  case (snoc e es)
  have "exited (relay_run relay_init es) \<noteq> Some ExitSend"
  proof
    assume "exited (relay_run relay_init es) = Some ExitSend"
    then have "exited (relay_run relay_init (es @ [e])) = Some ExitSend" by simp
    with snoc.prems show False by contradiction
  qed
  with snoc show ?case by (simp add: test_relay_step_agrees)
qed

theorem test_relay_agrees_witness:
  "tr_peers (foldl test_relay_step test_relay_init [hello_event 7 addr_a, hello_event 8 addr_b]) 7 = Some addr_a"
proof -
  have "exited (relay_run relay_init [hello_event 7 addr_a, hello_event 8 addr_b]) \<noteq> Some ExitSend"
    by (simp add: relay_init_def)
  from test_relay_agrees [OF this] show ?thesis by (simp add: as_test_relay_def relay_init_def)
qed

section \<open>An encrypted message over the relay\<close>

definition session_of :: "('k \<Rightarrow> bytes) \<Rightarrow> ('k \<Rightarrow> bytes \<Rightarrow> bytes) \<Rightarrow> 'k \<Rightarrow> 'k \<Rightarrow> u64 \<Rightarrow> session_cipher" where
  "session_of pub dh mine theirs counter =
     cipher_new (diffie_hellman dh (generate pub mine) (public_key_bytes (generate pub theirs))) counter"

lemma session_keys_agree:
  "dh_ok pub dh \<Longrightarrow> sc_key (session_of pub dh x y c) = sc_key (session_of pub dh y x c')"
  by (simp add: session_of_def dh_ok_def cipher_new_def diffie_hellman_def generate_def public_key_bytes_def)

lemma register_pair:
  assumes "exited s = None" and "ia \<noteq> ib"
    and "client_register True True raddr ia ib = ret (Ok (a, [(to_a, hello_a)]))"
    and "client_register True True raddr ib ia = ret (Ok (b, [(to_b, hello_b)]))"
  shows "relay_run s [Recv hello_a a_addr True, Recv hello_b b_addr True]
      = s\<lparr>peers := (peers s)(ia \<mapsto> a_addr, ib \<mapsto> b_addr)\<rparr>"
    and "a = \<lparr>relay_addr = raddr, our_id = ia, peer_id_of = ib\<rparr>"
    and "b = \<lparr>relay_addr = raddr, our_id = ib, peer_id_of = ia\<rparr>"
proof -
  have "Recv hello_a a_addr True = hello_event ia a_addr" "Recv hello_b b_addr True = hello_event ib b_addr"
    using assms(3,4) by (auto simp: client_register_def hello_encoded hello_event_def)
  then show "relay_run s [Recv hello_a a_addr True, Recv hello_b b_addr True]
      = s\<lparr>peers := (peers s)(ia \<mapsto> a_addr, ib \<mapsto> b_addr)\<rparr>"
    using assms(1) by (simp del: fun_upd_apply)
  show "a = \<lparr>relay_addr = raddr, our_id = ia, peer_id_of = ib\<rparr>"
       "b = \<lparr>relay_addr = raddr, our_id = ib, peer_id_of = ia\<rparr>"
    using assms(3,4) by (auto simp: client_register_def hello_encoded)
qed

text \<open>
  C9: An encrypted message crosses the relay: two devices exchange public keys, register with a
  running relay under different ids, and one sends an encrypted packet. If the plaintext has at
  most 2020 bytes, the server sends one datagram to the other device, whose client returns the
  packet as coming from the sender and whose cipher, from any counter, decrypts it to the
  plaintext. The packet of a longer plaintext makes the sending client panic.
\<close>

theorem encrypted_over_relay:
  assumes "aead_ok seal unseal" and "dh_ok pub dh" and "exited s = None" and "ia \<noteq> ib"
    and "client_register True True raddr ia ib = ret (Ok (a, [(to_a, hello_a)]))"
    and "client_register True True raddr ib ia = ret (Ok (b, [(to_b, hello_b)]))"
    and "cipher_encrypt seal (session_of pub dh xa xb c) p = (Ok pkt, tx')"
  shows "let s1 = relay_run s [Recv hello_a a_addr True, Recv hello_b b_addr True]
         in if length p \<le> 2020
            then \<exists>bs out.
                   client_send a pkt True = ret (Ok (HEADER_LEN + length pkt, [(raddr, bs)]))
                 \<and> relay_step s1 (Recv bs src True) = s1\<lparr>sent := sent s1 @ [(b_addr, out)]\<rparr>
                 \<and> client_recv b (Ok out # rest) = ret (Received pkt ia rest)
                 \<and> cipher_decrypt unseal (session_of pub dh xb xa c') pkt = Ok p
            else client_send a pkt True = panic"
proof -
  note pair = register_pair(1) [OF assms(3-6), of a_addr b_addr] register_pair(2,3) [OF assms(3-6)]
  let ?s1 = "relay_run s [Recv hello_a a_addr True, Recv hello_b b_addr True]"
  have crypt: "length pkt = length p + 28" "cipher_decrypt unseal (session_of pub dh xb xa c') pkt = Ok p"
    using encrypt_decrypt_roundtrip_fact [OF assms(1) session_keys_agree [OF assms(2)] assms(7)] by auto
  show ?thesis
  proof (cases "length p \<le> 2020")
    case True
    have "length pkt \<le> MAX_PAYLOAD" using True crypt(1) by (simp add: MAX_PAYLOAD_def)
    moreover have "exited ?s1 = None" "peers ?s1 (our_id b) = Some b_addr"
        "peer_id_of a = our_id b" "peer_id_of b = our_id a" "our_id a = ia" "relay_addr a = raddr"
      using pair assms(3,4) by simp_all
    ultimately show ?thesis
      using relay_end_to_end [of ?s1 b b_addr a pkt src rest] crypt(2) True by (simp add: Let_def)
  next
    case False
    then have "MAX_PAYLOAD < length pkt" using crypt(1) by (simp add: MAX_PAYLOAD_def)
    with client_send_spec [of a pkt True] False show ?thesis by (simp add: Let_def)
  qed
qed

definition byte_dh :: "u8 \<Rightarrow> bytes \<Rightarrow> bytes" where
  "byte_dh secret public = map ((+) secret) public"

theorem encrypted_over_relay_witness:
  "\<exists>pkt bs out.
     client_send \<lparr>relay_addr = addr_c, our_id = 1, peer_id_of = 2\<rparr> pkt True = ret (Ok (HEADER_LEN + length pkt, [(addr_c, bs)]))
     \<and> relay_step (relay_init\<lparr>peers := [1 \<mapsto> addr_a, 2 \<mapsto> addr_b]\<rparr>) (Recv bs addr_a True)
         = relay_init\<lparr>peers := [1 \<mapsto> addr_a, 2 \<mapsto> addr_b], sent := [(addr_b, out)]\<rparr>
     \<and> cipher_decrypt toy_unseal (session_of (\<lambda>x. [x]) byte_dh 6 5 0) pkt = Ok [1, 2, 3]"
proof -
  have dh: "dh_ok (\<lambda>x. [x]) byte_dh" by (simp add: dh_ok_def byte_dh_def add.commute)
  obtain hello_a hello_b where reg:
      "client_register True True addr_c 1 2 = ret (Ok (\<lparr>relay_addr = addr_c, our_id = 1, peer_id_of = 2\<rparr>, [(addr_c, hello_a)]))"
      "client_register True True addr_c 2 1 = ret (Ok (\<lparr>relay_addr = addr_c, our_id = 2, peer_id_of = 1\<rparr>, [(addr_c, hello_b)]))"
    by (simp add: client_register_def hello_encoded)
  obtain pkt tx' where enc: "cipher_encrypt toy_seal (session_of (\<lambda>x. [x]) byte_dh 5 6 0) [1, 2, 3] = (Ok pkt, tx')"
    by (simp add: cipher_encrypt_eq toy_seal_def)
  have running: "exited relay_init = None" "(1 :: peer_id) \<noteq> 2" by (simp_all add: relay_init_def)
  have s1: "relay_run relay_init [Recv hello_a addr_a True, Recv hello_b addr_b True]
      = relay_init\<lparr>peers := [1 \<mapsto> addr_a, 2 \<mapsto> addr_b]\<rparr>"
    using register_pair(1) [OF running reg, of addr_a addr_b] by (simp add: relay_init_def)
  from encrypted_over_relay [OF toy_aead_ok dh running reg enc, of addr_a addr_b addr_a "[]" 0] show ?thesis
    unfolding s1 by (auto simp: Let_def relay_init_def)
qed

end
