(* ===== verification/Control_Db.thy ===== *)
theory Control_Db
  imports Net_Addr "HOL-Library.State_Monad" "HOL-Library.List_Lexorder" "HOL-Library.Char_ord"
begin

text \<open>
  \<open>services/control/src/db.rs\<close>: the SQLite store of the control service. Each table is the list
  of its rows in insertion order. SQLite itself is not under \<open>src/\<close>; what is modelled here is
  the meaning of the SQL text of the source: every statement that changes a table is a
  constructor of \<open>statement\<close>, \<open>exec_stmt\<close> is its effect and its count of affected rows, and a
  statement that would break a PRIMARY KEY or UNIQUE constraint of the schema fails and changes
  nothing.

  The operations of \<open>db.rs\<close> are programs of the state monad over an environment that holds the
  tables, the fate of the coming statements (\<open>faults\<close>: each statement may fail with an I/O
  error; the empty list means no more failures) and the coming readings of the clock. A
  \<open>device_id\<close> column is kept as the UUID whose text it holds: every statement binds
  \<open>device_id.to_string()\<close>. Seconds are integers; \<open>ORDER BY created_at\<close> keeps the insertion order
  of equal times.
\<close>

section \<open>Rows and tables\<close>

datatype device_status = Pending | Approved | Revoked

primrec status_code :: "device_status \<Rightarrow> int" where
  "status_code Pending = 0"
| "status_code Approved = 1"
| "status_code Revoked = -1"

definition status_from_i32 :: "int \<Rightarrow> device_status" where
  "status_from_i32 v = (if v = 1 then Approved else if v = -1 then Revoked else Pending)"

record device_row =
  row_id :: uuid
  row_key :: bytes
  row_host :: string
  row_ipv4 :: string
  row_status :: int
  row_created :: int
  row_seen :: int

record device_record =
  dev_id :: uuid
  dev_key :: bytes
  dev_host :: string
  dev_ipv4 :: ipv4
  dev_status :: device_status
  dev_created :: int
  dev_seen :: int

record ip_row =
  ip_text :: string
  ip_allocated :: int

record candidate_row =
  cand_id :: uuid
  cand_address :: string
  cand_updated :: int

record acl_row =
  acl_id :: int
  acl_priority :: int
  acl_action :: string
  acl_src_ip :: string
  acl_dst_ip :: string
  acl_protocol :: string
  acl_src_port :: int
  acl_dst_port :: int

record db =
  devices :: "device_row list"
  ip_pool :: "ip_row list"
  candidates :: "candidate_row list"
  acl_rules :: "acl_row list"

definition init_db :: db where
  "init_db = \<lparr>devices = [], ip_pool = [], candidates = [], acl_rules = []\<rparr>"

text \<open>\<open>From<DeviceRow> for DeviceRecord\<close>: copying a key of another length panics.\<close>

definition record_of_row :: "device_row \<Rightarrow> device_record panics" where
  "record_of_row r =
     (let part = take (min 32 (length (row_key r))) (row_key r)
      in if length part \<noteq> 32 then panic
         else ret \<lparr>dev_id = row_id r, dev_key = part, dev_host = row_host r,
                   dev_ipv4 = (case parse_ipv4 (row_ipv4 r) of Some ip \<Rightarrow> ip | None \<Rightarrow> ipv4_unspecified),
                   dev_status = status_from_i32 (row_status r),
                   dev_created = row_created r, dev_seen = row_seen r\<rparr>)"

definition row_of_record :: "device_record \<Rightarrow> device_row" where
  "row_of_record d =
     \<lparr>row_id = dev_id d, row_key = dev_key d, row_host = dev_host d, row_ipv4 = show_ipv4 (dev_ipv4 d),
      row_status = status_code (dev_status d), row_created = dev_created d, row_seen = dev_seen d\<rparr>"

section \<open>Statements\<close>

datatype statement =
    InsertDevice device_record
  | UpdateSeen uuid int
  | ApproveRow uuid
  | FreeIpOf uuid
  | RevokeRow uuid
  | DeleteRow uuid
  | FreeStaleIps int
  | DeleteStale int
  | TakeIp string
  | InsertIp string
  | UpsertCandidate uuid string int
  | DeleteStaleCandidates int
  | UpsertAcl acl_row
  | DeleteAcl int

datatype sql_error = SqlIo | SqlConstraint

definition unique_devices :: "device_row list \<Rightarrow> bool" where
  "unique_devices rs \<longleftrightarrow> distinct (map row_id rs) \<and> distinct (map row_key rs) \<and> distinct (map row_ipv4 rs)"

definition commit_devices :: "device_row list \<Rightarrow> nat \<Rightarrow> db \<Rightarrow> (sql_error + nat) \<times> db" where
  "commit_devices rs n d =
     (if unique_devices rs then (Ok n, d\<lparr>devices := rs\<rparr>) else (Err SqlConstraint, d))"

definition update_where :: "('r \<Rightarrow> bool) \<Rightarrow> ('r \<Rightarrow> 'r) \<Rightarrow> 'r list \<Rightarrow> 'r list" where
  "update_where P f rs = map (\<lambda>r. if P r then f r else r) rs"

definition count_where :: "('r \<Rightarrow> bool) \<Rightarrow> 'r list \<Rightarrow> nat" where
  "count_where P rs = length (filter P rs)"

definition delete_where :: "('r \<Rightarrow> bool) \<Rightarrow> 'r list \<Rightarrow> 'r list" where
  "delete_where P rs = filter (\<lambda>r. \<not> P r) rs"

text \<open>\<open>DELETE FROM ip_pool WHERE ipv4 IN (SELECT ipv4 FROM devices WHERE Q)\<close>\<close>

definition free_ips :: "(device_row \<Rightarrow> bool) \<Rightarrow> db \<Rightarrow> (sql_error + nat) \<times> db" where
  "free_ips Q d =
     (let P = (\<lambda>p. ip_text p \<in> row_ipv4 ` set (filter Q (devices d)))
      in (Ok (count_where P (ip_pool d)), d\<lparr>ip_pool := delete_where P (ip_pool d)\<rparr>))"

fun exec_stmt :: "statement \<Rightarrow> db \<Rightarrow> (sql_error + nat) \<times> db" where
  "exec_stmt (InsertDevice r) d = commit_devices (devices d @ [row_of_record r]) 1 d"
| "exec_stmt (UpdateSeen i now) d =
     (let P = (\<lambda>r. row_id r = i)
      in commit_devices (update_where P (row_seen_update (\<lambda>_. now)) (devices d)) (count_where P (devices d)) d)"
| "exec_stmt (ApproveRow i) d =
     (let P = (\<lambda>r. row_id r = i \<and> row_status r = 0)
      in commit_devices (update_where P (row_status_update (\<lambda>_. 1)) (devices d)) (count_where P (devices d)) d)"
| "exec_stmt (FreeIpOf i) d = free_ips (\<lambda>r. row_id r = i) d"
| "exec_stmt (RevokeRow i) d =
     (let P = (\<lambda>r. row_id r = i \<and> row_status r = 1)
      in commit_devices (update_where P (\<lambda>r. r\<lparr>row_status := -1, row_ipv4 := []\<rparr>) (devices d))
           (count_where P (devices d)) d)"
| "exec_stmt (DeleteRow i) d =
     (let P = (\<lambda>r. row_id r = i)
      in commit_devices (delete_where P (devices d)) (count_where P (devices d)) d)"
| "exec_stmt (FreeStaleIps cutoff) d = free_ips (\<lambda>r. row_seen r < cutoff) d"
| "exec_stmt (DeleteStale cutoff) d =
     (let P = (\<lambda>r. row_seen r < cutoff \<and> row_status r \<noteq> 1)
      in commit_devices (delete_where P (devices d)) (count_where P (devices d)) d)"
| "exec_stmt (TakeIp ip) d =
     (let P = (\<lambda>p. ip_text p = ip)
      in (Ok (count_where P (ip_pool d)),
          d\<lparr>ip_pool := update_where P (ip_allocated_update (\<lambda>_. 1)) (ip_pool d)\<rparr>))"
| "exec_stmt (InsertIp ip) d =
     (if ip \<in> ip_text ` set (ip_pool d) then (Err SqlConstraint, d)
      else (Ok 1, d\<lparr>ip_pool := ip_pool d @ [\<lparr>ip_text = ip, ip_allocated = 1\<rparr>]\<rparr>))"
| "exec_stmt (UpsertCandidate i addr now) d =
     (let P = (\<lambda>c. cand_id c = i \<and> cand_address c = addr)
      in (Ok 1, d\<lparr>candidates :=
            (if \<exists>c\<in>set (candidates d). P c
             then update_where P (cand_updated_update (\<lambda>_. now)) (candidates d)
             else candidates d @ [\<lparr>cand_id = i, cand_address = addr, cand_updated = now\<rparr>])\<rparr>))"
| "exec_stmt (DeleteStaleCandidates cutoff) d =
     (let P = (\<lambda>c. cand_updated c < cutoff)
      in (Ok (count_where P (candidates d)), d\<lparr>candidates := delete_where P (candidates d)\<rparr>))"
| "exec_stmt (UpsertAcl rule) d =
     (let P = (\<lambda>r. acl_id r = acl_id rule)
      in (Ok 1, d\<lparr>acl_rules :=
            (if \<exists>r\<in>set (acl_rules d). P r then update_where P (\<lambda>_. rule) (acl_rules d)
             else acl_rules d @ [rule])\<rparr>))"
| "exec_stmt (DeleteAcl i) d =
     (let P = (\<lambda>r. acl_id r = i)
      in (Ok (count_where P (acl_rules d)), d\<lparr>acl_rules := delete_where P (acl_rules d)\<rparr>))"

section \<open>The environment of the operations\<close>

record env =
  tables :: db
  faults :: "bool list"
  times :: "int list"

type_synonym 'a sql = "(env, 'a) state"

abbreviation sret :: "'a \<Rightarrow> 'a sql" where "sret \<equiv> State_Monad.return"

definition execute :: "statement \<Rightarrow> (sql_error + nat) sql" where
  "execute st = State (\<lambda>s.
     if take 1 (faults s) = [True] then (Err SqlIo, s\<lparr>faults := tl (faults s)\<rparr>)
     else (case exec_stmt st (tables s) of
             (r, d) \<Rightarrow> (r, s\<lparr>tables := d, faults := tl (faults s)\<rparr>)))"

definition query :: "(db \<Rightarrow> 'a) \<Rightarrow> (sql_error + 'a) sql" where
  "query q = State (\<lambda>s.
     (if take 1 (faults s) = [True] then Err SqlIo else Ok (q (tables s)), s\<lparr>faults := tl (faults s)\<rparr>))"

definition unix_now :: "int sql" where
  "unix_now = State (\<lambda>s. (case times s of [] \<Rightarrow> 0 | t # _ \<Rightarrow> t, s\<lparr>times := tl (times s)\<rparr>))"

text \<open>\<open>Result<u64>\<close> as \<open>rows_affected() > 0\<close>, and the rows of a query as records.\<close>

definition affected :: "sql_error + nat \<Rightarrow> sql_error + bool" where
  "affected r = (case r of Err e \<Rightarrow> Err e | Ok n \<Rightarrow> Ok (n > 0))"

definition records :: "sql_error + device_row list \<Rightarrow> (sql_error + device_record list) panics" where
  "records r = (case r of
      Err e \<Rightarrow> ret (Err e)
    | Ok rows \<Rightarrow> do { ds \<leftarrow> those (map record_of_row rows); ret (Ok ds) })"

definition optional_record :: "sql_error + device_row option \<Rightarrow> device_record option panics" where
  "optional_record r = (case r of
      Ok (Some row) \<Rightarrow> do { d \<leftarrow> record_of_row row; ret (Some d) }
    | _ \<Rightarrow> ret None)"

section \<open>The operations\<close>

definition find_by_public_key :: "bytes \<Rightarrow> device_record option panics sql" where
  "find_by_public_key pk = do {
     r \<leftarrow> query (\<lambda>d. find (\<lambda>x. row_key x = pk) (devices d));
     sret (optional_record r) }"

definition insert_device :: "device_record \<Rightarrow> (sql_error + nat) sql" where
  "insert_device dev = execute (InsertDevice dev)"

definition heartbeat :: "uuid \<Rightarrow> (sql_error + bool) sql" where
  "heartbeat i = do {
     now \<leftarrow> unix_now;
     r \<leftarrow> execute (UpdateSeen i now);
     sret (affected r) }"

definition by_created :: "(device_row \<Rightarrow> bool) \<Rightarrow> db \<Rightarrow> device_row list" where
  "by_created P d = sort_key row_created (filter P (devices d))"

definition list_approved :: "(sql_error + device_record list) panics sql" where
  "list_approved = do { r \<leftarrow> query (by_created (\<lambda>r. row_status r = 1)); sret (records r) }"

definition list_all_devices :: "(sql_error + device_record list) panics sql" where
  "list_all_devices = do { r \<leftarrow> query (by_created (\<lambda>r. True)); sret (records r) }"

definition list_pending :: "(sql_error + device_record list) panics sql" where
  "list_pending = do { r \<leftarrow> query (by_created (\<lambda>r. row_status r = 0)); sret (records r) }"

definition find_by_id :: "uuid \<Rightarrow> device_record option panics sql" where
  "find_by_id i = do {
     r \<leftarrow> query (\<lambda>d. find (\<lambda>x. row_id x = i) (devices d));
     sret (optional_record r) }"

definition approve_device :: "uuid \<Rightarrow> (sql_error + bool) sql" where
  "approve_device i = do { r \<leftarrow> execute (ApproveRow i); sret (affected r) }"

definition revoke_device :: "uuid \<Rightarrow> (sql_error + bool) sql" where
  "revoke_device i = do {
     f \<leftarrow> execute (FreeIpOf i);
     case f of
       Err e \<Rightarrow> sret (Err e)
     | Ok _ \<Rightarrow> do { r \<leftarrow> execute (RevokeRow i); sret (affected r) } }"

definition delete_device :: "uuid \<Rightarrow> (sql_error + bool) sql" where
  "delete_device i = do {
     f \<leftarrow> execute (FreeIpOf i);
     case f of
       Err e \<Rightarrow> sret (Err e)
     | Ok _ \<Rightarrow> do { r \<leftarrow> execute (DeleteRow i); sret (affected r) } }"

text \<open>Times are unbounded integers; the source subtracts in \<open>i64\<close>, which the clock never brings near its ends.\<close>

definition purge_stale :: "int \<Rightarrow> (sql_error + nat) sql" where
  "purge_stale timeout_secs = do {
     now \<leftarrow> unix_now;
     let cutoff = now - timeout_secs;
     f \<leftarrow> execute (FreeStaleIps cutoff);
     case f of
       Err e \<Rightarrow> sret (Err e)
     | Ok _ \<Rightarrow> execute (DeleteStale cutoff) }"

text \<open>
  \<open>allocate_ip\<close>: the addition wraps as in a release build; \<open>used as u32\<close> keeps the low 32 bits
  of the count; the results of the two updates are ignored (\<open>.ok()\<close>).
\<close>

definition allocate_ip :: "u32 \<Rightarrow> u32 \<Rightarrow> ipv4 option sql" where
  "allocate_ip base max_offset = do {
     row \<leftarrow> query (\<lambda>d. first_min ip_text (filter (\<lambda>p. ip_allocated p = 0) (ip_pool d)));
     case row of
       Ok (Some r) \<Rightarrow> do {
         _ \<leftarrow> execute (TakeIp (ip_text r));
         sret (parse_ipv4 (ip_text r)) }
     | _ \<Rightarrow> do {
         count \<leftarrow> query (\<lambda>d. length (ip_pool d));
         let used = (case count of Ok n \<Rightarrow> n | Err _ \<Rightarrow> 0);
         if of_nat used > max_offset then sret None
         else do {
           let ip = base + of_nat used;
           _ \<leftarrow> execute (InsertIp (show_ipv4 ip));
           sret (Some ip) } } }"

definition allocated_count :: "nat sql" where
  "allocated_count = do {
     r \<leftarrow> query (\<lambda>d. count_where (\<lambda>p. ip_allocated p = 1) (ip_pool d));
     sret (case r of Ok n \<Rightarrow> n | Err _ \<Rightarrow> 0) }"

definition pool_size :: "nat sql" where
  "pool_size = do {
     r \<leftarrow> query (\<lambda>d. length (ip_pool d));
     sret (case r of Ok n \<Rightarrow> n | Err _ \<Rightarrow> 0) }"

definition upsert_candidate :: "uuid \<Rightarrow> string \<Rightarrow> (sql_error + nat) sql" where
  "upsert_candidate i address = do {
     now \<leftarrow> unix_now;
     execute (UpsertCandidate i address now) }"

definition get_candidates :: "uuid \<Rightarrow> (sql_error + string list) sql" where
  "get_candidates i =
     query (\<lambda>d. map cand_address
              (sort_key (\<lambda>c. - cand_updated c) (filter (\<lambda>c. cand_id c = i) (candidates d))))"

definition purge_stale_candidates :: "int \<Rightarrow> (sql_error + nat) sql" where
  "purge_stale_candidates timeout_secs = do {
     now \<leftarrow> unix_now;
     execute (DeleteStaleCandidates (now - timeout_secs)) }"

definition list_acl_rules :: "(sql_error + acl_row list) sql" where
  "list_acl_rules = query (\<lambda>d. sort_key acl_priority (acl_rules d))"

definition upsert_acl_rule :: "acl_row \<Rightarrow> (sql_error + nat) sql" where
  "upsert_acl_rule rule = execute (UpsertAcl rule)"

definition delete_acl_rule :: "int \<Rightarrow> (sql_error + bool) sql" where
  "delete_acl_rule i = do { r \<leftarrow> execute (DeleteAcl i); sret (affected r) }"

definition list_dns_records :: "(sql_error + (string \<times> string) list) sql" where
  "list_dns_records =
     query (\<lambda>d. map (\<lambda>r. (row_host r, row_ipv4 r))
              (filter (\<lambda>r. row_status r = 1 \<and> row_host r \<noteq> [] \<and> row_ipv4 r \<noteq> []) (devices d)))"

definition count_devices :: "(sql_error + nat) sql" where
  "count_devices = query (\<lambda>d. length (devices d))"

section \<open>Generic facts about statements\<close>

lemma update_where_same: "(\<And>r. P r \<Longrightarrow> g (f r) = g r) \<Longrightarrow> map g (update_where P f rs) = map g rs"
  by (induction rs) (auto simp: update_where_def)

lemma in_update_where:
  "r \<in> set (update_where P f rs) \<longleftrightarrow> (\<exists>x\<in>set rs. r = (if P x then f x else x))"
  by (auto simp: update_where_def)

lemma in_delete_where [simp]: "r \<in> set (delete_where P rs) \<longleftrightarrow> r \<in> set rs \<and> \<not> P r"
  by (auto simp: delete_where_def)

lemma distinct_delete_where: "distinct (map g rs) \<Longrightarrow> distinct (map g (delete_where P rs))"
  by (induction rs) (auto simp: delete_where_def)

lemma update_where_none: "\<forall>r\<in>set rs. \<not> P r \<Longrightarrow> update_where P f rs = rs"
  by (induction rs) (auto simp: update_where_def)

lemma count_where_pos: "0 < count_where P rs \<longleftrightarrow> (\<exists>r\<in>set rs. P r)"
  by (auto simp: count_where_def filter_empty_conv)

lemma unique_delete_where: "unique_devices rs \<Longrightarrow> unique_devices (delete_where P rs)"
  by (simp add: unique_devices_def distinct_delete_where)

lemma commit_devices_tables:
  "snd (commit_devices rs n d) = (if unique_devices rs then d\<lparr>devices := rs\<rparr> else d)"
  by (simp add: commit_devices_def)

section \<open>The invariant of the store\<close>

text \<open>
  What the handlers insert: devices that are not revoked, with a 32-byte key; pool addresses in
  the dotted notation.
\<close>

primrec issued :: "statement \<Rightarrow> bool" where
  "issued (InsertDevice r) \<longleftrightarrow> dev_status r \<noteq> Revoked \<and> length (dev_key r) = 32"
| "issued (UpdateSeen i now) \<longleftrightarrow> True"
| "issued (ApproveRow i) \<longleftrightarrow> True"
| "issued (FreeIpOf i) \<longleftrightarrow> True"
| "issued (RevokeRow i) \<longleftrightarrow> True"
| "issued (DeleteRow i) \<longleftrightarrow> True"
| "issued (FreeStaleIps c) \<longleftrightarrow> True"
| "issued (DeleteStale c) \<longleftrightarrow> True"
| "issued (TakeIp ip) \<longleftrightarrow> True"
| "issued (InsertIp ip) \<longleftrightarrow> (\<exists>a. ip = show_ipv4 a)"
| "issued (UpsertCandidate i a now) \<longleftrightarrow> True"
| "issued (DeleteStaleCandidates c) \<longleftrightarrow> True"
| "issued (UpsertAcl rule) \<longleftrightarrow> True"
| "issued (DeleteAcl i) \<longleftrightarrow> True"

definition row_ok :: "device_row \<Rightarrow> bool" where
  "row_ok r \<longleftrightarrow> length (row_key r) = 32
     \<and> (row_status r = -1 \<and> row_ipv4 r = []
        \<or> row_status r \<in> {0, 1} \<and> (\<exists>ip. row_ipv4 r = show_ipv4 ip))"

definition db_inv :: "db \<Rightarrow> bool" where
  "db_inv d \<longleftrightarrow> unique_devices (devices d) \<and> (\<forall>r\<in>set (devices d). row_ok r)
     \<and> distinct (map ip_text (ip_pool d))
     \<and> (\<forall>p\<in>set (ip_pool d). ip_allocated p = 1 \<and> (\<exists>ip. ip_text p = show_ipv4 ip))
     \<and> distinct (map (\<lambda>c. (cand_id c, cand_address c)) (candidates d))
     \<and> distinct (map acl_id (acl_rules d))"

lemma db_invD:
  assumes "db_inv d"
  shows "unique_devices (devices d)" and "\<forall>r\<in>set (devices d). row_ok r"
    and "distinct (map ip_text (ip_pool d))"
    and "\<forall>p\<in>set (ip_pool d). ip_allocated p = 1"
  using assms by (simp_all add: db_inv_def)

definition db_step :: "db \<Rightarrow> statement \<Rightarrow> db" where
  "db_step d st = (if issued st then snd (exec_stmt st d) else d)"

lemma commit_devices_inv:
  assumes "db_inv d" and "\<forall>r\<in>set rs. row_ok r"
  shows "db_inv (snd (commit_devices rs n d))"
  using assms by (simp add: commit_devices_tables db_inv_def)

lemma row_ok_record: "dev_status r \<noteq> Revoked \<Longrightarrow> length (dev_key r) = 32 \<Longrightarrow> row_ok (row_of_record r)"
  by (cases "dev_status r") (auto simp: row_ok_def row_of_record_def)

lemma row_ok_update:
  assumes "\<forall>r\<in>set rs. row_ok r" and "\<And>r. row_ok r \<Longrightarrow> P r \<Longrightarrow> row_ok (f r)"
  shows "\<forall>r\<in>set (update_where P f rs). row_ok r"
  using assms by (auto simp: in_update_where)

lemma row_ok_revoked: "row_ok r \<Longrightarrow> row_ok (r\<lparr>row_status := -1, row_ipv4 := []\<rparr>)"
  by (simp add: row_ok_def)

lemma row_ok_seen: "row_ok (r\<lparr>row_seen := t\<rparr>) = row_ok r"
  by (simp add: row_ok_def)

lemma row_ok_approved: "row_ok r \<Longrightarrow> row_status r = 0 \<Longrightarrow> row_ok (r\<lparr>row_status := 1\<rparr>)"
  by (auto simp: row_ok_def)

lemma free_ips_inv: "db_inv d \<Longrightarrow> db_inv (snd (free_ips Q d))"
  by (simp add: db_inv_def free_ips_def Let_def distinct_delete_where)

interpretation db_system: step_system db_step db_inv
proof
  fix d st
  assume inv: "db_inv d"
  note ok = db_invD(2) [OF inv]
  have "db_inv (snd (exec_stmt st d))" if i: "issued st"
  proof (cases st)
    case (InsertDevice r)
    with i ok show ?thesis
      using commit_devices_inv [OF inv, of "devices d @ [row_of_record r]"] row_ok_record by simp
  next
    case (UpdateSeen i now)
    then show ?thesis
      using commit_devices_inv [OF inv row_ok_update [OF ok]] by (simp add: Let_def row_ok_seen)
  next
    case (ApproveRow i)
    then show ?thesis
      using commit_devices_inv [OF inv row_ok_update [OF ok], of "\<lambda>r. row_id r = i \<and> row_status r = 0"]
      by (simp add: Let_def row_ok_approved)
  next
    case (RevokeRow i)
    then show ?thesis
      using commit_devices_inv [OF inv row_ok_update [OF ok]] by (simp add: Let_def row_ok_revoked)
  next
    case (DeleteRow i)
    then show ?thesis using commit_devices_inv [OF inv] ok by (simp add: Let_def)
  next
    case (DeleteStale c)
    then show ?thesis using commit_devices_inv [OF inv] ok by (simp add: Let_def)
  next
    case (TakeIp ip)
    then show ?thesis
      using inv by (auto simp: db_inv_def Let_def update_where_same in_update_where)
  next
    case (InsertIp ip)
    with i show ?thesis using inv by (auto simp: db_inv_def)
  next
    case (UpsertCandidate i a now)
    then show ?thesis
      using inv by (auto simp: db_inv_def Let_def update_where_same)
  next
    case (UpsertAcl rule)
    have "map acl_id (update_where (\<lambda>r. acl_id r = acl_id rule) (\<lambda>_. rule) (acl_rules d)) = map acl_id (acl_rules d)"
      by (rule update_where_same) simp
    with UpsertAcl show ?thesis
      using inv by (auto simp: db_inv_def Let_def)
  next
    case (DeleteStaleCandidates c)
    then show ?thesis using inv by (simp add: db_inv_def Let_def distinct_delete_where)
  next
    case (DeleteAcl i)
    then show ?thesis using inv by (simp add: db_inv_def Let_def distinct_delete_where)
  qed (simp_all add: free_ips_inv [OF inv])
  then show "db_inv (db_step d st)" using inv by (simp add: db_step_def)
qed

lemma init_db_inv: "db_inv init_db"
  by (simp add: db_inv_def init_db_def unique_devices_def)

text \<open>
  C12: Whatever handlers run and however their SQL statements interleave and fail, the store
  keeps its constraints: ids, keys and addresses of devices are unique, every key has 32 bytes,
  a device is Pending or Approved with an address or Revoked with the empty text for one, so that
  at most one device is ever Revoked; and every row of the address pool is marked allocated, so
  the reuse branch of \<open>allocate_ip\<close> never runs.
\<close>

theorem store_constraints:
  "let d = foldl db_step init_db sts
   in db_inv d \<and> length (filter (\<lambda>r. row_status r = -1) (devices d)) \<le> 1
      \<and> filter (\<lambda>p. ip_allocated p = 0) (ip_pool d) = []"
proof -
  let ?d = "foldl db_step init_db sts"
  have inv: "db_inv ?d" by (rule db_system.run_inv) (rule init_db_inv)
  let ?rs = "filter (\<lambda>r. row_status r = -1) (devices ?d)"
  have "distinct (map row_ipv4 ?rs)"
    using db_invD(1) [OF inv] by (simp add: unique_devices_def distinct_map_filter)
  moreover have "map row_ipv4 ?rs = replicate (length ?rs) []"
    using db_invD(2) [OF inv] by (auto simp: row_ok_def map_replicate_const [symmetric])
  ultimately have "distinct (replicate (length ?rs) ([] :: string))" by simp
  then have "length ?rs \<le> 1" by (cases "length ?rs") (auto simp: replicate_Suc)
  moreover have "filter (\<lambda>p. ip_allocated p = 0) (ip_pool ?d) = []"
    using db_invD(4) [OF inv] by (auto simp: filter_empty_conv)
  ultimately show ?thesis using inv by (simp add: Let_def)
qed

section \<open>The life of a device\<close>

text \<open>
  How a device may change from one statement to later ones: the identity never, the status only
  forward from Pending over Approved to Revoked, the address only by being cleared on revocation.
\<close>

definition rank :: "int \<Rightarrow> nat" where
  "rank st = (if st = 0 then 0 else if st = 1 then 1 else 2)"

definition row_le :: "device_row \<Rightarrow> device_row \<Rightarrow> bool" where
  "row_le r r' \<longleftrightarrow> row_id r' = row_id r \<and> row_key r' = row_key r \<and> row_host r' = row_host r
     \<and> row_created r' = row_created r \<and> rank (row_status r) \<le> rank (row_status r')
     \<and> (row_ipv4 r' = row_ipv4 r \<or> row_ipv4 r' = [] \<and> row_status r' = -1)"

lemma row_le_refl: "row_le r r"
  by (simp add: row_le_def)

lemma row_le_trans:
  "row_le r s \<Longrightarrow> row_le s t \<Longrightarrow> row_ok t \<Longrightarrow> row_le r t"
  by (auto simp: row_le_def row_ok_def rank_def show_ipv4_nonempty [THEN not_sym])

definition inserts :: "uuid \<Rightarrow> statement \<Rightarrow> bool" where
  "inserts i st \<longleftrightarrow> (case st of InsertDevice r \<Rightarrow> dev_id r = i | _ \<Rightarrow> False)"

lemma commit_devices_row:
  assumes "r' \<in> set (devices (snd (commit_devices rs n d)))"
    and "\<And>x. x \<in> set rs \<Longrightarrow> row_id x = row_id r' \<Longrightarrow> \<exists>r\<in>set (devices d). row_le r x"
  shows "\<exists>r\<in>set (devices d). row_le r r'"
  using assms row_le_refl by (auto simp: commit_devices_tables split: if_splits)

lemma update_where_le:
  assumes "x \<in> set (update_where P f rs)" and "\<And>r. P r \<Longrightarrow> row_le r (f r)"
  shows "\<exists>r\<in>set rs. row_le r x"
  using assms row_le_refl by (fastforce simp: in_update_where)

lemma free_ips_devices [simp]: "devices (snd (free_ips Q d)) = devices d"
  by (simp add: free_ips_def Let_def)

lemma exec_stmt_row:
  assumes "r' \<in> set (devices (snd (exec_stmt st d)))" and "\<not> inserts (row_id r') st"
  shows "\<exists>r\<in>set (devices d). row_le r r'"
proof (cases st)
  case (InsertDevice rec)
  with assms show ?thesis
    by (intro commit_devices_row [of r' "devices d @ [row_of_record rec]" 1])
       (auto simp: inserts_def row_of_record_def intro: row_le_refl)
next
  case (UpdateSeen i now)
  with assms(1) show ?thesis unfolding UpdateSeen exec_stmt.simps Let_def
    by (elim commit_devices_row update_where_le) (simp add: row_le_def)
next
  case (ApproveRow i)
  with assms(1) show ?thesis unfolding ApproveRow exec_stmt.simps Let_def
    by (elim commit_devices_row update_where_le) (simp add: row_le_def rank_def)
next
  case (RevokeRow i)
  with assms(1) show ?thesis unfolding RevokeRow exec_stmt.simps Let_def
    by (elim commit_devices_row update_where_le) (simp add: row_le_def rank_def)
next
  case (DeleteRow i)
  with assms(1) show ?thesis unfolding DeleteRow exec_stmt.simps Let_def
    by (elim commit_devices_row) (auto intro: row_le_refl)
next
  case (DeleteStale c)
  with assms(1) show ?thesis unfolding DeleteStale exec_stmt.simps Let_def
    by (elim commit_devices_row) (auto intro: row_le_refl)
qed (use assms(1) row_le_refl in \<open>auto simp: Let_def split: if_splits\<close>)

lemma run_row_le:
  assumes "db_inv d" and "r' \<in> set (devices (foldl db_step d sts))"
    and "\<forall>st\<in>set sts. \<not> inserts (row_id r') st"
  shows "\<exists>r\<in>set (devices d). row_le r r'"
  using assms(2,3)
proof (induction sts arbitrary: r' rule: rev_induct)
  case Nil
  then show ?case using row_le_refl by auto
next
  case (snoc st sts)
  let ?e = "foldl db_step d sts"
  have r': "r' \<in> set (devices (db_step ?e st))" using snoc.prems by simp
  have "db_inv (db_step ?e st)"
    using db_system.run_inv [OF assms(1), of "sts @ [st]"] by simp
  with r' have ok: "row_ok r'" by (auto dest: db_invD(2))
  obtain m where m: "m \<in> set (devices ?e)" "row_le m r'"
    using exec_stmt_row [of r' st ?e] r' snoc.prems(2) row_le_refl
    by (auto simp: db_step_def split: if_splits)
  have "row_id r' = row_id m" using m(2) by (simp add: row_le_def)
  with snoc.IH [OF m(1)] snoc.prems(2) obtain r where "r \<in> set (devices d)" "row_le r m" by auto
  then show ?case using row_le_trans [OF _ m(2) ok] by blast
qed

text \<open>
  C32: The life of a device is one-way: if its row is there after any further statements, issued
  in any order by any handlers and none of them inserting a device with its random id, then its
  id, key, host name and creation time are the same, its status has not gone back (a Revoked
  device is never Approved again, an Approved one never Pending), and its address is the same
  unless the device was revoked.
\<close>

theorem device_life:
  assumes "db_inv d" and "r \<in> set (devices d)" and "r' \<in> set (devices (foldl db_step d sts))"
    and "row_id r' = row_id r" and "\<forall>st\<in>set sts. \<not> inserts (row_id r) st"
  shows "row_key r' = row_key r \<and> row_host r' = row_host r \<and> row_created r' = row_created r
     \<and> (row_status r = -1 \<longrightarrow> row_status r' = -1)
     \<and> (row_status r = 1 \<longrightarrow> row_status r' = 1 \<or> row_status r' = -1)
     \<and> (row_status r' \<noteq> -1 \<longrightarrow> row_ipv4 r' = row_ipv4 r)"
proof -
  obtain r0 where r0: "r0 \<in> set (devices d)" "row_le r0 r'"
    using run_row_le [OF assms(1,3)] assms(4,5) by auto
  then have "row_id r0 = row_id r" using assms(4) by (simp add: row_le_def)
  with r0(1) assms(2) db_invD(1) [OF assms(1)] have "r0 = r"
    by (auto simp: unique_devices_def distinct_map dest: inj_onD)
  moreover have "row_ok r'"
    using db_system.run_inv [OF assms(1), of sts] assms(3) by (auto dest: db_invD(2))
  ultimately show ?thesis
    using r0(2) by (auto simp: row_le_def rank_def row_ok_def split: if_splits)
qed

theorem device_life_witness:
  "let r = \<lparr>row_id = 1, row_key = replicate 32 7, row_host = ''old'', row_ipv4 = [],
            row_status = -1, row_created = 0, row_seen = 0\<rparr>;
       d = foldl db_step (init_db\<lparr>devices := [r]\<rparr>) [ApproveRow 1, UpdateSeen 1 99]
   in devices d = [r\<lparr>row_seen := 99\<rparr>] \<and> row_status (hd (devices d)) = -1"
proof -
  let ?r = "\<lparr>row_id = 1, row_key = replicate 32 7, row_host = ''old'', row_ipv4 = [],
            row_status = -1, row_created = 0, row_seen = 0\<rparr>"
  let ?d = "init_db\<lparr>devices := [?r]\<rparr>" and ?sts = "[ApproveRow 1, UpdateSeen 1 99]"
  have inv: "db_inv ?d" by (simp add: db_inv_def init_db_def unique_devices_def row_ok_def)
  have after: "devices (foldl db_step ?d ?sts) = [?r\<lparr>row_seen := 99\<rparr>]"
    by (simp add: db_step_def Let_def update_where_def commit_devices_def unique_devices_def)
  have "row_status ?r = -1 \<longrightarrow> row_status (?r\<lparr>row_seen := 99\<rparr>) = -1"
    using device_life [OF inv, of ?r "?r\<lparr>row_seen := 99\<rparr>" ?sts] after by (simp add: inserts_def)
  with after show ?thesis by (simp add: Let_def)
qed

section \<open>Operations as sequences of statements\<close>

text \<open>
  Every operation reaches the tables it leaves by statements the handlers may issue, whatever
  fails on the way. The rules of \<open>safe\<close> follow the structure of the operations.
\<close>

definition leads :: "db \<Rightarrow> db \<Rightarrow> bool" where
  "leads d d' \<longleftrightarrow> (\<exists>sts. d' = foldl db_step d sts)"

definition safe :: "'a sql \<Rightarrow> bool" where
  "safe m \<longleftrightarrow> (\<forall>s. leads (tables s) (tables (snd (run_state m s))))"

named_theorems safe_intros "operations that only issue the statements of the handlers"

lemma leads_refl [simp]: "leads d d"
  unfolding leads_def by (rule exI [of _ "[]"]) simp

lemma leads_trans: "leads a b \<Longrightarrow> leads b c \<Longrightarrow> leads a c"
  unfolding leads_def by (metis foldl_append)

lemma leads_inv: "leads d d' \<Longrightarrow> db_inv d \<Longrightarrow> db_inv d'"
  by (auto simp: leads_def db_system.run_inv)

lemma safe_return [safe_intros]: "safe (sret x)"
  by (simp add: safe_def)

lemma safe_bind [safe_intros]: "safe m \<Longrightarrow> (\<And>x. safe (f x)) \<Longrightarrow> safe (m \<bind> f)"
  unfolding safe_def by (auto split: prod.split) (metis leads_trans snd_conv)

lemma safe_query [safe_intros]: "safe (query q)"
  by (simp add: safe_def query_def)

lemma safe_unix_now [safe_intros]: "safe unix_now"
  by (simp add: safe_def unix_now_def)

lemma safe_execute [safe_intros]:
  assumes "issued st"
  shows "safe (execute st)"
proof -
  have "leads d (snd (exec_stmt st d))" for d
    unfolding leads_def by (rule exI [of _ "[st]"]) (simp add: db_step_def assms)
  then show ?thesis
    by (auto simp: safe_def execute_def split: prod.split) (metis snd_conv)
qed

lemma safe_sum [safe_intros]: "(\<And>e. safe (f e)) \<Longrightarrow> (\<And>x. safe (g x)) \<Longrightarrow> safe (case r of Err e \<Rightarrow> f e | Ok x \<Rightarrow> g x)"
  by (cases r) auto

lemma safe_option [safe_intros]: "safe f \<Longrightarrow> (\<And>x. safe (g x)) \<Longrightarrow> safe (case r of None \<Rightarrow> f | Some x \<Rightarrow> g x)"
  by (cases r) auto

lemma safe_if [safe_intros]: "safe f \<Longrightarrow> safe g \<Longrightarrow> safe (if b then f else g)"
  by simp

lemma safe_Let [safe_intros]: "safe (f x) \<Longrightarrow> safe (Let x f)"
  by simp

lemma safe_operations [safe_intros]:
  "safe (find_by_public_key pk)" "safe (heartbeat i)" "safe list_approved" "safe list_all_devices"
  "safe list_pending" "safe (find_by_id i)" "safe (approve_device i)" "safe (revoke_device i)"
  "safe (delete_device i)" "safe (purge_stale t)" "safe allocated_count"
  "safe pool_size" "safe (upsert_candidate i a)" "safe (get_candidates i)"
  "safe (purge_stale_candidates t)" "safe list_acl_rules" "safe (upsert_acl_rule rule)"
  "safe (delete_acl_rule n)" "safe list_dns_records" "safe count_devices"
  unfolding find_by_public_key_def heartbeat_def list_approved_def list_all_devices_def
    list_pending_def find_by_id_def approve_device_def revoke_device_def delete_device_def
    purge_stale_def allocated_count_def pool_size_def upsert_candidate_def get_candidates_def
    purge_stale_candidates_def list_acl_rules_def upsert_acl_rule_def delete_acl_rule_def
    list_dns_records_def count_devices_def
  by (intro safe_intros; simp)+

lemma safe_allocate_ip [safe_intros]: "safe (allocate_ip base mx)"
  unfolding allocate_ip_def by (intro safe_intros; auto)

lemma safe_insert_device [safe_intros]:
  "dev_status r \<noteq> Revoked \<Longrightarrow> length (dev_key r) = 32 \<Longrightarrow> safe (insert_device r)"
  unfolding insert_device_def by (intro safe_intros) simp

section \<open>Reading rows back\<close>

text \<open>The record of a well-formed row.\<close>

definition record_view :: "device_row \<Rightarrow> device_record" where
  "record_view r =
     \<lparr>dev_id = row_id r, dev_key = row_key r, dev_host = row_host r,
      dev_ipv4 = (case parse_ipv4 (row_ipv4 r) of Some ip \<Rightarrow> ip | None \<Rightarrow> ipv4_unspecified),
      dev_status = status_from_i32 (row_status r),
      dev_created = row_created r, dev_seen = row_seen r\<rparr>"

lemma status_from_code [simp]: "status_from_i32 (status_code s) = s"
  by (cases s) (simp_all add: status_from_i32_def)

lemma record_of_row_ok: "length (row_key r) = 32 \<Longrightarrow> record_of_row r = ret (record_view r)"
  by (simp add: record_of_row_def record_view_def Let_def)

lemma record_of_row_of_record:
  "length (dev_key d) = 32 \<Longrightarrow> record_of_row (row_of_record d) = ret d"
  by (simp add: record_of_row_ok row_of_record_def record_view_def)

lemma those_records:
  "\<forall>r\<in>set rs. row_ok r \<Longrightarrow> those (map record_of_row rs) = ret (map record_view rs)"
  by (induction rs) (simp_all add: row_ok_def record_of_row_ok)

lemma set_by_created [simp]: "set (by_created P d) = {r \<in> set (devices d). P r}"
  by (auto simp: by_created_def)

lemma records_by_created:
  "db_inv d \<Longrightarrow> records (Ok (by_created P d)) = ret (Ok (map record_view (by_created P d)))"
  by (simp add: records_def those_records db_invD(2))

lemma records_Err [simp]: "records (Err e) = ret (Err e)"
  by (simp add: records_def)

lemma optional_record_ok:
  assumes "db_inv d"
  shows "optional_record (Ok (find P (devices d))) = ret (map_option record_view (find P (devices d)))"
proof (cases "find P (devices d)")
  case (Some r)
  then have "r \<in> set (devices d)" by (auto simp: find_Some_iff)
  with assms have "length (row_key r) = 32" by (auto simp: row_ok_def dest: db_invD(2))
  with Some show ?thesis by (simp add: optional_record_def record_of_row_ok)
qed (simp add: optional_record_def)

lemma optional_record_Err [simp]: "optional_record (Err e) = ret None"
  by (simp add: optional_record_def)

text \<open>Without faults a statement has its effect and a query its answer.\<close>

lemma run_execute_ok:
  "faults s = [] \<Longrightarrow> run_state (execute st) s =
     (fst (exec_stmt st (tables s)), s\<lparr>tables := snd (exec_stmt st (tables s))\<rparr>)"
  by (simp add: execute_def split: prod.split)

lemma run_query_ok: "faults s = [] \<Longrightarrow> run_state (query q) s = (Ok (q (tables s)), s)"
  by (simp add: query_def)

lemma run_unix_now:
  "run_state unix_now s = (case times s of [] \<Rightarrow> 0 | t # _ \<Rightarrow> t, s\<lparr>times := tl (times s)\<rparr>)"
  by (simp add: unix_now_def)

section \<open>What a stored row reads as\<close>

lemma row_of_record_view:
  assumes "row_ok r" and "row_status r \<noteq> -1"
  shows "row_of_record (record_view r) = r"
  using assms by (auto simp: row_ok_def row_of_record_def record_view_def status_from_i32_def)

lemma revoked_view:
  assumes "row_ok r" and "row_status r = -1"
  shows "dev_status (record_view r) = Revoked" and "dev_ipv4 (record_view r) = ipv4_unspecified"
    and "row_of_record (record_view r) = r\<lparr>row_ipv4 := show_ipv4 ipv4_unspecified\<rparr>"
proof -
  have "parse_ipv4 [] = None" by code_simp
  with assms show "dev_status (record_view r) = Revoked" "dev_ipv4 (record_view r) = ipv4_unspecified"
      "row_of_record (record_view r) = r\<lparr>row_ipv4 := show_ipv4 ipv4_unspecified\<rparr>"
    by (auto simp: row_ok_def row_of_record_def record_view_def status_from_i32_def)
qed

text \<open>
  C24: The rows of the device table are typed: whatever the handlers have stored, every row converts
  to a record with a key of 32 bytes without a panic, and the record binds back to the row it was
  read from, so that nothing is lost in the column types; the one exception is the address of a
  Revoked device, an empty text that reads as 0.0.0.0.
\<close>

theorem stored_rows_typed:
  assumes "r \<in> set (devices (foldl db_step init_db sts))"
  shows "\<exists>d. record_of_row r = ret d \<and> length (dev_key d) = 32
     \<and> (if dev_status d = Revoked
        then row_ipv4 r = [] \<and> dev_ipv4 d = ipv4_unspecified
             \<and> row_of_record d = r\<lparr>row_ipv4 := show_ipv4 ipv4_unspecified\<rparr>
        else row_of_record d = r)"
proof -
  have "db_inv (foldl db_step init_db sts)" by (rule db_system.run_inv) (rule init_db_inv)
  with assms have ok: "row_ok r" by (auto dest: db_invD(2))
  then have view: "record_of_row r = ret (record_view r)" "length (dev_key (record_view r)) = 32"
    by (simp_all add: row_ok_def record_of_row_ok) (simp add: record_view_def)
  show ?thesis
  proof (cases "row_status r = -1")
    case True
    with ok have "row_ipv4 r = []" by (auto simp: row_ok_def)
    with view revoked_view [OF ok True] show ?thesis by simp
  next
    case False
    with ok have "dev_status (record_view r) \<noteq> Revoked"
      by (auto simp: row_ok_def record_view_def status_from_i32_def)
    with view row_of_record_view [OF ok False] show ?thesis by simp
  qed
qed

theorem stored_rows_typed_witness:
  "let rec = \<lparr>dev_id = 1, dev_key = replicate 32 7, dev_host = ''a'', dev_ipv4 = 5, dev_status = Approved,
              dev_created = 0, dev_seen = 0\<rparr>;
       d = foldl db_step init_db [InsertDevice rec, RevokeRow 1]
   in \<exists>r x. devices d = [r] \<and> record_of_row r = ret x \<and> dev_status x = Revoked \<and> dev_ipv4 x = ipv4_unspecified"
proof -
  let ?rec = "\<lparr>dev_id = 1, dev_key = replicate 32 7, dev_host = ''a'', dev_ipv4 = 5, dev_status = Approved,
              dev_created = 0, dev_seen = 0\<rparr>"
  let ?sts = "[InsertDevice ?rec, RevokeRow 1]"
  let ?r = "(row_of_record ?rec)\<lparr>row_status := -1, row_ipv4 := []\<rparr>"
  have d: "devices (foldl db_step init_db ?sts) = [?r]"
    by (simp add: db_step_def init_db_def Let_def commit_devices_def unique_devices_def update_where_def row_of_record_def)
  then have "?r \<in> set (devices (foldl db_step init_db ?sts))" by simp
  from stored_rows_typed [OF this] obtain x where x: "record_of_row ?r = ret x"
      "if dev_status x = Revoked then row_ipv4 ?r = [] \<and> dev_ipv4 x = ipv4_unspecified
             \<and> row_of_record x = ?r\<lparr>row_ipv4 := show_ipv4 ipv4_unspecified\<rparr>
        else row_of_record x = ?r" by blast
  have "row_status (row_of_record x) = -1"
    using x(2) by (simp add: row_of_record_def split: if_splits)
  then have "dev_status x = Revoked" by (cases "dev_status x") (simp_all add: row_of_record_def)
  with x(2) have "dev_ipv4 x = ipv4_unspecified" by simp
  with d x(1) \<open>dev_status x = Revoked\<close> show ?thesis unfolding Let_def by blast
qed

end
