(* ===== verification/Control_Service.thy ===== *)
theory Control_Service
  imports Control_Db
begin

text \<open>
  \<open>services/control/src/main.rs\<close>: the HTTP handlers of the control service, each a program over
  the store of \<open>Control_Db\<close>, and the dispatch of requests to them, with the periodic purge of
  stale devices as one more event. Axum's extraction, JSON and routing are not modelled: a request
  is already decoded (a register request whose key is not 32 bytes long is refused by the
  decoder), a reply is the value the handler returns. A handler that panics is the reply
  \<open>PanicR\<close>. The random UUID of a registration is part of the request.
\<close>

section \<open>Configuration\<close>

record app_state =
  db_path :: string
  ip_base :: u32
  ip_max_offset :: u32
  network_cidr :: string
  stale_timeout :: int

datatype cidr_error = BadFormat | BadAddress | BadPrefix | PrefixTooLong

text \<open>
  \<open>parse_cidr\<close>. The shift \<open>1u32 << (32 - prefix)\<close> by 32 panics when overflow checks are on (debug
  builds) and shifts by \<open>32 mod 32\<close> when they are off (release builds).
\<close>

definition shl_1u32 :: "bool \<Rightarrow> nat \<Rightarrow> u32 panics" where
  "shl_1u32 checks n =
     (if n < 32 then ret (push_bit n 1) else if checks then panic else ret (push_bit (n mod 32) 1))"

definition parse_cidr :: "bool \<Rightarrow> string \<Rightarrow> (cidr_error + u32 \<times> u32) panics" where
  "parse_cidr checks cidr =
     (case split_on (CHR ''/'') cidr of
        [a, p] \<Rightarrow>
          (case parse_ipv4 a of
             None \<Rightarrow> ret (Err BadAddress)
           | Some ip \<Rightarrow>
               (case parse_u8 p of
                  None \<Rightarrow> ret (Err BadPrefix)
                | Some prefix \<Rightarrow>
                    (if prefix > 32 then ret (Err PrefixTooLong)
                     else do {
                       m \<leftarrow> shl_1u32 checks (32 - unat prefix);
                       ret (Ok (u32_of_be (ipv4_octets ip), m - 1)) })))
      | _ \<Rightarrow> ret (Err BadFormat))"

section \<open>Replies\<close>

datatype http_status = Ok200 | NotFound404 | Conflict409 | Unprocessable422 | Internal500

record register_response =
  reg_device_id :: uuid
  reg_ipv4 :: string
  reg_network :: string
  reg_status :: string

record peer_info =
  pi_device_id :: uuid
  pi_ipv4 :: string
  pi_public_key :: bytes
  pi_hostname :: string
  pi_last_seen_secs :: int

record admin_peer_info =
  ap_device_id :: uuid
  ap_ipv4 :: string
  ap_hostname :: string
  ap_status :: string
  ap_last_seen_secs :: int

record pending_info =
  pe_device_id :: uuid
  pe_hostname :: string
  pe_ipv4 :: string
  pe_created_at :: int

definition status_text :: "device_status \<Rightarrow> string" where
  "status_text s = (case s of
      Approved \<Rightarrow> ''approved'' | Pending \<Rightarrow> ''pending'' | Revoked \<Rightarrow> ''revoked'')"

section \<open>Handlers\<close>

definition is_first_device :: "bool sql" where
  "is_first_device = do {
     r \<leftarrow> count_devices;
     sret ((case r of Ok n \<Rightarrow> n | Err _ \<Rightarrow> 0) = 0) }"

definition handle_register ::
  "app_state \<Rightarrow> uuid \<Rightarrow> bytes \<Rightarrow> string \<Rightarrow> (http_status + register_response) panics sql" where
  "handle_register app new_v4 public_key hostname = do {
     found \<leftarrow> find_by_public_key public_key;
     case found of
       None \<Rightarrow> sret panic
     | Some (Some existing) \<Rightarrow>
         sret (ret (Ok \<lparr>reg_device_id = dev_id existing, reg_ipv4 = show_ipv4 (dev_ipv4 existing),
                        reg_network = network_cidr app, reg_status = status_text (dev_status existing)\<rparr>))
     | Some None \<Rightarrow> do {
         now \<leftarrow> unix_now;
         allocated \<leftarrow> allocate_ip (ip_base app) (ip_max_offset app);
         case allocated of
           None \<Rightarrow> sret (ret (Err Conflict409))
         | Some ip \<Rightarrow> do {
             first \<leftarrow> is_first_device;
             let dstatus = (if first then Approved else Pending);
             r \<leftarrow> insert_device \<lparr>dev_id = new_v4, dev_key = public_key, dev_host = hostname,
                                dev_ipv4 = ip, dev_status = dstatus, dev_created = now, dev_seen = now\<rparr>;
             case r of
               Err _ \<Rightarrow> sret (ret (Err Internal500))
             | Ok _ \<Rightarrow>
                 sret (ret (Ok \<lparr>reg_device_id = new_v4, reg_ipv4 = show_ipv4 ip,
                                reg_network = network_cidr app,
                                reg_status = (if dstatus = Approved then ''approved'' else ''pending'')\<rparr>)) } } }"

definition handle_peers :: "(http_status + peer_info list) panics sql" where
  "handle_peers = do {
     r \<leftarrow> list_approved;
     case r of
       None \<Rightarrow> sret panic
     | Some (Err _) \<Rightarrow> sret (ret (Err Internal500))
     | Some (Ok ds) \<Rightarrow> do {
         now \<leftarrow> unix_now;
         sret (ret (Ok (map (\<lambda>d. \<lparr>pi_device_id = dev_id d, pi_ipv4 = show_ipv4 (dev_ipv4 d),
             pi_public_key = dev_key d, pi_hostname = dev_host d,
             pi_last_seen_secs = i64_saturating_sub now (dev_seen d)\<rparr>) ds))) } }"

definition handle_admin_peers :: "(http_status + admin_peer_info list) panics sql" where
  "handle_admin_peers = do {
     r \<leftarrow> list_all_devices;
     case r of
       None \<Rightarrow> sret panic
     | Some (Err _) \<Rightarrow> sret (ret (Err Internal500))
     | Some (Ok ds) \<Rightarrow> do {
         now \<leftarrow> unix_now;
         sret (ret (Ok (map (\<lambda>d. \<lparr>ap_device_id = dev_id d, ap_ipv4 = show_ipv4 (dev_ipv4 d),
             ap_hostname = dev_host d, ap_status = status_text (dev_status d),
             ap_last_seen_secs = i64_saturating_sub now (dev_seen d)\<rparr>) ds))) } }"

definition handle_pending :: "(http_status + pending_info list) panics sql" where
  "handle_pending = do {
     r \<leftarrow> list_pending;
     case r of
       None \<Rightarrow> sret panic
     | Some (Err _) \<Rightarrow> sret (ret (Err Internal500))
     | Some (Ok ds) \<Rightarrow>
         sret (ret (Ok (map (\<lambda>d. \<lparr>pe_device_id = dev_id d, pe_hostname = dev_host d,
             pe_ipv4 = show_ipv4 (dev_ipv4 d), pe_created_at = dev_created d\<rparr>) ds))) }"

text \<open>\<open>unwrap_or(false)\<close> on the result of an update.\<close>

definition or_false :: "sql_error + bool \<Rightarrow> bool" where
  "or_false r = (case r of Ok b \<Rightarrow> b | Err _ \<Rightarrow> False)"

definition handle_heartbeat :: "uuid \<Rightarrow> bool sql" where
  "handle_heartbeat i = do { r \<leftarrow> heartbeat i; sret (or_false r) }"

definition handle_unregister :: "uuid \<Rightarrow> bool sql" where
  "handle_unregister i = do { r \<leftarrow> delete_device i; sret (or_false r) }"

definition handle_approve :: "uuid \<Rightarrow> (bool \<times> uuid) sql" where
  "handle_approve i = do { r \<leftarrow> approve_device i; sret (or_false r, i) }"

definition handle_revoke :: "uuid \<Rightarrow> (bool \<times> uuid) sql" where
  "handle_revoke i = do { r \<leftarrow> revoke_device i; sret (or_false r, i) }"

definition handle_allocations :: "app_state \<Rightarrow> (int \<times> int \<times> int \<times> string) sql" where
  "handle_allocations app = do {
     total \<leftarrow> pool_size;
     used \<leftarrow> allocated_count;
     sret (int total, int used, i64_saturating_sub (int total) (int used), network_cidr app) }"

fun handle_publish_candidates :: "uuid \<Rightarrow> string list \<Rightarrow> http_status sql" where
  "handle_publish_candidates i [] = sret Ok200"
| "handle_publish_candidates i (addr # addrs) = do {
     r \<leftarrow> upsert_candidate i addr;
     case r of
       Err _ \<Rightarrow> sret Internal500
     | Ok _ \<Rightarrow> handle_publish_candidates i addrs }"

definition handle_get_candidates :: "uuid \<Rightarrow> (http_status + uuid \<times> string list) sql" where
  "handle_get_candidates i = do {
     r \<leftarrow> get_candidates i;
     sret (case r of Err _ \<Rightarrow> Err NotFound404 | Ok cs \<Rightarrow> Ok (i, cs)) }"

definition handle_dns_records :: "(http_status + (string \<times> string) list) sql" where
  "handle_dns_records = do {
     r \<leftarrow> list_dns_records;
     sret (case r of Err _ \<Rightarrow> Err Internal500 | Ok rs \<Rightarrow> Ok rs) }"

definition handle_list_acl :: "(http_status + acl_row list) sql" where
  "handle_list_acl = do {
     r \<leftarrow> list_acl_rules;
     sret (case r of Err _ \<Rightarrow> Err Internal500 | Ok rs \<Rightarrow> Ok rs) }"

definition handle_upsert_acl :: "acl_row \<Rightarrow> http_status sql" where
  "handle_upsert_acl rule = do {
     r \<leftarrow> upsert_acl_rule rule;
     sret (case r of Err _ \<Rightarrow> Internal500 | Ok _ \<Rightarrow> Ok200) }"

definition handle_delete_acl :: "int \<Rightarrow> http_status sql" where
  "handle_delete_acl i = do {
     r \<leftarrow> delete_acl_rule i;
     sret (case r of Err _ \<Rightarrow> Internal500 | Ok _ \<Rightarrow> Ok200) }"

section \<open>The router\<close>

datatype request =
    RegisterReq uuid bytes string
  | UnregisterReq uuid
  | ApproveReq uuid
  | RevokeReq uuid
  | PendingReq
  | PeersReq
  | AdminPeersReq
  | HeartbeatReq uuid
  | HealthReq
  | AllocationsReq
  | PublishCandidatesReq uuid "string list"
  | GetCandidatesReq uuid
  | DnsReq
  | ListAclReq
  | UpsertAclReq acl_row
  | DeleteAclReq int
  | PurgeTick

datatype response =
    RegisterR register_response
  | DeleteR bool
  | ApprovalR bool uuid
  | RevokeR bool uuid
  | PendingR "pending_info list"
  | PeersR "peer_info list"
  | AdminPeersR "admin_peer_info list"
  | HeartbeatR bool
  | HealthR string
  | AllocationR int int int string
  | CandidatesR uuid "string list"
  | DnsR "(string \<times> string) list"
  | AclR "acl_row list"
  | StatusR http_status
  | PanicR
  | NoReply

definition reply :: "('a \<Rightarrow> response) \<Rightarrow> http_status + 'a \<Rightarrow> response" where
  "reply f r = (case r of Err e \<Rightarrow> StatusR e | Ok x \<Rightarrow> f x)"

definition reply_panics :: "('a \<Rightarrow> response) \<Rightarrow> (http_status + 'a) panics \<Rightarrow> response" where
  "reply_panics f r = (case r of None \<Rightarrow> PanicR | Some x \<Rightarrow> reply f x)"

fun serve :: "app_state \<Rightarrow> request \<Rightarrow> response sql" where
  "serve app (RegisterReq new_v4 pk host) =
     (if length pk \<noteq> 32 then sret (StatusR Unprocessable422)
      else do { r \<leftarrow> handle_register app new_v4 pk host; sret (reply_panics RegisterR r) })"
| "serve app (UnregisterReq i) = do { r \<leftarrow> handle_unregister i; sret (DeleteR r) }"
| "serve app (ApproveReq i) = do { (r, j) \<leftarrow> handle_approve i; sret (ApprovalR r j) }"
| "serve app (RevokeReq i) = do { (r, j) \<leftarrow> handle_revoke i; sret (RevokeR r j) }"
| "serve app PendingReq = do { r \<leftarrow> handle_pending; sret (reply_panics PendingR r) }"
| "serve app PeersReq = do { r \<leftarrow> handle_peers; sret (reply_panics PeersR r) }"
| "serve app AdminPeersReq = do { r \<leftarrow> handle_admin_peers; sret (reply_panics AdminPeersR r) }"
| "serve app (HeartbeatReq i) = do { r \<leftarrow> handle_heartbeat i; sret (HeartbeatR r) }"
| "serve app HealthReq = sret (HealthR ''ok'')"
| "serve app AllocationsReq = do {
     (total, used, free, net) \<leftarrow> handle_allocations app;
     sret (AllocationR total used free net) }"
| "serve app (PublishCandidatesReq i addrs) = do {
     r \<leftarrow> handle_publish_candidates i addrs; sret (StatusR r) }"
| "serve app (GetCandidatesReq i) = do {
     r \<leftarrow> handle_get_candidates i; sret (reply (\<lambda>(j, cs). CandidatesR j cs) r) }"
| "serve app DnsReq = do { r \<leftarrow> handle_dns_records; sret (reply DnsR r) }"
| "serve app ListAclReq = do { r \<leftarrow> handle_list_acl; sret (reply AclR r) }"
| "serve app (UpsertAclReq rule) = do { r \<leftarrow> handle_upsert_acl rule; sret (StatusR r) }"
| "serve app (DeleteAclReq i) = do { r \<leftarrow> handle_delete_acl i; sret (StatusR r) }"
| "serve app PurgeTick = do { _ \<leftarrow> purge_stale (stale_timeout app); sret NoReply }"

text \<open>A history of requests served one after the other.\<close>

fun serve_all :: "app_state \<Rightarrow> request list \<Rightarrow> response list sql" where
  "serve_all app [] = sret []"
| "serve_all app (r # rs) = do {
     x \<leftarrow> serve app r;
     xs \<leftarrow> serve_all app rs;
     sret (x # xs) }"

section \<open>Every history keeps the store consistent\<close>

lemma safe_handlers [safe_intros]:
  "safe is_first_device" "safe handle_peers" "safe handle_admin_peers" "safe handle_pending"
  "safe (handle_heartbeat i)" "safe (handle_unregister i)" "safe (handle_approve i)"
  "safe (handle_revoke i)" "safe (handle_allocations app)" "safe (handle_get_candidates i)"
  "safe handle_dns_records" "safe handle_list_acl" "safe (handle_upsert_acl rule)"
  "safe (handle_delete_acl n)"
  unfolding is_first_device_def handle_peers_def handle_admin_peers_def handle_pending_def
    handle_heartbeat_def handle_unregister_def handle_approve_def handle_revoke_def
    handle_allocations_def handle_get_candidates_def handle_dns_records_def handle_list_acl_def
    handle_upsert_acl_def handle_delete_acl_def
  by (intro safe_intros)+

lemma safe_publish [safe_intros]: "safe (handle_publish_candidates i addrs)"
  by (induction addrs) (auto intro!: safe_intros)

lemma safe_register [safe_intros]:
  "length pk = 32 \<Longrightarrow> safe (handle_register app new_v4 pk host)"
  unfolding handle_register_def by (intro safe_intros) auto

lemma safe_prod [safe_intros]: "(\<And>a b. safe (f a b)) \<Longrightarrow> safe (case p of (a, b) \<Rightarrow> f a b)"
  by (cases p) simp

lemma safe_serve [safe_intros]: "safe (serve app req)"
  by (cases req) (auto intro!: safe_intros)

lemma safe_serve_all [safe_intros]: "safe (serve_all app reqs)"
  by (induction reqs) (auto intro!: safe_intros)

text \<open>The first query of a handler on a consistent store, and the absence of panics.\<close>

lemma run_query: "run_state (query q) s =
    (if take 1 (faults s) = [True] then Err SqlIo else Ok (q (tables s)), s\<lparr>faults := tl (faults s)\<rparr>)"
  by (simp add: query_def)

lemma list_no_panic:
  assumes "db_inv (tables s)"
  shows "fst (run_state list_approved s) \<noteq> panic" and "fst (run_state list_all_devices s) \<noteq> panic"
    and "fst (run_state list_pending s) \<noteq> panic" and "fst (run_state (find_by_public_key pk) s) \<noteq> panic"
  using assms
  by (simp_all add: list_approved_def list_all_devices_def list_pending_def find_by_public_key_def
      run_query records_by_created optional_record_ok)

lemma fst_bind: "fst (run_state (m \<bind> f) s) = fst (run_state (f (fst (run_state m s))) (snd (run_state m s)))"
  by (simp split: prod.split)

lemma handlers_no_panic:
  assumes "db_inv (tables s)"
  shows "fst (run_state handle_peers s) \<noteq> panic" and "fst (run_state handle_admin_peers s) \<noteq> panic"
    and "fst (run_state handle_pending s) \<noteq> panic"
    and "fst (run_state (handle_register app i pk host) s) \<noteq> panic"
proof -
  show "fst (run_state handle_peers s) \<noteq> panic"
    using list_no_panic(1) [OF assms] unfolding handle_peers_def fst_bind
    by (auto simp: run_unix_now split: sum.split)
  show "fst (run_state handle_admin_peers s) \<noteq> panic"
    using list_no_panic(2) [OF assms] unfolding handle_admin_peers_def fst_bind
    by (auto simp: run_unix_now split: sum.split)
  show "fst (run_state handle_pending s) \<noteq> panic"
    using list_no_panic(3) [OF assms] unfolding handle_pending_def fst_bind
    by (auto simp: run_unix_now split: sum.split)
  show "fst (run_state (handle_register app i pk host) s) \<noteq> panic"
    using list_no_panic(4) [OF assms, of pk] unfolding handle_register_def fst_bind
    by (auto simp: Let_def split: sum.split option.split prod.split)
qed

lemma reply_panics_not [simp]:
  assumes "r \<noteq> panic" and "\<And>x. f x \<noteq> PanicR"
  shows "reply_panics f r \<noteq> PanicR"
  using assms by (auto simp: reply_panics_def reply_def split: option.split sum.split)

lemma reply_not [simp]: "(\<And>x. f x \<noteq> PanicR) \<Longrightarrow> reply f r \<noteq> PanicR"
  by (auto simp: reply_def split: sum.split)

lemma serve_no_panic: "db_inv (tables s) \<Longrightarrow> fst (run_state (serve app req) s) \<noteq> PanicR"
proof (cases req)
  case (RegisterReq i pk host)
  assume "db_inv (tables s)"
  then have "fst (run_state (handle_register app i pk host) s) \<noteq> panic" by (rule handlers_no_panic)
  then obtain x t where "run_state (handle_register app i pk host) s = (ret x, t)"
    by (cases "run_state (handle_register app i pk host) s") auto
  with RegisterReq show ?thesis by (cases x) (simp_all add: reply_panics_def reply_def)
qed (use handlers_no_panic [of s] in \<open>auto split: prod.split\<close>)

text \<open>
  C2: Whatever requests arrive, whatever the clock says and whichever SQL statements fail: the
  store stays consistent and no handler panics. The invariant says in particular that ids, keys
  and addresses stay unique and that what is stored can be read back.
\<close>

theorem serve_all_consistent:
  assumes "db_inv (tables s)"
  shows "db_inv (tables (snd (run_state (serve_all app reqs) s)))
     \<and> PanicR \<notin> set (fst (run_state (serve_all app reqs) s))"
proof -
  have step: "db_inv (tables (snd (run_state (serve app req) s)))" if "db_inv (tables s)" for req s
    using safe_serve [of app req] that leads_inv by (auto simp: safe_def)
  show ?thesis
    using assms
  proof (induction reqs arbitrary: s)
    case (Cons req reqs)
    let ?s = "snd (run_state (serve app req) s)"
    have "db_inv (tables ?s)" using step Cons.prems by simp
    from Cons.IH [OF this] serve_no_panic [OF Cons.prems, of app req]
    show ?case by (auto split: prod.split)
  qed simp
qed

theorem serve_all_consistent_witness:
  "db_inv (tables (snd (run_state (serve_all \<lparr>db_path = [], ip_base = 0x64400000, ip_max_offset = 0xFFFF,
       network_cidr = [], stale_timeout = 300\<rparr>
     [RegisterReq 1 (replicate 32 1) ''a'', RegisterReq 2 (replicate 32 2) ''b'', ApproveReq 2, PurgeTick])
     \<lparr>tables = init_db, faults = [False, True], times = [5, 6]\<rparr>)))"
proof -
  have "db_inv (tables \<lparr>tables = init_db, faults = [False, True], times = [5, 6]\<rparr>)"
    by (simp add: init_db_inv)
  from serve_all_consistent [OF this] show ?thesis by (rule conjunct1)
qed

section \<open>Registration\<close>

lemma find_key_unique:
  assumes "db_inv d" and "r \<in> set (devices d)"
  shows "find (\<lambda>x. row_key x = row_key r) (devices d) = Some r"
proof -
  obtain x where x: "find (\<lambda>x. row_key x = row_key r) (devices d) = Some x"
    using assms(2) by (cases "find (\<lambda>x. row_key x = row_key r) (devices d)") (auto simp: find_None_iff)
  then have "x \<in> set (devices d)" "row_key x = row_key r" by (auto simp: find_Some_iff)
  with assms have "x = r"
    using db_invD(1) [OF assms(1)] by (auto simp: unique_devices_def distinct_map dest: inj_onD)
  with x show ?thesis by simp
qed

lemma run_find_by_public_key:
  "db_inv (tables s) \<Longrightarrow> faults s = [] \<Longrightarrow>
     run_state (find_by_public_key pk) s =
       (ret (map_option record_view (find (\<lambda>x. row_key x = pk) (devices (tables s)))), s)"
  by (simp add: find_by_public_key_def run_query_ok optional_record_ok)

lemma status_text_row:
  "row_ok r \<Longrightarrow> status_text (status_from_i32 (row_status r)) =
     (if row_status r = 1 then ''approved'' else if row_status r = 0 then ''pending'' else ''revoked'')"
  by (auto simp: row_ok_def status_from_i32_def status_text_def)

lemma show_unspecified: "show_ipv4 ipv4_unspecified = ''0.0.0.0''"
  by code_simp

lemma row_address_shown:
  "row_ok r \<Longrightarrow> show_ipv4 (dev_ipv4 (record_view r)) =
     (if row_status r = -1 then ''0.0.0.0'' else row_ipv4 r)"
  by (auto simp: row_ok_def record_view_def show_unspecified)

text \<open>
  Registration is idempotent per key: a key that is already registered gets its device id,
  address and current status again, and nothing changes in the store. A revoked device is told
  the address 0.0.0.0.
\<close>

theorem register_known_key:
  assumes "db_inv (tables s)" and "faults s = []" and "r \<in> set (devices (tables s))"
  shows "run_state (handle_register app new_v4 (row_key r) host) s =
     (ret (Ok \<lparr>reg_device_id = row_id r,
               reg_ipv4 = (if row_status r = -1 then ''0.0.0.0'' else row_ipv4 r),
               reg_network = network_cidr app,
               reg_status = (if row_status r = 1 then ''approved''
                             else if row_status r = 0 then ''pending'' else ''revoked'')\<rparr>), s)"
proof -
  have ok: "row_ok r" using db_invD(2) [OF assms(1)] assms(3) by blast
  have "dev_id (record_view r) = row_id r" "dev_status (record_view r) = status_from_i32 (row_status r)"
    by (simp_all add: record_view_def)
  then show ?thesis
    using run_find_by_public_key [OF assms(1,2), of "row_key r"] find_key_unique [OF assms(1,3)]
    by (simp add: handle_register_def status_text_row [OF ok] row_address_shown [OF ok])
qed

definition sample_app :: app_state where
  "sample_app = \<lparr>db_path = ''connectalso.db'', ip_base = ipv4_new 100 64 0 0, ip_max_offset = 0xFFFF,
                 network_cidr = ''100.64.0.0/16'', stale_timeout = 300\<rparr>"

theorem register_known_key_witness:
  "fst (run_state (handle_register sample_app 9 (replicate 32 7) ''other'')
     \<lparr>tables = init_db\<lparr>devices := [\<lparr>row_id = 1, row_key = replicate 32 7, row_host = ''a'', row_ipv4 = [],
        row_status = -1, row_created = 0, row_seen = 0\<rparr>]\<rparr>, faults = [], times = []\<rparr>)
   = ret (Ok \<lparr>reg_device_id = 1, reg_ipv4 = ''0.0.0.0'', reg_network = network_cidr sample_app, reg_status = ''revoked''\<rparr>)"
proof -
  let ?r = "\<lparr>row_id = 1, row_key = replicate 32 7, row_host = ''a'', row_ipv4 = [],
        row_status = -1, row_created = 0, row_seen = 0\<rparr>"
  let ?s = "\<lparr>tables = init_db\<lparr>devices := [?r]\<rparr>, faults = [], times = []\<rparr>"
  have "db_inv (tables ?s)" by (simp add: db_inv_def init_db_def unique_devices_def row_ok_def)
  from register_known_key [OF this, of ?r sample_app 9 "''other''"] show ?thesis by simp
qed

lemma pool_all_taken:
  "db_inv d \<Longrightarrow> first_min ip_text (filter (\<lambda>p. ip_allocated p = 0) (ip_pool d)) = None"
  using db_invD(4) by (auto simp: filter_empty_conv)

text \<open>The address a registration gets: the base plus the number of rows of the pool.\<close>

definition next_ip :: "app_state \<Rightarrow> db \<Rightarrow> ipv4" where
  "next_ip app d = ip_base app + of_nat (length (ip_pool d))"

definition pool_full :: "app_state \<Rightarrow> db \<Rightarrow> bool" where
  "pool_full app d \<longleftrightarrow> (of_nat (length (ip_pool d)) :: u32) > ip_max_offset app"

definition taken :: "ipv4 \<Rightarrow> db \<Rightarrow> db" where
  "taken ip d = snd (exec_stmt (InsertIp (show_ipv4 ip)) d)"

lemma run_allocate_ip:
  assumes "db_inv (tables s)" and "faults s = []"
  shows "run_state (allocate_ip (ip_base app) (ip_max_offset app)) s =
     (if pool_full app (tables s) then (None, s)
      else (Some (next_ip app (tables s)), s\<lparr>tables := taken (next_ip app (tables s)) (tables s)\<rparr>))"
  using assms
  by (simp add: allocate_ip_def run_query_ok pool_all_taken run_execute_ok pool_full_def next_ip_def
      taken_def Let_def del: exec_stmt.simps)

lemma taken_devices [simp]: "devices (taken ip d) = devices d"
  by (simp add: taken_def)

definition now_of :: "env \<Rightarrow> int" where
  "now_of s = (case times s of [] \<Rightarrow> 0 | t # _ \<Rightarrow> t)"

definition registered_row :: "app_state \<Rightarrow> env \<Rightarrow> uuid \<Rightarrow> bytes \<Rightarrow> string \<Rightarrow> device_row" where
  "registered_row app s i pk host =
     \<lparr>row_id = i, row_key = pk, row_host = host, row_ipv4 = show_ipv4 (next_ip app (tables s)),
      row_status = (if devices (tables s) = [] then 1 else 0),
      row_created = now_of s, row_seen = now_of s\<rparr>"

lemma register_new_key_fact:
  assumes "db_inv (tables s)" and "faults s = []" and "pk \<notin> row_key ` set (devices (tables s))"
  shows "run_state (handle_register app i pk host) s =
     (let d = tables s; ip = next_ip app d; s1 = s\<lparr>times := tl (times s)\<rparr>
      in if pool_full app d then (ret (Err Conflict409), s1)
         else if i \<in> row_id ` set (devices d) \<or> show_ipv4 ip \<in> row_ipv4 ` set (devices d)
         then (ret (Err Internal500), s1\<lparr>tables := taken ip d\<rparr>)
         else (ret (Ok \<lparr>reg_device_id = i, reg_ipv4 = show_ipv4 ip, reg_network = network_cidr app,
                       reg_status = (if devices d = [] then ''approved'' else ''pending'')\<rparr>),
               s1\<lparr>tables := (taken ip d)\<lparr>devices := devices d @ [registered_row app s i pk host]\<rparr>\<rparr>))"
proof -
  let ?d = "tables s" and ?ip = "next_ip app (tables s)"
  let ?s1 = "s\<lparr>times := tl (times s)\<rparr>"
  have none: "find (\<lambda>x. row_key x = pk) (devices ?d) = None"
    using assms(3) by (auto simp: find_None_iff)
  have inv1: "db_inv (tables ?s1)" and f1: "faults ?s1 = []" using assms by simp_all
  have alloc: "run_state (allocate_ip (ip_base app) (ip_max_offset app)) ?s1 =
     (if pool_full app ?d then (None, ?s1) else (Some ?ip, ?s1\<lparr>tables := taken ?ip ?d\<rparr>))"
    using run_allocate_ip [OF inv1 f1] by simp
  have uniq: "unique_devices (devices ?d @ [registered_row app s i pk host]) \<longleftrightarrow>
      i \<notin> row_id ` set (devices ?d) \<and> show_ipv4 ?ip \<notin> row_ipv4 ` set (devices ?d)"
    using db_invD(1) [OF assms(1)] assms(3) by (auto simp: unique_devices_def registered_row_def)
  have row: "row_of_record \<lparr>dev_id = i, dev_key = pk, dev_host = host, dev_ipv4 = ?ip,
       dev_status = (if devices ?d = [] then Approved else Pending), dev_created = now_of s, dev_seen = now_of s\<rparr>
     = registered_row app s i pk host"
    by (simp add: row_of_record_def registered_row_def)
  show ?thesis
    using assms(2)
    by (simp add: handle_register_def run_find_by_public_key [OF assms(1,2)] none run_unix_now alloc
        is_first_device_def count_devices_def run_query_ok insert_device_def run_execute_ok
        commit_devices_def uniq row now_of_def [symmetric] Let_def)
qed

text \<open>
  Registration of a new key: a full pool is a conflict; otherwise the device gets the
  address base plus the number of pool rows, and is stored as Approved if it is the first device
  and Pending if not. If that address still belongs to a device, or the id is taken, the reply is
  an internal error and the pool row stays behind.
\<close>

theorem register_new_key:
  assumes "db_inv (tables s)" and "faults s = []" and "pk \<notin> row_key ` set (devices (tables s))"
  shows "run_state (handle_register app i pk host) s =
     (let d = tables s; ip = next_ip app d; s1 = s\<lparr>times := tl (times s)\<rparr>
      in if pool_full app d then (ret (Err Conflict409), s1)
         else if i \<in> row_id ` set (devices d) \<or> show_ipv4 ip \<in> row_ipv4 ` set (devices d)
         then (ret (Err Internal500), s1\<lparr>tables := taken ip d\<rparr>)
         else (ret (Ok \<lparr>reg_device_id = i, reg_ipv4 = show_ipv4 ip, reg_network = network_cidr app,
                       reg_status = (if devices d = [] then ''approved'' else ''pending'')\<rparr>),
               s1\<lparr>tables := (taken ip d)\<lparr>devices := devices d @ [registered_row app s i pk host]\<rparr>\<rparr>))"
  using assms by (rule register_new_key_fact)

definition sample_env :: env where
  "sample_env = \<lparr>tables = init_db, faults = [], times = [1000, 1001, 1002, 1003]\<rparr>"

lemma sample_env_ok: "db_inv (tables sample_env)" "faults sample_env = []"
  by (simp_all add: sample_env_def init_db_inv)

lemma show_sample_ips:
  "show_ipv4 (ipv4_new 100 64 0 0) = ''100.64.0.0''" "show_ipv4 (ipv4_new 100 64 0 1) = ''100.64.0.1''"
  unfolding show_ipv4_def ipv4_octets_new by code_simp+

lemma sample_ip_next: "ipv4_new 100 64 0 0 + 1 = ipv4_new 100 64 0 1"
  by (simp add: ipv4_new_def u32_of_be_def be_val_def)

lemma next_ip_sample: "show_ipv4 (next_ip sample_app init_db) = ''100.64.0.0''"
  using show_sample_ips by (simp add: next_ip_def sample_app_def init_db_def)

theorem register_new_key_witness:
  "fst (run_state (handle_register sample_app 1 (replicate 32 7) ''laptop'') sample_env) =
     ret (Ok \<lparr>reg_device_id = 1, reg_ipv4 = ''100.64.0.0'', reg_network = ''100.64.0.0/16'',
             reg_status = ''approved''\<rparr>)"
proof -
  have "replicate 32 7 \<notin> row_key ` set (devices (tables sample_env))"
    by (simp add: sample_env_def init_db_def)
  moreover have "\<not> pool_full sample_app init_db" by (simp add: pool_full_def sample_app_def init_db_def)
  ultimately show ?thesis
    using register_new_key [OF sample_env_ok, of "replicate 32 7" sample_app 1 "''laptop''"] next_ip_sample
    by (simp add: Let_def sample_env_def) (simp add: init_db_def sample_app_def)
qed

section \<open>A pool that no longer yields addresses\<close>

text \<open>
  The next address is there as a pool row and belongs to a device. That happens as soon as a
  device other than the last one is removed: its pool row goes, and the count of rows points at
  the address of a device that is still there.
\<close>

definition wedged :: "app_state \<Rightarrow> db \<Rightarrow> bool" where
  "wedged app d \<longleftrightarrow> \<not> pool_full app d \<and> show_ipv4 (next_ip app d) \<in> ip_text ` set (ip_pool d)
     \<and> show_ipv4 (next_ip app d) \<in> row_ipv4 ` set (devices d)"

definition new_registration :: "db \<Rightarrow> request \<Rightarrow> bool" where
  "new_registration d req \<longleftrightarrow> (case req of
      RegisterReq i pk host \<Rightarrow> length pk = 32 \<and> pk \<notin> row_key ` set (devices d)
    | _ \<Rightarrow> False)"

lemma wedged_step:
  assumes "db_inv (tables s)" and "faults s = []" and "wedged app (tables s)"
    and "new_registration (tables s) req"
  shows "run_state (serve app req) s = (StatusR Internal500, s\<lparr>times := tl (times s)\<rparr>)"
proof -
  obtain i pk host where req: "req = RegisterReq i pk host" "length pk = 32"
      "pk \<notin> row_key ` set (devices (tables s))"
    using assms(4) by (auto simp: new_registration_def split: request.splits)
  have "taken (next_ip app (tables s)) (tables s) = tables s"
    using assms(3) by (simp add: taken_def wedged_def)
  then show ?thesis
    using register_new_key_fact [OF assms(1,2) req(3), of app i host] assms(3) req
    by (simp add: Let_def wedged_def reply_panics_def reply_def)
qed

lemma registration_wedged:
  assumes "db_inv (tables s)" and "faults s = []" and "wedged app (tables s)"
    and "list_all (new_registration (tables s)) reqs"
  shows "fst (run_state (serve_all app reqs) s) = replicate (length reqs) (StatusR Internal500)
     \<and> tables (snd (run_state (serve_all app reqs) s)) = tables s"
  using assms
proof (induction reqs arbitrary: s)
  case (Cons req reqs)
  let ?s = "s\<lparr>times := tl (times s)\<rparr>"
  have "run_state (serve app req) s = (StatusR Internal500, ?s)"
    using wedged_step [OF Cons.prems(1-3)] Cons.prems(4) by simp
  moreover have "fst (run_state (serve_all app reqs) ?s) = replicate (length reqs) (StatusR Internal500)
     \<and> tables (snd (run_state (serve_all app reqs) ?s)) = tables ?s"
    using Cons.prems by (intro Cons.IH) simp_all
  ultimately show ?case by (auto split: prod.split)
qed simp

lemma delete_device_tables:
  assumes "db_inv (tables s)" and "faults s = []"
  shows "run_state (delete_device i) s =
     (Ok (\<exists>r\<in>set (devices (tables s)). row_id r = i),
      s\<lparr>tables := (tables s)
           \<lparr>ip_pool := delete_where (\<lambda>p. \<exists>r\<in>set (devices (tables s)). row_id r = i \<and> ip_text p = row_ipv4 r)
                        (ip_pool (tables s)),
            devices := delete_where (\<lambda>r. row_id r = i) (devices (tables s))\<rparr>\<rparr>)"
proof -
  have "t \<in> row_ipv4 ` {r \<in> set rs. row_id r = i} \<longleftrightarrow> (\<exists>r\<in>set rs. row_id r = i \<and> t = row_ipv4 r)"
    for t and rs :: "device_row list"
    by auto
  then show ?thesis
    using assms(2) unique_delete_where [OF db_invD(1) [OF assms(1)]]
    by (simp add: delete_device_def run_execute_ok free_ips_def Let_def commit_devices_def affected_def
        count_where_pos)
qed

lemma length_delete_one:
  assumes "distinct (map f xs)" and "x \<in> set xs"
  shows "length (delete_where (\<lambda>y. f y = f x) xs) = length xs - 1"
proof -
  obtain ys zs where xs: "xs = ys @ x # zs" using assms(2) by (auto dest: split_list)
  with assms(1) have "\<forall>y\<in>set ys. f y \<noteq> f x" "\<forall>y\<in>set zs. f y \<noteq> f x"
    by (auto simp: rev_image_eqI)
  then have "filter (\<lambda>y. f y \<noteq> f x) ys = ys" "filter (\<lambda>y. f y \<noteq> f x) zs = zs"
    by (simp_all add: filter_id_conv)
  with xs show ?thesis by (simp add: delete_where_def)
qed

text \<open>
  Removing a device other than the one with the last address leads to that state.
\<close>

lemma unregister_wedges:
  assumes inv: "db_inv (tables s)" and "faults s = []"
    and r: "r \<in> set (devices (tables s))" "row_ipv4 r \<in> ip_text ` set (ip_pool (tables s))"
    and l: "l \<in> set (devices (tables s))" "row_ipv4 l \<in> ip_text ` set (ip_pool (tables s))"
    and "l \<noteq> r" and last: "row_ipv4 l = show_ipv4 (next_ip app (tables s) - 1)"
    and room: "(of_nat (length (ip_pool (tables s)) - 1) :: u32) \<le> ip_max_offset app"
  shows "wedged app (tables (snd (run_state (serve app (UnregisterReq (row_id r))) s)))"
proof -
  let ?d = "tables s"
  note uniq = db_invD(1) [OF inv]
  obtain p where p: "p \<in> set (ip_pool ?d)" "ip_text p = row_ipv4 r" using r(2) by auto
  have only: "x = r" if "x \<in> set (devices ?d)" "row_id x = row_id r" for x
    using that r(1) uniq by (auto simp: unique_devices_def distinct_map dest: inj_onD)
  have ip: "row_ipv4 l \<noteq> row_ipv4 r" and id: "row_id l \<noteq> row_id r"
    using uniq l(1) r(1) \<open>l \<noteq> r\<close> by (auto simp: unique_devices_def distinct_map dest: inj_onD)
  define pool where "pool = delete_where (\<lambda>q. ip_text q = ip_text p) (ip_pool ?d)"
  have P: "(\<lambda>q. \<exists>x\<in>set (devices ?d). row_id x = row_id r \<and> ip_text q = row_ipv4 x) = (\<lambda>q. ip_text q = ip_text p)"
    using only r(1) p(2) by (auto simp: fun_eq_iff)
  have t: "tables (snd (run_state (serve app (UnregisterReq (row_id r))) s)) =
      ?d\<lparr>ip_pool := pool, devices := delete_where (\<lambda>x. row_id x = row_id r) (devices ?d)\<rparr>"
    by (simp add: handle_unregister_def delete_device_tables [OF assms(1,2)] P pool_def)
  have len: "length pool = length (ip_pool ?d) - 1"
    unfolding pool_def by (rule length_delete_one [OF db_invD(3) [OF inv] p(1)])
  have "0 < length (ip_pool ?d)" using p(1) by (auto simp: length_pos_if_in_set)
  then have "(of_nat (length pool) :: u32) = of_nat (length (ip_pool ?d)) - 1"
    by (cases "length (ip_pool ?d)") (simp_all add: len)
  then have next': "ip_base app + of_nat (length pool) = next_ip app ?d - 1" by (simp add: next_ip_def)
  have "row_ipv4 l \<in> ip_text ` set pool"
    using l(2) ip p(2) by (auto simp: pool_def)
  moreover have "row_ipv4 l \<in> row_ipv4 ` set (delete_where (\<lambda>x. row_id x = row_id r) (devices ?d))"
    by (rule imageI) (use l(1) id in simp)
  moreover define d' where "d' = tables (snd (run_state (serve app (UnregisterReq (row_id r))) s))"
  moreover have "ip_pool d' = pool" "devices d' = delete_where (\<lambda>x. row_id x = row_id r) (devices ?d)"
    unfolding d'_def t by simp_all
  ultimately show ?thesis
    unfolding wedged_def next_ip_def pool_full_def
    using room by (simp only: len next' [unfolded len] last not_less simp_thms)
qed

text \<open>
  C36: When the control service has handed out the addresses up to \<open>next_ip - 1\<close> and a device
  other than the holder of that last address is unregistered, then every later registration of a
  new device is answered with an internal error and changes nothing: until another removal no
  device joins the network again, however many of its addresses are unused.
\<close>

theorem unregister_stops_registration:
  assumes "db_inv (tables s)" and "faults s = []"
    and "r \<in> set (devices (tables s))" "row_ipv4 r \<in> ip_text ` set (ip_pool (tables s))"
    and "l \<in> set (devices (tables s))" "row_ipv4 l \<in> ip_text ` set (ip_pool (tables s))"
    and "l \<noteq> r" and "row_ipv4 l = show_ipv4 (next_ip app (tables s) - 1)"
    and "(of_nat (length (ip_pool (tables s)) - 1) :: u32) \<le> ip_max_offset app"
    and "s' = snd (run_state (serve app (UnregisterReq (row_id r))) s)"
    and "list_all (new_registration (tables s')) reqs"
  shows "fst (run_state (serve_all app reqs) s') = replicate (length reqs) (StatusR Internal500)
     \<and> tables (snd (run_state (serve_all app reqs) s')) = tables s'"
proof (rule registration_wedged)
  show "wedged app (tables s')" unfolding assms(10) by (rule unregister_wedges [OF assms(1-9)])
  show "db_inv (tables s')"
    using safe_serve [of app "UnregisterReq (row_id r)"] assms(1,10) leads_inv by (auto simp: safe_def)
  show "faults s' = []"
    using assms(2,10) by (simp add: handle_unregister_def delete_device_tables [OF assms(1,2)])
qed (rule assms(11))

definition laptop_row :: device_row where
  "laptop_row = \<lparr>row_id = 1, row_key = replicate 32 1, row_host = ''laptop'', row_ipv4 = ''100.64.0.0'',
                 row_status = 1, row_created = 1000, row_seen = 1000\<rparr>"

definition phone_row :: device_row where
  "phone_row = \<lparr>row_id = 2, row_key = replicate 32 2, row_host = ''phone'', row_ipv4 = ''100.64.0.1'',
                row_status = 1, row_created = 1001, row_seen = 1001\<rparr>"

definition two_devices :: env where
  "two_devices = \<lparr>tables = init_db\<lparr>devices := [laptop_row, phone_row],
       ip_pool := [\<lparr>ip_text = ''100.64.0.0'', ip_allocated = 1\<rparr>, \<lparr>ip_text = ''100.64.0.1'', ip_allocated = 1\<rparr>]\<rparr>,
     faults = [], times = [2000]\<rparr>"

lemma two_devices_ok: "db_inv (tables two_devices)" "faults two_devices = []"
proof -
  have a: "\<exists>ip. ''100.64.0.0'' = show_ipv4 ip" "\<exists>ip. ''100.64.0.1'' = show_ipv4 ip"
    using show_sample_ips by (metis, metis)
  then have "row_ok laptop_row" "row_ok phone_row" by (simp_all add: row_ok_def laptop_row_def phone_row_def)
  moreover have "replicate 32 1 \<noteq> (replicate 32 2 :: bytes)" by (simp add: replicate_eq_replicate)
  ultimately show "db_inv (tables two_devices)"
    using a by (simp add: db_inv_def two_devices_def unique_devices_def init_db_def) (simp add: laptop_row_def phone_row_def)
qed (simp add: two_devices_def)

theorem unregister_stops_registration_witness:
  "let s = snd (run_state (serve sample_app (UnregisterReq 1)) two_devices)
   in fst (run_state (serve_all sample_app
        [RegisterReq 3 (replicate 32 3) ''tablet'', RegisterReq 4 (replicate 32 4) ''desktop'']) s)
      = [StatusR Internal500, StatusR Internal500]"
proof -
  let ?s = "snd (run_state (serve sample_app (UnregisterReq (row_id laptop_row))) two_devices)"
  let ?reqs = "[RegisterReq 3 (replicate 32 3) ''tablet'', RegisterReq 4 (replicate 32 4) ''desktop'']"
  have next': "next_ip sample_app (tables two_devices) = ipv4_new 100 64 0 1 + 1"
    by (simp add: next_ip_def sample_app_def two_devices_def sample_ip_next [symmetric])
  have "list_all (new_registration (tables ?s)) ?reqs"
    by (simp add: handle_unregister_def delete_device_tables [OF two_devices_ok] new_registration_def)
       (simp add: two_devices_def laptop_row_def phone_row_def replicate_eq_replicate delete_where_def)
  then have "fst (run_state (serve_all sample_app ?reqs) ?s) = replicate (length ?reqs) (StatusR Internal500)"
    using unregister_stops_registration [OF two_devices_ok, of laptop_row phone_row sample_app ?s ?reqs]
    by (simp add: next' show_sample_ips)
       (simp add: two_devices_def laptop_row_def phone_row_def sample_app_def)
  then show ?thesis by (simp add: laptop_row_def Let_def numeral_eq_Suc)
qed

section \<open>Approval and revocation\<close>

lemma status_update_unique:
  assumes "unique_devices rs" and "\<And>r. row_id (f r) = row_id r" and "\<And>r. row_key (f r) = row_key r"
    and "distinct (map row_ipv4 (update_where P f rs))"
  shows "unique_devices (update_where P f rs)"
  using assms by (simp add: unique_devices_def update_where_same)

text \<open>
  Approval: exactly a Pending device becomes Approved, and the reply says so.
\<close>

theorem approve_spec:
  assumes "db_inv (tables s)" and "faults s = []"
  shows "run_state (handle_approve i) s =
     ((\<exists>r\<in>set (devices (tables s)). row_id r = i \<and> row_status r = 0, i),
      s\<lparr>tables := (tables s)\<lparr>devices :=
          map (\<lambda>r. if row_id r = i \<and> row_status r = 0 then r\<lparr>row_status := 1\<rparr> else r) (devices (tables s))\<rparr>\<rparr>)"
proof -
  have "unique_devices (update_where (\<lambda>r. row_id r = i \<and> row_status r = 0) (row_status_update (\<lambda>_. 1)) (devices (tables s)))"
    using db_invD(1) [OF assms(1)] by (simp add: unique_devices_def update_where_same)
  then show ?thesis
    using assms(2)
    by (simp add: handle_approve_def approve_device_def run_execute_ok Let_def commit_devices_def
        affected_def or_false_def count_where_pos) (simp add: update_where_def)
qed

theorem approve_spec_witness:
  "fst (run_state (handle_approve 1) two_devices) = (False, 1)"
  using approve_spec [OF two_devices_ok, of 1]
  by (simp add: two_devices_def laptop_row_def phone_row_def)

lemma distinct_map_update_one:
  assumes "distinct (map g xs)" and "x \<in> set xs" and "y \<notin> g ` set xs"
  shows "distinct (map (\<lambda>z. if z = x then y else g z) xs)"
  using assms by (auto simp: distinct_map inj_on_def)

text \<open>
  C26: Revocation. The pool row of the device's address is deleted in every case, also for a
  device that is not Approved and keeps its address. An Approved device becomes Revoked if no
  device is Revoked yet. If one is, the second empty address breaks the UNIQUE constraint of the
  column: the reply is \<open>revoked: false\<close>, and the device stays Approved with its address.
\<close>

theorem revoke_spec:
  assumes "db_inv (tables s)" and "faults s = []" and "r \<in> set (devices (tables s))"
  shows "run_state (handle_revoke (row_id r)) s =
     (let d = tables s;
          freed = d\<lparr>ip_pool := filter (\<lambda>p. ip_text p \<noteq> row_ipv4 r) (ip_pool d)\<rparr>
      in if row_status r = 1 \<and> (\<forall>x\<in>set (devices d). row_status x \<noteq> -1)
         then ((True, row_id r),
               s\<lparr>tables := freed\<lparr>devices :=
                   map (\<lambda>x. if x = r then r\<lparr>row_status := -1, row_ipv4 := []\<rparr> else x) (devices d)\<rparr>\<rparr>)
         else ((False, row_id r), s\<lparr>tables := freed\<rparr>))"
proof -
  let ?d = "tables s"
  let ?P = "\<lambda>x. row_id x = row_id r \<and> row_status x = 1"
  let ?f = "\<lambda>x. x\<lparr>row_status := -1, row_ipv4 := []\<rparr> :: device_row"
  note uniq = db_invD(1) [OF assms(1)] and ok = db_invD(2) [OF assms(1)]
  have only: "row_id x = row_id r \<longleftrightarrow> x = r" if "x \<in> set (devices ?d)" for x
    using that assms(3) uniq by (auto simp: unique_devices_def distinct_map dest: inj_onD)
  have freed: "exec_stmt (FreeIpOf (row_id r)) ?d =
      (Ok (count_where (\<lambda>p. ip_text p = row_ipv4 r) (ip_pool ?d)),
       ?d\<lparr>ip_pool := filter (\<lambda>p. ip_text p \<noteq> row_ipv4 r) (ip_pool ?d)\<rparr>)"
  proof -
    have "{x \<in> set (devices ?d). row_id x = row_id r} = {r}" using only assms(3) by auto
    then show ?thesis by (simp add: free_ips_def delete_where_def)
  qed
  have upd: "update_where ?P ?f (devices ?d) =
      (if row_status r = 1 then map (\<lambda>x. if x = r then ?f r else x) (devices ?d) else devices ?d)"
    using only by (auto simp: update_where_def intro!: map_idI)
  have cnt: "0 < count_where ?P (devices ?d) \<longleftrightarrow> row_status r = 1"
    using only assms(3) by (auto simp: count_where_pos)
  have empty: "[] \<in> row_ipv4 ` set (devices ?d) \<longleftrightarrow> (\<exists>x\<in>set (devices ?d). row_status x = -1)"
  proof
    assume "\<exists>x\<in>set (devices ?d). row_status x = -1"
    then obtain x where "x \<in> set (devices ?d)" "row_status x = -1" by blast
    with ok have "row_ipv4 x = []" by (auto simp: row_ok_def)
    with \<open>x \<in> set (devices ?d)\<close> show "[] \<in> row_ipv4 ` set (devices ?d)" by (metis imageI)
  qed (use ok in \<open>auto simp: row_ok_def show_ipv4_nonempty [THEN not_sym]\<close>)
  have u: "unique_devices (update_where ?P ?f (devices ?d)) \<longleftrightarrow>
      row_status r \<noteq> 1 \<or> (\<forall>x\<in>set (devices ?d). row_status x \<noteq> -1)"
  proof (cases "row_status r = 1")
    case True
    have m: "map row_ipv4 (map (\<lambda>x. if x = r then ?f r else x) (devices ?d)) =
        map (\<lambda>x. if x = r then [] else row_ipv4 x) (devices ?d)" by simp
    have "distinct (map (\<lambda>x. if x = r then [] else row_ipv4 x) (devices ?d)) \<longleftrightarrow> [] \<notin> row_ipv4 ` set (devices ?d)"
    proof
      assume "[] \<notin> row_ipv4 ` set (devices ?d)"
      then show "distinct (map (\<lambda>x. if x = r then [] else row_ipv4 x) (devices ?d))"
        using uniq assms(3) by (intro distinct_map_update_one) (simp_all add: unique_devices_def)
    next
      assume dist: "distinct (map (\<lambda>x. if x = r then [] else row_ipv4 x) (devices ?d))"
      show "[] \<notin> row_ipv4 ` set (devices ?d)"
      proof
        assume "[] \<in> row_ipv4 ` set (devices ?d)"
        then obtain x where x: "x \<in> set (devices ?d)" "row_ipv4 x = []" by auto
        have "row_ipv4 r \<noteq> []" using ok assms(3) True by (auto simp: row_ok_def)
        with x have "x \<noteq> r" by auto
        with dist x assms(3) show False by (auto simp: distinct_map inj_on_def)
      qed
    qed
    moreover have "map row_id (update_where ?P ?f (devices ?d)) = map row_id (devices ?d)"
        "map row_key (update_where ?P ?f (devices ?d)) = map row_key (devices ?d)"
      by (simp_all add: update_where_same)
    moreover have "map row_ipv4 (update_where ?P ?f (devices ?d)) =
        map (\<lambda>x. if x = r then [] else row_ipv4 x) (devices ?d)"
      unfolding upd using True m by (simp only: if_True simp_thms)
    ultimately show ?thesis
      using uniq empty True unfolding unique_devices_def by metis
  qed (simp add: upd uniq)
  have u': "row_status r = 1 \<Longrightarrow> unique_devices (map (\<lambda>x. if x = r then ?f r else x) (devices ?d)) \<longleftrightarrow>
      (\<forall>x\<in>set (devices ?d). row_status x \<noteq> -1)"
    using u upd by simp
  show ?thesis
    using assms(2)
    by (simp add: handle_revoke_def revoke_device_def run_execute_ok freed Let_def commit_devices_def
        upd del: exec_stmt.simps(4)) (auto simp: u' uniq cnt affected_def or_false_def)
qed

definition revoked_row :: device_row where
  "revoked_row = \<lparr>row_id = 3, row_key = replicate 32 3, row_host = ''old'', row_ipv4 = [],
                  row_status = -1, row_created = 900, row_seen = 900\<rparr>"

definition one_revoked :: env where
  "one_revoked = two_devices\<lparr>tables := (tables two_devices)\<lparr>devices := [laptop_row, phone_row, revoked_row]\<rparr>\<rparr>"

lemma one_revoked_ok: "db_inv (tables one_revoked)" "faults one_revoked = []"
proof -
  have "replicate 32 1 \<noteq> (replicate 32 3 :: bytes)" "replicate 32 2 \<noteq> (replicate 32 3 :: bytes)"
    by (simp_all add: replicate_eq_replicate)
  then show "db_inv (tables one_revoked)"
    using two_devices_ok(1)
    by (simp add: db_inv_def one_revoked_def two_devices_def unique_devices_def row_ok_def)
       (simp add: laptop_row_def phone_row_def revoked_row_def)
qed (simp add: one_revoked_def two_devices_def)

theorem revoke_spec_witness:
  "fst (run_state (handle_revoke 1) one_revoked) = (False, 1)
   \<and> devices (tables (snd (run_state (handle_revoke 1) one_revoked))) = [laptop_row, phone_row, revoked_row]"
proof -
  have "laptop_row \<in> set (devices (tables one_revoked))" by (simp add: one_revoked_def)
  from revoke_spec [OF one_revoked_ok this] show ?thesis
    by (simp add: Let_def) (simp add: laptop_row_def one_revoked_def phone_row_def revoked_row_def)
qed

section \<open>What peers are told\<close>

lemma by_created_filter: "by_created P d = sort_key row_created (filter P (devices d))"
  by (simp add: by_created_def)

text \<open>
  The peer list holds exactly the Approved devices, oldest first, each with the id, key,
  host name and address stored for it; Pending and Revoked devices never appear.
\<close>

theorem peers_reply:
  assumes "db_inv (tables s)" and "faults s = []"
  shows "fst (run_state handle_peers s) =
     ret (Ok (map (\<lambda>r. \<lparr>pi_device_id = row_id r, pi_ipv4 = row_ipv4 r, pi_public_key = row_key r,
                       pi_hostname = row_host r, pi_last_seen_secs = i64_saturating_sub (now_of s) (row_seen r)\<rparr>)
              (sort_key row_created (filter (\<lambda>r. row_status r = 1) (devices (tables s))))))"
proof -
  have "show_ipv4 (dev_ipv4 (record_view r)) = row_ipv4 r"
    if "r \<in> set (devices (tables s))" "row_status r = 1" for r
    using row_address_shown [of r] db_invD(2) [OF assms(1)] that by simp
  then show ?thesis
    using assms
    by (simp add: handle_peers_def list_approved_def run_query_ok records_by_created run_unix_now now_of_def)
       (auto simp: by_created_def record_view_def)
qed

theorem peers_reply_witness:
  "\<exists>ps. fst (run_state handle_peers one_revoked) = ret (Ok ps) \<and> map pi_device_id ps = [1, 2]"
  using peers_reply [OF one_revoked_ok]
  by (simp add: one_revoked_def laptop_row_def phone_row_def revoked_row_def sort_key_def o_def)

section \<open>The purge\<close>

text \<open>
  The purge removes every device not seen since the cutoff except the Approved ones, but it
  deletes the pool rows of all of them: an Approved device that was away too long stays, keeps
  its address, and its address is no longer accounted for in the pool.
\<close>

theorem purge_spec:
  assumes "db_inv (tables s)" and "faults s = []" and "cutoff = now_of s - timeout"
  shows "tables (snd (run_state (purge_stale timeout) s)) =
     (tables s)
       \<lparr>ip_pool := filter (\<lambda>p. \<forall>r\<in>set (devices (tables s)). row_seen r < cutoff \<longrightarrow> ip_text p \<noteq> row_ipv4 r)
                    (ip_pool (tables s)),
        devices := filter (\<lambda>r. row_seen r < cutoff \<longrightarrow> row_status r = 1) (devices (tables s))\<rparr>"
proof -
  have *: "t \<notin> row_ipv4 ` {r \<in> set rs. row_seen r < c} \<longleftrightarrow> (\<forall>r\<in>set rs. row_seen r < c \<longrightarrow> t \<noteq> row_ipv4 r)"
    for t c and rs :: "device_row list" by auto
  show ?thesis
    using assms(2) unique_delete_where [OF db_invD(1) [OF assms(1)]]
    by (simp add: purge_stale_def run_unix_now now_of_def [symmetric] run_execute_ok free_ips_def Let_def
        commit_devices_def assms(3)) (auto simp: delete_where_def *)
qed

theorem purge_spec_witness:
  "let d = tables (snd (run_state (purge_stale 300) two_devices))
   in devices d = [laptop_row, phone_row] \<and> ip_pool d = []"
  using purge_spec [OF two_devices_ok refl, of 300]
  by (simp add: now_of_def two_devices_def laptop_row_def phone_row_def)

section \<open>Approval without an administrator\<close>

text \<open>
  The count of devices that decides whether a registration is the first one is read with
  \<open>unwrap_or(0)\<close>: if that one statement fails, a new device is stored as Approved and told so,
  however many devices there are.
\<close>

theorem count_failure_approves:
  assumes "db_inv (tables s)" and "faults s = [False, False, False, False, True]"
    and "pk \<notin> row_key ` set (devices (tables s))" and "\<not> pool_full app (tables s)"
    and "i \<notin> row_id ` set (devices (tables s))"
    and "show_ipv4 (next_ip app (tables s)) \<notin> row_ipv4 ` set (devices (tables s))"
  shows "fst (run_state (handle_register app i pk host) s) =
       ret (Ok \<lparr>reg_device_id = i, reg_ipv4 = show_ipv4 (next_ip app (tables s)),
               reg_network = network_cidr app, reg_status = ''approved''\<rparr>)
     \<and> (\<exists>r. devices (tables (snd (run_state (handle_register app i pk host) s))) = devices (tables s) @ [r]
          \<and> row_id r = i \<and> row_status r = 1)"
proof -
  let ?d = "tables s"
  have none: "find (\<lambda>x. row_key x = pk) (devices ?d) = None"
    using assms(3) by (auto simp: find_None_iff)
  have opt: "optional_record (Ok None) = ret None" by (simp add: optional_record_def)
  have uniq: "unique_devices (devices ?d @ [row_of_record \<lparr>dev_id = i, dev_key = pk, dev_host = host,
      dev_ipv4 = next_ip app ?d, dev_status = Approved, dev_created = t, dev_seen = t\<rparr>])" for t
    using db_invD(1) [OF assms(1)] assms(3,5,6) by (auto simp: unique_devices_def row_of_record_def)
  have room: "\<not> (of_nat (length (ip_pool ?d)) :: u32) > ip_max_offset app"
    using assms(4) by (simp add: pool_full_def)
  have e: "run_state (execute st) t = (fst (exec_stmt st (tables t)),
      t\<lparr>tables := snd (exec_stmt st (tables t)), faults := tl (faults t)\<rparr>)"
    if "faults t = [] \<or> \<not> hd (faults t)" for st t
    using that by (cases "faults t") (simp_all add: execute_def split: prod.split)
  have find: "run_state (find_by_public_key pk) s = (ret None, s\<lparr>faults := [False, False, False, True]\<rparr>)"
    using assms(2) by (simp add: find_by_public_key_def query_def none opt)
  have alloc: "run_state (allocate_ip (ip_base app) (ip_max_offset app)) t =
      (Some (next_ip app ?d), t\<lparr>tables := taken (next_ip app ?d) ?d, faults := [True]\<rparr>)"
    if "tables t = ?d" "faults t = [False, False, False, True]" for t
    using room that by (simp add: allocate_ip_def query_def pool_all_taken [OF assms(1)] e taken_def
        next_ip_def Let_def del: exec_stmt.simps)
  have first: "run_state is_first_device t = (True, t\<lparr>faults := []\<rparr>)" if "faults t = [True]" for t
    using that by (simp add: is_first_device_def count_devices_def query_def)
  show ?thesis
    by (simp add: handle_register_def find run_unix_now alloc first insert_device_def e
        commit_devices_def uniq) (simp add: row_of_record_def)
qed

lemma network_sample: "network_cidr sample_app = ''100.64.0.0/16''"
  by (simp add: sample_app_def)

theorem count_failure_approves_witness:
  "fst (run_state (handle_register sample_app 7 (replicate 32 7) ''intruder'')
       (two_devices\<lparr>faults := [False, False, False, False, True]\<rparr>))
     = ret (Ok \<lparr>reg_device_id = 7, reg_ipv4 = show_ipv4 (ipv4_new 100 64 0 2),
               reg_network = ''100.64.0.0/16'', reg_status = ''approved''\<rparr>)"
proof -
  let ?s = "two_devices\<lparr>faults := [False, False, False, False, True]\<rparr>"
  have ip: "next_ip sample_app (tables ?s) = ipv4_new 100 64 0 2"
    by (simp add: next_ip_def sample_app_def two_devices_def) (simp add: ipv4_new_def u32_of_be_def be_val_def)
  have ne: "ipv4_new 100 64 0 2 \<noteq> ipv4_new 100 64 0 0" "ipv4_new 100 64 0 2 \<noteq> ipv4_new 100 64 0 1"
    by (simp_all add: ipv4_new_def u32_of_be_def be_val_def)
  have "db_inv (tables ?s)" "faults ?s = [False, False, False, False, True]"
    using two_devices_ok by simp_all
  moreover have "replicate 32 7 \<notin> row_key ` set (devices (tables ?s))"
    by (simp add: two_devices_def laptop_row_def phone_row_def replicate_eq_replicate)
  moreover have "\<not> pool_full sample_app (tables ?s)"
    by (simp add: pool_full_def sample_app_def two_devices_def)
  moreover have "7 \<notin> row_id ` set (devices (tables ?s))"
    by (simp add: two_devices_def laptop_row_def phone_row_def)
  moreover have "show_ipv4 (next_ip sample_app (tables ?s)) \<notin> row_ipv4 ` set (devices (tables ?s))"
    using ne show_sample_ips [symmetric] unfolding ip
    by (simp add: two_devices_def laptop_row_def phone_row_def)
  ultimately show ?thesis
    using count_failure_approves [of ?s "replicate 32 7" sample_app 7 "''intruder''"] ip
    by (simp add: network_sample)
qed

section \<open>The remaining replies\<close>

text \<open>
  The network parser accepts every prefix from 0 to 32 and yields the address as written,
  host bits included, and the largest offset \<open>2 ^ (32 - prefix) - 1\<close>, except for the prefix 0:
  that panics when overflow checks are on, and yields the offset 0 when they are off, a network
  of one address.
\<close>

theorem parse_cidr_spec:
  assumes "n \<le> 32"
  shows "parse_cidr checks (show_ipv4 ip @ CHR ''/'' # show_nat n) =
     (if n = 0 then (if checks then panic else ret (Ok (ip, 0)))
      else ret (Ok (ip, 2 ^ (32 - n) - 1)))"
proof -
  have slash: "CHR ''/'' \<notin> set (show_ipv4 ip)" "CHR ''/'' \<notin> set (show_nat n)"
    by (auto simp: show_ipv4_chars is_digit_def not_digit_show_nat simp del: show_nat.simps)
  have u: "unat (of_nat n :: u8) = n" using assms by (simp add: unat_of_nat)
  have "\<not> (of_nat n :: u8) > 32" using assms by (simp add: word_less_nat_alt u)
  moreover have "parse_u8 (show_nat n) = Some (of_nat n)" by (rule parse_u8_show) (use assms in simp)
  ultimately show ?thesis
    using assms
    by (auto simp: parse_cidr_def split_on_append split_on_no_sep slash u shl_1u32_def push_bit_eq_mult
        simp del: show_nat.simps)
qed

theorem parse_cidr_spec_witness:
  "parse_cidr True (show_ipv4 (ipv4_new 100 64 0 0) @ ''/16'') = ret (Ok (ipv4_new 100 64 0 0, 0xFFFF))"
proof -
  have "show_nat 16 = ''16''" by code_simp
  then show ?thesis using parse_cidr_spec [of 16 True "ipv4_new 100 64 0 0"] by simp
qed

text \<open>
  The allocation report: every row of the pool counts as used, so nothing is ever free.
\<close>

lemma allocations_reply:
  assumes "db_inv (tables s)" and "faults s = []" and "length (ip_pool (tables s)) < 2 ^ 63"
  shows "fst (run_state (handle_allocations app) s) =
     (let n = int (length (ip_pool (tables s))) in (n, n, 0, network_cidr app))"
proof -
  have "count_where (\<lambda>p. ip_allocated p = 1) (ip_pool (tables s)) = length (ip_pool (tables s))"
    using db_invD(4) [OF assms(1)] by (simp add: count_where_def filter_True)
  then show ?thesis
    using assms(2,3)
    by (simp add: handle_allocations_def pool_size_def allocated_count_def run_query_ok Let_def
        i64_saturating_sub_def i64_min_def i64_max_def)
qed

end
