(* ===== verification/Mobile_Engine.thy ===== *)
theory Mobile_Engine
  imports Acl Relay_Client Control_Service
begin

text \<open>
  \<open>apps/mobile/src/engine.rs\<close>, the tunnel engine of the mobile apps. The engine keeps a relay client per peer, queues
  packets while it reconnects, and adapts its polling to the traffic.

  A hash map of peers is the list of its entries in the order it is iterated; inserting keeps the
  place of a key that is there. HTTP replies, socket results and inboxes are arguments, the
  clock is a number of seconds. The peer list is the control service's.
\<close>

section \<open>Activity\<close>

datatype conn_state = Connected | Reconnecting

datatype activity_level = Active | Idle | Sleep

primrec poll_interval_ms :: "activity_level \<Rightarrow> nat" where
  "poll_interval_ms Active = 10"
| "poll_interval_ms Idle = 100"
| "poll_interval_ms Sleep = 500"

primrec keepalive_interval_secs :: "activity_level \<Rightarrow> nat" where
  "keepalive_interval_secs Active = 30"
| "keepalive_interval_secs Idle = 60"
| "keepalive_interval_secs Sleep = 120"

text \<open>Deeper dormancy is the larger level; both intervals grow with it.\<close>

primrec activity_depth :: "activity_level \<Rightarrow> nat" where
  "activity_depth Active = 0"
| "activity_depth Idle = 1"
| "activity_depth Sleep = 2"

instantiation activity_level :: linorder
begin

definition less_eq_activity_level :: "activity_level \<Rightarrow> activity_level \<Rightarrow> bool" where
  "less_eq_activity_level a b \<longleftrightarrow> activity_depth a \<le> activity_depth b"

definition less_activity_level :: "activity_level \<Rightarrow> activity_level \<Rightarrow> bool" where
  "less_activity_level a b \<longleftrightarrow> activity_depth a < activity_depth b"

instance
proof
  fix a b :: activity_level
  assume "a \<le> b" "b \<le> a"
  then show "a = b" by (cases a; cases b) (simp_all add: less_eq_activity_level_def)
qed (auto simp: less_eq_activity_level_def less_activity_level_def)

end

lemma mono_poll_interval: "mono poll_interval_ms"
proof
  fix a b :: activity_level
  assume "a \<le> b"
  then show "poll_interval_ms a \<le> poll_interval_ms b"
    by (cases a; cases b) (simp_all add: less_eq_activity_level_def)
qed

lemma mono_keepalive_interval: "mono keepalive_interval_secs"
proof
  fix a b :: activity_level
  assume "a \<le> b"
  then show "keepalive_interval_secs a \<le> keepalive_interval_secs b"
    by (cases a; cases b) (simp_all add: less_eq_activity_level_def)
qed

section \<open>The engine\<close>

record peer_state =
  ps_vip :: ipv4
  ps_relay :: relay_client

record tunnel_engine =
  en_our_id :: uuid
  en_our_ip :: ipv4
  en_relay_server :: socket_addr
  en_peers :: "(uuid \<times> peer_state) list"
  en_state :: conn_state
  en_activity :: activity_level
  en_last_traffic :: nat
  en_queue :: "(bytes \<times> ipv4) list"

datatype engine_error =
    HttpFailed | BadIpText | NoRoute ipv4 | SendFailed | NoData | NotInitialized | InvalidPacket

definition MAX_QUEUED_PACKETS :: nat where "MAX_QUEUED_PACKETS = 256"

text \<open>\<open>TunnelEngine::new\<close>: the answer to the registration is the id and the address.\<close>

definition engine_new ::
  "(uuid \<times> string) option \<Rightarrow> socket_addr \<Rightarrow> nat \<Rightarrow> engine_error + tunnel_engine" where
  "engine_new answer relay_server now =
     (case answer of
        None \<Rightarrow> Err HttpFailed
      | Some (i, address) \<Rightarrow>
          (case parse_ipv4 address of
             None \<Rightarrow> Err BadIpText
           | Some ip \<Rightarrow>
               Ok \<lparr>en_our_id = i, en_our_ip = ip, en_relay_server = relay_server, en_peers = [],
                   en_state = Connected, en_activity = Active, en_last_traffic = now, en_queue = []\<rparr>))"

fun hm_insert :: "'k \<Rightarrow> 'v \<Rightarrow> ('k \<times> 'v) list \<Rightarrow> ('k \<times> 'v) list" where
  "hm_insert k v [] = [(k, v)]"
| "hm_insert k v ((k', v') # xs) = (if k' = k then (k, v) # xs else (k', v') # hm_insert k v xs)"

type_synonym registrations = "uuid \<Rightarrow> bool \<times> bool"

text \<open>
  The loop over the peers in \<open>sync_peers\<close> (which skips the peers it knows) and in \<open>reconnect\<close>
  (which registers all of them again).
\<close>

fun peer_loop ::
  "bool \<Rightarrow> registrations \<Rightarrow> peer_info list \<Rightarrow> tunnel_engine \<Rightarrow> nat
     \<Rightarrow> ((engine_error + nat) \<times> tunnel_engine \<times> datagram list) panics" where
  "peer_loop skip reg [] e count = ret (Ok count, e, [])"
| "peer_loop skip reg (p # ps) e count =
     (if pi_device_id p = en_our_id e \<or> (skip \<and> pi_device_id p \<in> fst ` set (en_peers e))
      then peer_loop skip reg ps e count
      else (case parse_ipv4 (pi_ipv4 p) of
          None \<Rightarrow> ret (Err BadIpText, e, [])
        | Some vip \<Rightarrow> do {
            r \<leftarrow> client_register (fst (reg (pi_device_id p))) (snd (reg (pi_device_id p)))
                   (en_relay_server e) (en_our_id e) (pi_device_id p);
            case r of
              Err _ \<Rightarrow> peer_loop skip reg ps e count
            | Ok (relay, out) \<Rightarrow> do {
                (res, e', rest) \<leftarrow> peer_loop skip reg ps
                  (e\<lparr>en_peers := hm_insert (pi_device_id p) \<lparr>ps_vip = vip, ps_relay = relay\<rparr> (en_peers e)\<rparr>)
                  (count + 1);
                ret (res, e', out @ rest) } }))"

definition sync_peers ::
  "registrations \<Rightarrow> peer_info list option \<Rightarrow> tunnel_engine
     \<Rightarrow> ((engine_error + nat) \<times> tunnel_engine \<times> datagram list) panics" where
  "sync_peers reg answer e =
     (case answer of
        None \<Rightarrow> ret (Err HttpFailed, e, [])
      | Some ps \<Rightarrow> peer_loop True reg ps e 0)"

text \<open>\<open>send_ok\<close> says for each peer whether its relay socket takes the datagram.\<close>

definition send_to_peer_inner ::
  "(uuid \<Rightarrow> bool) \<Rightarrow> tunnel_engine \<Rightarrow> bytes \<Rightarrow> ipv4 \<Rightarrow> ((engine_error + unit) \<times> datagram list) panics"
  where
  "send_to_peer_inner send_ok e packet dst =
     (case find (\<lambda>(_, p). ps_vip p = dst) (en_peers e) of
        None \<Rightarrow> ret (Err (NoRoute dst), [])
      | Some (i, p) \<Rightarrow> do {
          r \<leftarrow> client_send (ps_relay p) packet (send_ok i);
          ret (case r of Err _ \<Rightarrow> (Err SendFailed, []) | Ok (_, out) \<Rightarrow> (Ok (), out)) })"

fun flush_queue ::
  "(uuid \<Rightarrow> bool) \<Rightarrow> tunnel_engine \<Rightarrow> (bytes \<times> ipv4) list \<Rightarrow> datagram list panics" where
  "flush_queue send_ok e [] = ret []"
| "flush_queue send_ok e ((pkt, dst) # q) = do {
     (_, out) \<leftarrow> send_to_peer_inner send_ok e pkt dst;
     rest \<leftarrow> flush_queue send_ok e q;
     ret (out @ rest) }"

definition reconnect ::
  "registrations \<Rightarrow> (uuid \<Rightarrow> bool) \<Rightarrow> peer_info list option \<Rightarrow> tunnel_engine
     \<Rightarrow> ((engine_error + unit) \<times> tunnel_engine \<times> datagram list) panics" where
  "reconnect reg send_ok answer e0 =
     (let e = e0\<lparr>en_state := Reconnecting\<rparr>
      in case answer of
           None \<Rightarrow> ret (Err HttpFailed, e, [])
         | Some ps \<Rightarrow> do {
             (r, e, out) \<leftarrow> peer_loop False reg ps e 0;
             case r of
               Err err \<Rightarrow> ret (Err err, e, out)
             | Ok _ \<Rightarrow> do {
                 let queue = en_queue e;
                 let e = e\<lparr>en_state := Connected, en_queue := []\<rparr>;
                 flushed \<leftarrow> flush_queue send_ok e queue;
                 ret (Ok (), e, out @ flushed) } })"

definition mark_traffic :: "nat \<Rightarrow> tunnel_engine \<Rightarrow> tunnel_engine" where
  "mark_traffic now e =
     (let e = e\<lparr>en_last_traffic := now\<rparr>
      in if en_activity e \<noteq> Active then e\<lparr>en_activity := Active\<rparr> else e)"

definition update_activity :: "nat \<Rightarrow> tunnel_engine \<Rightarrow> tunnel_engine" where
  "update_activity now e =
     (let elapsed = now - en_last_traffic e
      in e\<lparr>en_activity := (if elapsed < 5 then Active else if elapsed < 30 then Idle else Sleep)\<rparr>)"

text \<open>Without traffic the engine only falls deeper asleep, and polls more rarely.\<close>

lemma update_activity_mono:
  assumes "now \<le> later"
  shows "en_activity (update_activity now e) \<le> en_activity (update_activity later e)"
  using diff_le_mono [OF assms, of "en_last_traffic e"]
  by (auto simp: update_activity_def Let_def less_eq_activity_level_def)

text \<open>The methods of the engine that read it.\<close>

definition conn_state_of :: "tunnel_engine \<Rightarrow> conn_state" where
  "conn_state_of e = en_state e"

definition activity_of :: "tunnel_engine \<Rightarrow> activity_level" where
  "activity_of e = en_activity e"

definition engine_poll_interval_ms :: "tunnel_engine \<Rightarrow> nat" where
  "engine_poll_interval_ms e = poll_interval_ms (en_activity e)"

definition engine_keepalive_interval_secs :: "tunnel_engine \<Rightarrow> nat" where
  "engine_keepalive_interval_secs e = keepalive_interval_secs (en_activity e)"

lemma engine_intervals_grow:
  assumes "now \<le> later"
  shows "engine_poll_interval_ms (update_activity now e) \<le> engine_poll_interval_ms (update_activity later e)"
    and "engine_keepalive_interval_secs (update_activity now e)
           \<le> engine_keepalive_interval_secs (update_activity later e)"
  unfolding engine_poll_interval_ms_def engine_keepalive_interval_secs_def
  using monoD [OF mono_poll_interval update_activity_mono [OF assms]]
    monoD [OF mono_keepalive_interval update_activity_mono [OF assms]] by simp_all

text \<open>Traffic wakes the engine, and its connection state stays.\<close>

lemma mark_traffic_active:
  "activity_of (mark_traffic now e) = Active" "conn_state_of (mark_traffic now e) = conn_state_of e"
  by (simp_all add: activity_of_def conn_state_of_def mark_traffic_def Let_def)

definition send_to_peer ::
  "(uuid \<Rightarrow> bool) \<Rightarrow> nat \<Rightarrow> tunnel_engine \<Rightarrow> bytes \<Rightarrow> ipv4
     \<Rightarrow> ((engine_error + unit) \<times> tunnel_engine \<times> datagram list) panics" where
  "send_to_peer send_ok now e0 packet dst =
     (let e = mark_traffic now e0
      in if en_state e = Reconnecting
         then ret (Ok (),
                   if length (en_queue e) < MAX_QUEUED_PACKETS
                   then e\<lparr>en_queue := en_queue e @ [(packet, dst)]\<rparr> else e, [])
         else do {
           (r, out) \<leftarrow> send_to_peer_inner send_ok e packet dst;
           ret (r, e, out) })"

text \<open>\<open>inbox\<close>: what each relay socket yields within its 10 milliseconds.\<close>

fun recv_loop :: "(uuid \<Rightarrow> (io_error + bytes) list) \<Rightarrow> (uuid \<times> peer_state) list \<Rightarrow> (engine_error + bytes) panics" where
  "recv_loop inbox [] = ret (Err NoData)"
| "recv_loop inbox ((i, p) # ps) = do {
     r \<leftarrow> client_recv (ps_relay p) (inbox i);
     case r of
       Received data _ _ \<Rightarrow> ret (Ok data)
     | _ \<Rightarrow> recv_loop inbox ps }"

definition recv_from_any ::
  "(uuid \<Rightarrow> (io_error + bytes) list) \<Rightarrow> tunnel_engine \<Rightarrow> (engine_error + bytes) panics" where
  "recv_from_any inbox e = recv_loop inbox (en_peers e)"

definition send_keepalives :: "(uuid \<Rightarrow> bool) \<Rightarrow> tunnel_engine \<Rightarrow> datagram list panics" where
  "send_keepalives send_ok e =
     foldr (\<lambda>(i, p) acc. do {
        r \<leftarrow> client_keepalive (ps_relay p) (send_ok i);
        rest \<leftarrow> acc;
        ret ((case r of Ok out \<Rightarrow> out | Err _ \<Rightarrow> []) @ rest) }) (en_peers e) (ret [])"

section \<open>The global engine\<close>

definition parse_dst_ip :: "bytes \<Rightarrow> ipv4 option panics" where
  "parse_dst_ip packet =
     (if length packet < 20 then ret None
      else do {
        b0 \<leftarrow> idx packet 0;
        if drop_bit 4 b0 \<noteq> 4 then ret None
        else do {
          a \<leftarrow> idx packet 16; b \<leftarrow> idx packet 17; c \<leftarrow> idx packet 18; d \<leftarrow> idx packet 19;
          ret (Some (ipv4_new a b c d)) } })"

definition engine_state :: "tunnel_engine option \<Rightarrow> conn_state" where
  "engine_state engine = (case engine of Some _ \<Rightarrow> Connected | None \<Rightarrow> Reconnecting)"

definition engine_init ::
  "(uuid \<times> string) option \<Rightarrow> registrations \<Rightarrow> peer_info list option \<Rightarrow> socket_addr \<Rightarrow> nat
     \<Rightarrow> tunnel_engine option \<Rightarrow> ((engine_error + unit) \<times> tunnel_engine option \<times> datagram list) panics" where
  "engine_init answer reg plist relay_server now engine =
     (case engine_new answer relay_server now of
        Err e \<Rightarrow> ret (Err e, engine, [])
      | Ok e \<Rightarrow> do {
          (r, e', out) \<leftarrow> sync_peers reg plist e;
          ret (case r of Err err \<Rightarrow> (Err err, engine, out) | Ok _ \<Rightarrow> (Ok (), Some e', out)) })"

definition engine_reconnect ::
  "registrations \<Rightarrow> (uuid \<Rightarrow> bool) \<Rightarrow> peer_info list option \<Rightarrow> tunnel_engine option
     \<Rightarrow> ((engine_error + unit) \<times> tunnel_engine option \<times> datagram list) panics" where
  "engine_reconnect reg send_ok answer engine =
     (case engine of
        None \<Rightarrow> ret (Err NotInitialized, None, [])
      | Some e \<Rightarrow> do {
          (r, e', out) \<leftarrow> reconnect reg send_ok answer e;
          ret (r, Some e', out) })"

definition engine_send_packet ::
  "(uuid \<Rightarrow> bool) \<Rightarrow> nat \<Rightarrow> bytes \<Rightarrow> tunnel_engine option
     \<Rightarrow> ((engine_error + bytes) \<times> tunnel_engine option \<times> datagram list) panics" where
  "engine_send_packet send_ok now packet engine =
     (case engine of
        None \<Rightarrow> ret (Err NotInitialized, None, [])
      | Some e \<Rightarrow> do {
          dst \<leftarrow> parse_dst_ip packet;
          case dst of
            None \<Rightarrow> ret (Err InvalidPacket, Some e, [])
          | Some ip \<Rightarrow>
              (if ip = en_our_ip e then ret (Ok packet, Some e, [])
               else do {
                 (r, e', out) \<leftarrow> send_to_peer send_ok now e packet ip;
                 ret (case r of Err err \<Rightarrow> (Err err, Some e', out) | Ok _ \<Rightarrow> (Ok [], Some e', out)) }) })"

definition engine_recv_packet ::
  "(uuid \<Rightarrow> (io_error + bytes) list) \<Rightarrow> tunnel_engine option \<Rightarrow> (engine_error + bytes) panics" where
  "engine_recv_packet inbox engine =
     (case engine of None \<Rightarrow> ret (Err NotInitialized) | Some e \<Rightarrow> recv_from_any inbox e)"

section \<open>The queue\<close>

text \<open>
  What the engine goes through: packets from the app, reconnections, peer synchronisations, and
  the adaptation to idle time.
\<close>

datatype engine_event =
    SendPacket "uuid \<Rightarrow> bool" nat bytes ipv4
  | Reconnect registrations "uuid \<Rightarrow> bool" "peer_info list option"
  | SyncPeers registrations "peer_info list option"
  | UpdateActivity nat

text \<open>\<open>None\<close>: a panic has ended the engine's thread.\<close>

fun engine_step :: "tunnel_engine panics \<Rightarrow> engine_event \<Rightarrow> tunnel_engine panics" where
  "engine_step st (SendPacket send_ok now packet dst) = do {
     e \<leftarrow> st; (_, e', _) \<leftarrow> send_to_peer send_ok now e packet dst; ret e' }"
| "engine_step st (Reconnect reg send_ok answer) = do {
     e \<leftarrow> st; (_, e', _) \<leftarrow> reconnect reg send_ok answer e; ret e' }"
| "engine_step st (SyncPeers reg answer) = do {
     e \<leftarrow> st; (_, e', _) \<leftarrow> sync_peers reg answer e; ret e' }"
| "engine_step st (UpdateActivity now) = do { e \<leftarrow> st; ret (update_activity now e) }"

definition engine_inv :: "tunnel_engine panics \<Rightarrow> bool" where
  "engine_inv st \<longleftrightarrow> (case st of
      None \<Rightarrow> True
    | Some e \<Rightarrow> length (en_queue e) \<le> MAX_QUEUED_PACKETS \<and> (en_state e = Connected \<longrightarrow> en_queue e = [])
        \<and> distinct (map fst (en_peers e)))"

lemma set_hm_insert: "fst ` set (hm_insert k v xs) = insert k (fst ` set xs)"
  by (induction k v xs rule: hm_insert.induct) auto

lemma distinct_hm_insert: "distinct (map fst xs) \<Longrightarrow> distinct (map fst (hm_insert k v xs))"
proof (induction k v xs rule: hm_insert.induct)
  case (2 k v k' v' xs)
  then show ?case using set_hm_insert [of k v xs] by (auto simp: image_iff)
qed simp

text \<open>The peer loop only changes the peers.\<close>

lemma peer_loop_frame:
  "peer_loop skip reg ps e n = ret (r, e', out) \<Longrightarrow>
     (\<exists>peers. e' = e\<lparr>en_peers := peers\<rparr>) \<and> (distinct (map fst (en_peers e)) \<longrightarrow> distinct (map fst (en_peers e')))"
proof (induction skip reg ps e n arbitrary: r e' out rule: peer_loop.induct)
  case (1 skip reg e count)
  then have "e' = e" by simp
  then show ?case by (metis tunnel_engine.unfold_congs(4) tunnel_engine.surjective tunnel_engine.update_convs(4))
next
  case (2 skip reg p ps e count)
  let ?i = "pi_device_id p"
  show ?case
  proof (cases "?i = en_our_id e \<or> (skip \<and> ?i \<in> fst ` set (en_peers e))")
    case True
    with 2 show ?thesis by simp
  next
    case False
    show ?thesis
    proof (cases "parse_ipv4 (pi_ipv4 p)")
      case None
      with False 2(4) have "e' = e" by (auto split: if_splits)
      then show ?thesis by (metis tunnel_engine.surjective tunnel_engine.update_convs(4))
    next
      case (Some vip)
      obtain ro where ro: "client_register (fst (reg ?i)) (snd (reg ?i)) (en_relay_server e) (en_our_id e) ?i = ret ro"
        using client_register_no_panic by (metis not_None_eq)
      show ?thesis
      proof (cases ro)
        case (Inl err)
        with False Some ro 2 show ?thesis by (auto split: if_splits)
      next
        case (Inr x)
        obtain relay o1 where x: "x = (relay, o1)" by fastforce
        let ?e = "e\<lparr>en_peers := hm_insert ?i \<lparr>ps_vip = vip, ps_relay = relay\<rparr> (en_peers e)\<rparr>"
        obtain r' e'' o2 where l: "peer_loop skip reg ps ?e (count + 1) = ret (r', e'', o2)" and "e' = e''"
          using 2(4) False Some ro Inr x by (auto simp: bind_eq_Some_conv split: if_splits)
        from 2(3) [OF False Some ro Inr x [symmetric] l] \<open>e' = e''\<close> show ?thesis
          by (auto simp: distinct_hm_insert)
      qed
    qed
  qed
qed

lemma reconnect_frame:
  assumes "reconnect reg send_ok answer e = ret (r, e', out)"
  shows "(r = Ok () \<longrightarrow> en_state e' = Connected \<and> en_queue e' = [])
     \<and> (r \<noteq> Ok () \<longrightarrow> en_state e' = Reconnecting \<and> en_queue e' = en_queue e)
     \<and> (distinct (map fst (en_peers e)) \<longrightarrow> distinct (map fst (en_peers e')))"
proof (cases answer)
  case None
  with assms show ?thesis by (auto simp: reconnect_def Let_def)
next
  case (Some ps)
  obtain r1 e1 o1 where l: "peer_loop False reg ps (e\<lparr>en_state := Reconnecting\<rparr>) 0 = ret (r1, e1, o1)"
    using assms Some by (auto simp: reconnect_def Let_def bind_eq_Some_conv)
  obtain peers' where e1: "e1 = e\<lparr>en_state := Reconnecting, en_peers := peers'\<rparr>"
      and d: "distinct (map fst (en_peers e)) \<longrightarrow> distinct (map fst (en_peers e1))"
    using peer_loop_frame [OF l] by auto
  show ?thesis
    using assms Some l d by (cases r1) (auto simp: reconnect_def Let_def e1 bind_eq_Some_conv)
qed

lemma send_to_peer_inner_frame:
  "send_to_peer send_ok now e packet dst = ret (r, e', out) \<Longrightarrow>
     en_peers e' = en_peers e \<and> en_state e' = en_state e
     \<and> en_queue e' = (if en_state e = Reconnecting \<and> length (en_queue e) < MAX_QUEUED_PACKETS
                      then en_queue e @ [(packet, dst)] else en_queue e)"
  by (auto simp: send_to_peer_def mark_traffic_def Let_def bind_eq_Some_conv split: if_splits)

interpretation engine_system: step_system engine_step engine_inv
proof
  fix st ev
  assume inv: "engine_inv st"
  show "engine_inv (engine_step st ev)"
  proof (cases "engine_step st ev")
    case None
    then show ?thesis by (simp add: engine_inv_def)
  next
    case (Some e')
    then obtain e where e: "st = ret e" by (cases ev) (auto simp: bind_eq_Some_conv)
    note i = inv [unfolded engine_inv_def e, simplified]
    show ?thesis
    proof (cases ev)
      case (SendPacket send_ok now packet dst)
      with Some e obtain r out where "send_to_peer send_ok now e packet dst = ret (r, e', out)"
        by (auto simp: bind_eq_Some_conv)
      from send_to_peer_inner_frame [OF this] i Some show ?thesis by (auto simp: engine_inv_def)
    next
      case (Reconnect reg send_ok answer)
      with Some e obtain r out where "reconnect reg send_ok answer e = ret (r, e', out)"
        by (auto simp: bind_eq_Some_conv)
      from reconnect_frame [OF this] i Some show ?thesis
        by (cases "r = Ok ()") (auto simp: engine_inv_def)
    next
      case (SyncPeers reg answer)
      with Some e obtain r out where s: "sync_peers reg answer e = ret (r, e', out)"
        by (auto simp: bind_eq_Some_conv)
      show ?thesis
      proof (cases answer)
        case None
        with s i Some show ?thesis by (auto simp: sync_peers_def engine_inv_def)
      next
        case (Some ps)
        with s have "peer_loop True reg ps e 0 = ret (r, e', out)" by (simp add: sync_peers_def)
        from peer_loop_frame [OF this] i \<open>engine_step st ev = Some e'\<close> show ?thesis
          by (auto simp: engine_inv_def)
      qed
    next
      case (UpdateActivity now)
      with Some e i show ?thesis by (auto simp: engine_inv_def update_activity_def Let_def)
    qed
  qed
qed

text \<open>
  C21: In every history of an engine the queue holds at most 256 packets, holds none while the
  engine is connected, and no peer is there twice.
\<close>

theorem engine_queue_bounded:
  assumes "engine_new answer relay now = Ok e" and "foldl engine_step (ret e) es = ret e'"
  shows "length (en_queue e') \<le> MAX_QUEUED_PACKETS \<and> (en_state e' = Connected \<longrightarrow> en_queue e' = [])
     \<and> distinct (map fst (en_peers e'))"
proof -
  have "engine_inv (ret e)"
    using assms(1) by (auto simp: engine_inv_def engine_new_def split: option.splits)
  then have "engine_inv (foldl engine_step (ret e) es)" by (rule engine_system.run_inv)
  with assms(2) show ?thesis by (simp add: engine_inv_def)
qed

lemma engine_new_sample: "engine_new (Some (1, show_ipv4 7)) r 0 =
   Ok \<lparr>en_our_id = 1, en_our_ip = 7, en_relay_server = r, en_peers = [],
       en_state = Connected, en_activity = Active, en_last_traffic = 0, en_queue = []\<rparr>"
  by (simp add: engine_new_def)

theorem engine_queue_bounded_witness:
  "\<exists>e e'. engine_new (Some (1, show_ipv4 7)) addr_a 0 = Ok e
     \<and> foldl engine_step (ret e) [Reconnect (\<lambda>_. (True, True)) (\<lambda>_. True) None,
          SendPacket (\<lambda>_. True) 3 [1] 9, UpdateActivity 40] = ret e'
     \<and> length (en_queue e') \<le> 256 \<and> en_queue e' = [([1], 9)]"
proof -
  let ?e = "\<lparr>en_our_id = 1, en_our_ip = 7, en_relay_server = addr_a, en_peers = [],
       en_state = Connected, en_activity = Active, en_last_traffic = 0, en_queue = []\<rparr>"
  let ?es = "[Reconnect (\<lambda>_. (True, True)) (\<lambda>_. True) None, SendPacket (\<lambda>_. True) 3 [1] 9, UpdateActivity 40]"
  obtain e' where e': "foldl engine_step (ret ?e) ?es = ret e'" "en_queue e' = [([1], 9)]"
    by (simp add: reconnect_def send_to_peer_def mark_traffic_def update_activity_def Let_def MAX_QUEUED_PACKETS_def)
  from engine_queue_bounded [OF engine_new_sample e'(1)] engine_new_sample e' show ?thesis
    by (intro exI [of _ ?e] exI [of _ e']) (simp add: MAX_QUEUED_PACKETS_def)
qed

section \<open>Reconnecting\<close>

text \<open>What a queued packet becomes when it is flushed.\<close>

definition delivery :: "(uuid \<Rightarrow> bool) \<Rightarrow> tunnel_engine \<Rightarrow> bytes \<times> ipv4 \<Rightarrow> datagram list" where
  "delivery send_ok e q =
     (case find (\<lambda>(_, p). ps_vip p = snd q) (en_peers e) of
        None \<Rightarrow> []
      | Some (i, p) \<Rightarrow>
          (if send_ok i
           then (case encode (frame_data (our_id (ps_relay p)) (peer_id_of (ps_relay p)) (fst q)) of
                   Ok bs \<Rightarrow> [(relay_addr (ps_relay p), bs)] | Err _ \<Rightarrow> [])
           else []))"

lemma send_to_peer_inner_delivery:
  assumes "length pkt \<le> MAX_PAYLOAD"
  shows "\<exists>r. send_to_peer_inner send_ok e pkt dst = ret (r, delivery send_ok e (pkt, dst))"
proof -
  have enc: "\<exists>bs. encode (frame_data a b pkt) = Ok bs" for a b
    using encode_Ok_iff [of "frame_data a b pkt"] assms by (auto simp: frame_data_def)
  show ?thesis
  proof (cases "find (\<lambda>(_, p). ps_vip p = dst) (en_peers e)")
    case None
    then show ?thesis by (simp add: send_to_peer_inner_def delivery_def)
  next
    case (Some ip)
    obtain i p where ip: "ip = (i, p)" by fastforce
    obtain bs where "encode (frame_data (our_id (ps_relay p)) (peer_id_of (ps_relay p)) pkt) = Ok bs"
      using enc by blast
    with Some ip show ?thesis by (simp add: send_to_peer_inner_def delivery_def client_send_def)
  qed
qed

lemma flush_queue_deliveries:
  "\<forall>(pkt, dst)\<in>set q. length pkt \<le> MAX_PAYLOAD \<Longrightarrow>
     flush_queue send_ok e q = ret (concat (map (delivery send_ok e) q))"
proof (induction q)
  case (Cons x q)
  obtain pkt dst where x: "x = (pkt, dst)" by fastforce
  obtain r where "send_to_peer_inner send_ok e pkt dst = ret (r, delivery send_ok e (pkt, dst))"
    using send_to_peer_inner_delivery [of pkt send_ok e dst] Cons.prems x by auto
  with Cons x show ?case by simp
qed simp

text \<open>
  A successful reconnection sends the registrations and then every queued packet, in the
  order it was queued, to the peer that now has its address, and leaves the engine connected with
  an empty queue; a packet without a peer is dropped.
\<close>

theorem reconnect_flushes_queue:
  assumes "reconnect reg send_ok answer e = ret (Ok (), e', out)"
    and "\<forall>(pkt, dst)\<in>set (en_queue e). length pkt \<le> MAX_PAYLOAD"
  shows "en_state e' = Connected \<and> en_queue e' = []
     \<and> (\<exists>registrations. out = registrations @ concat (map (delivery send_ok e') (en_queue e)))"
proof -
  obtain ps where a: "answer = Some ps" using assms(1) by (cases answer) (auto simp: reconnect_def Let_def)
  obtain r1 e1 o1 where l: "peer_loop False reg ps (e\<lparr>en_state := Reconnecting\<rparr>) 0 = ret (r1, e1, o1)"
    using assms(1) a by (auto simp: reconnect_def Let_def bind_eq_Some_conv)
  obtain peers' where e1: "e1 = e\<lparr>en_state := Reconnecting, en_peers := peers'\<rparr>"
    using peer_loop_frame [OF l] by auto
  let ?e2 = "e1\<lparr>en_state := Connected, en_queue := []\<rparr>"
  have "flush_queue send_ok ?e2 (en_queue e) = ret (concat (map (delivery send_ok ?e2) (en_queue e)))"
    by (rule flush_queue_deliveries [OF assms(2)])
  with assms(1) a l show ?thesis
    by (cases r1) (auto simp: reconnect_def Let_def e1)
qed

definition stranded_engine :: tunnel_engine where
  "stranded_engine = \<lparr>en_our_id = 1, en_our_ip = ipv4_new 100 64 0 0, en_relay_server = SocketAddr (V4 0) 33478,
     en_peers = [], en_state = Reconnecting, en_activity = Sleep, en_last_traffic = 0,
     en_queue = [([7], ipv4_new 100 64 0 1)]\<rparr>"

theorem reconnect_flushes_queue_witness:
  "\<exists>e' out bs. reconnect (\<lambda>_. (True, True)) (\<lambda>_. True)
       (Some [\<lparr>pi_device_id = 2, pi_ipv4 = show_ipv4 (ipv4_new 100 64 0 1), pi_public_key = [],
               pi_hostname = [], pi_last_seen_secs = 0\<rparr>]) stranded_engine
     = ret (Ok (), e', out) \<and> en_state e' = Connected
     \<and> last out = (SocketAddr (V4 0) 33478, bs) \<and> decode bs = ret (Ok (frame_data 1 2 [7]))"
proof -
  let ?p = "\<lparr>pi_device_id = 2, pi_ipv4 = show_ipv4 (ipv4_new 100 64 0 1), pi_public_key = [],
               pi_hostname = [], pi_last_seen_secs = 0\<rparr>"
  obtain bs where bs: "encode (frame_data 1 2 [7]) = Ok bs"
    using encode_Ok_iff [of "frame_data 1 2 [7]"] by (auto simp: frame_data_def MAX_PAYLOAD_def)
  obtain e' out where r: "reconnect (\<lambda>_. (True, True)) (\<lambda>_. True) (Some [?p]) stranded_engine = ret (Ok (), e', out)"
      and peers': "en_peers e' = [(2, \<lparr>ps_vip = ipv4_new 100 64 0 1, ps_relay =
          \<lparr>relay_addr = SocketAddr (V4 0) 33478, our_id = 1, peer_id_of = 2\<rparr>\<rparr>)]"
    by (simp add: reconnect_def stranded_engine_def Let_def client_register_def hello_encoded
        send_to_peer_inner_def client_send_def bs)
  have "\<forall>(pkt, dst)\<in>set (en_queue stranded_engine). length pkt \<le> MAX_PAYLOAD"
    by (simp add: stranded_engine_def MAX_PAYLOAD_def)
  from reconnect_flushes_queue [OF r this] obtain regs where
      e': "en_state e' = Connected" and
      "out = regs @ concat (map (delivery (\<lambda>_. True) e') (en_queue stranded_engine))" by blast
  then have "last out = (SocketAddr (V4 0) 33478, bs)"
    by (simp add: stranded_engine_def delivery_def peers' bs)
  with r e' relay_format.dec_enc [OF bs] show ?thesis by blast
qed

text \<open>Packets sent one after the other: their results, the engine and the datagrams.\<close>

fun send_many ::
  "(uuid \<Rightarrow> bool) \<Rightarrow> tunnel_engine \<Rightarrow> (nat \<times> bytes \<times> ipv4) list
     \<Rightarrow> ((engine_error + unit) list \<times> tunnel_engine \<times> datagram list) panics" where
  "send_many send_ok e [] = ret ([], e, [])"
| "send_many send_ok e ((now, packet, dst) # xs) = do {
     (r, e, out) \<leftarrow> send_to_peer send_ok now e packet dst;
     (rs, e, rest) \<leftarrow> send_many send_ok e xs;
     ret (r # rs, e, out @ rest) }"

lemma mark_traffic_fields [simp]:
  "en_state (mark_traffic now e) = en_state e" "en_queue (mark_traffic now e) = en_queue e"
  "en_peers (mark_traffic now e) = en_peers e" "en_our_ip (mark_traffic now e) = en_our_ip e"
  by (simp_all add: mark_traffic_def Let_def)

lemma send_to_peer_reconnecting:
  assumes "en_state e = Reconnecting"
  shows "\<exists>e1. send_to_peer send_ok now e packet dst = ret (Ok (), e1, []) \<and> en_state e1 = Reconnecting
     \<and> en_queue e1 = (if length (en_queue e) < 256 then en_queue e @ [(packet, dst)] else en_queue e)"
  using assms by (simp add: send_to_peer_def Let_def MAX_QUEUED_PACKETS_def)

lemma send_many_reconnecting:
  assumes "en_state e = Reconnecting" and "length (en_queue e) \<le> 256"
  shows "\<exists>e'. send_many send_ok e xs = ret (replicate (length xs) (Ok ()), e', [])
     \<and> en_queue e' = take 256 (en_queue e @ map snd xs) \<and> en_state e' = Reconnecting"
  using assms
proof (induction xs arbitrary: e)
  case (Cons x xs)
  obtain now packet dst where x: "x = (now, packet, dst)" by (cases x)
  obtain e1 where e1: "send_to_peer send_ok now e packet dst = ret (Ok (), e1, [])"
      "en_state e1 = Reconnecting"
      "en_queue e1 = (if length (en_queue e) < 256 then en_queue e @ [(packet, dst)] else en_queue e)"
    using send_to_peer_reconnecting [OF Cons.prems(1)] by blast
  then have "length (en_queue e1) \<le> 256" using Cons.prems(2) by simp
  from Cons.IH [OF e1(2) this] obtain e' where
      "send_many send_ok e1 xs = ret (replicate (length xs) (Ok ()), e', [])"
      "en_queue e' = take 256 (en_queue e1 @ map snd xs)" "en_state e' = Reconnecting" by blast
  with e1 x Cons.prems(2) show ?case by (cases "length (en_queue e) < 256") (auto simp: Suc_diff_le [of _ 255, simplified])
qed auto

text \<open>
  A reconnection that fails leaves the engine reconnecting for good: from then on every
  packet the app sends is reported as sent, nothing leaves the device, the first 256 packets are
  kept and all later ones are lost without an error, until another reconnection succeeds.
\<close>

theorem failed_reconnect_strands:
  assumes "reconnect reg send_ok answer e = ret (Err err, e1, out)"
    and "length (en_queue e) \<le> MAX_QUEUED_PACKETS"
  shows "\<exists>e2. send_many send_ok' e1 xs = ret (replicate (length xs) (Ok ()), e2, [])
     \<and> en_state e2 = Reconnecting \<and> en_queue e2 = take 256 (en_queue e @ map snd xs)"
proof -
  have "en_state e1 = Reconnecting" "en_queue e1 = en_queue e"
    using reconnect_frame [OF assms(1)] by simp_all
  with send_many_reconnecting [of e1 send_ok' xs] assms(2) show ?thesis
    by (auto simp: MAX_QUEUED_PACKETS_def)
qed

theorem failed_reconnect_strands_witness:
  "\<exists>e2. send_many (\<lambda>_. True) stranded_engine [(1, [8], 9)] = ret ([Ok ()], e2, [])
     \<and> en_queue e2 = [([7], ipv4_new 100 64 0 1), ([8], 9)]"
proof -
  have r: "reconnect (\<lambda>_. (True, True)) (\<lambda>_. True) None stranded_engine = ret (Err HttpFailed, stranded_engine, [])"
    by (simp add: reconnect_def stranded_engine_def)
  have "length (en_queue stranded_engine) \<le> MAX_QUEUED_PACKETS"
    by (simp add: stranded_engine_def MAX_QUEUED_PACKETS_def)
  from failed_reconnect_strands [OF r this, of "\<lambda>_. True" "[(1, [8], 9)]"] show ?thesis
    by (auto simp: stranded_engine_def)
qed

section \<open>Idle time\<close>

text \<open>Traffic makes the engine Active; idle time only slows it down.\<close>

lemma activity_after:
  "en_activity (update_activity (t + d) (mark_traffic t e)) =
     (if d < 5 then Active else if d < 30 then Idle else Sleep)"
  by (simp add: update_activity_def mark_traffic_def Let_def)

end
