(* ===== verification/Shared_Identity.thy ===== *)
theory Shared_Identity
  imports Mobile_Engine
begin

text \<open>
  The mobile engine (\<open>apps/mobile/src/engine.rs\<close>), its relay clients (\<open>crates/tunnel/src/relay.rs\<close>) and the
  relay server (\<open>services/relay/src/main.rs\<close>) together. The engine opens one socket per peer
  and registers all of them under its own id; the server keeps one address per id; a client
  takes only the frames of its own peer. So the engine hears one of its peers.
\<close>

lemma map_fst_map2: "length ys = length xs \<Longrightarrow> map fst (map2 (\<lambda>x y. (f x, g x y)) xs ys) = map f xs"
  by (induction xs arbitrary: ys) (auto simp: length_Suc_conv)

section \<open>What the engine registers\<close>

definition relay_client_for :: "tunnel_engine \<Rightarrow> uuid \<Rightarrow> relay_client" where
  "relay_client_for e i = \<lparr>relay_addr = en_relay_server e, our_id = en_our_id e, peer_id_of = i\<rparr>"

definition hello_bytes :: "uuid \<Rightarrow> bytes" where
  "hello_bytes i = [1, 1] @ uuid_bytes i @ uuid_bytes uuid_nil @ [0, 0]"

lemma register_hello:
  "client_register True True (en_relay_server e) (en_our_id e) i
     = ret (Ok (relay_client_for e i, [(en_relay_server e, hello_bytes (en_our_id e))]))"
  by (simp add: client_register_def hello_encoded relay_client_for_def hello_bytes_def)

lemma hm_insert_fresh: "k \<notin> fst ` set xs \<Longrightarrow> hm_insert k v xs = xs @ [(k, v)]"
  by (induction xs) auto

lemma sync_loop_registers:
  assumes "peer_loop True (\<lambda>_. (True, True)) ps e n = ret (Ok m, e', out)"
    and "distinct (map pi_device_id ps)" and "\<forall>p\<in>set ps. pi_device_id p \<noteq> en_our_id e"
    and "\<forall>p\<in>set ps. pi_device_id p \<notin> fst ` set (en_peers e)"
  shows "(\<exists>vips. en_peers e' = en_peers e @ map2 (\<lambda>p v. (pi_device_id p,
              \<lparr>ps_vip = v, ps_relay = relay_client_for e (pi_device_id p)\<rparr>)) ps vips \<and> length vips = length ps)
     \<and> out = map (\<lambda>_. (en_relay_server e, hello_bytes (en_our_id e))) ps
     \<and> m = n + length ps"
  using assms
proof (induction ps arbitrary: e n out)
  case (Cons p ps)
  let ?i = "pi_device_id p"
  obtain vip where vip: "parse_ipv4 (pi_ipv4 p) = Some vip"
    using Cons.prems by (cases "parse_ipv4 (pi_ipv4 p)") auto
  let ?e = "e\<lparr>en_peers := hm_insert ?i \<lparr>ps_vip = vip, ps_relay = relay_client_for e ?i\<rparr> (en_peers e)\<rparr>"
  have peers: "en_peers ?e = en_peers e @ [(?i, \<lparr>ps_vip = vip, ps_relay = relay_client_for e ?i\<rparr>)]"
    using Cons.prems by (simp add: hm_insert_fresh)
  have same: "relay_client_for ?e = relay_client_for e" by (simp add: relay_client_for_def fun_eq_iff)
  obtain out' where l: "peer_loop True (\<lambda>_. (True, True)) ps ?e (n + 1) = ret (Ok m, e', out')"
      "out = (en_relay_server e, hello_bytes (en_our_id e)) # out'"
    using Cons.prems vip by (auto simp: register_hello bind_eq_Some_conv)
  have "\<forall>p\<in>set ps. pi_device_id p \<notin> fst ` set (en_peers ?e)"
    using Cons.prems(2,4) by (auto simp: peers image_iff)
  from Cons.IH [OF l(1) _ _ this] Cons.prems obtain vips where
      "en_peers e' = en_peers ?e @ map2 (\<lambda>p v. (pi_device_id p,
          \<lparr>ps_vip = v, ps_relay = relay_client_for e (pi_device_id p)\<rparr>)) ps vips" "length vips = length ps"
      "out' = map (\<lambda>_. (en_relay_server e, hello_bytes (en_our_id e))) ps" "m = n + 1 + length ps"
    by (auto simp: same)
  with l(2) peers show ?case by (intro conjI exI [of _ "vip # vips"]) simp_all
qed simp

section \<open>What the relay server does with it\<close>

text \<open>Each registration arrives from the socket of its peer, in the order of sending.\<close>

definition hello_events :: "(uuid \<Rightarrow> socket_addr) \<Rightarrow> uuid list \<Rightarrow> datagram list \<Rightarrow> relay_event list" where
  "hello_events sock ids out = map2 (\<lambda>i d. Recv (snd d) (sock i) True) ids out"

lemma hello_events_run:
  assumes "exited s = None" and "ids \<noteq> []"
  shows "relay_run s (map (\<lambda>i. Recv (hello_bytes our) (sock i) True) ids)
     = s\<lparr>peers := (peers s)(our \<mapsto> sock (last ids))\<rparr>"
  using assms
proof (induction ids arbitrary: s)
  case (Cons i ids)
  have hello: "Recv (hello_bytes our) a True = hello_event our a" for a
    by (simp add: hello_bytes_def hello_event_def)
  show ?case
  proof (cases "ids = []")
    case True
    with Cons.prems show ?thesis by (simp add: hello del: fun_upd_apply)
  next
    case False
    with Cons.IH [of "s\<lparr>peers := (peers s)(our \<mapsto> sock i)\<rparr>"] Cons.prems show ?thesis
      by (simp add: hello del: fun_upd_apply)
  qed
qed simp

lemma data_event_forwarded:
  assumes "exited s = None" and "peers s to = Some a" and "length p \<le> MAX_PAYLOAD"
  shows "relay_step s (data_event from to p src True)
     = s\<lparr>sent := sent s @ [(a, ev_data (data_event from to p src True))]\<rparr>"
proof -
  have "length p \<le> RELAY_BUF - 36" using assms(3) by (simp add: MAX_PAYLOAD_def RELAY_BUF_def)
  then have fr: "event_frame (data_event from to p src True) = Some (frame_data from to p)"
    by (rule data_event_frame)
  have "ev_data (data_event from to p src True) = take (36 + length p) (ev_data (data_event from to p src True))"
    by (simp add: data_event_def)
  with relay_forwards_data_fact [OF assms(1) fr, of a] assms(2,3) show ?thesis
    by (simp add: frame_data_def data_event_def)
qed

lemma client_recv_data_event:
  assumes "length p \<le> MAX_PAYLOAD"
  shows "client_recv c (Ok (ev_data (data_event from to p src ok)) # rest)
     = (if from = peer_id_of c then ret (Received p from rest) else client_recv c rest)"
proof -
  have small: "length p \<le> RELAY_BUF - 36" using assms by (simp add: MAX_PAYLOAD_def RELAY_BUF_def)
  have all: "take RELAY_BUF (ev_data (data_event from to p src ok)) = ev_data (data_event from to p src ok)"
    using small by (simp add: data_event_def RELAY_BUF_def)
  have "wire_ok (ev_data (data_event from to p src ok))"
      "wire_frame (ev_data (data_event from to p src ok)) = frame_data from to p"
    using data_event_frame [OF small, of "from" "to" src ok] all
    by (auto simp: event_frame_def data_event_def split: if_splits)
  then show ?thesis by (simp add: decode_total all frame_data_def)
qed

section \<open>Only one peer is heard\<close>

text \<open>What the server sends to a socket from one state to a later one.\<close>

definition delivered :: "relay_state \<Rightarrow> relay_state \<Rightarrow> socket_addr \<Rightarrow> (io_error + bytes) list" where
  "delivered s s' a = map (Ok \<circ> snd) (filter (\<lambda>d. fst d = a) (drop (length (sent s)) (sent s')))"

lemma recv_loop_one:
  assumes "distinct (map fst xs)" and "(j, q) \<in> set xs"
    and "\<And>i p. (i, p) \<in> set xs \<Longrightarrow> client_recv (ps_relay p) (inbox i) =
          (if i = j \<and> ok then ret (Received data sender []) else ret Waiting)"
  shows "recv_loop inbox xs = ret (if ok then Ok data else Err NoData)"
  using assms
proof (induction xs)
  case (Cons x xs)
  obtain i p where x: "x = (i, p)" by fastforce
  have first: "client_recv (ps_relay p) (inbox i) =
      (if i = j \<and> ok then ret (Received data sender []) else ret Waiting)"
    using Cons.prems(3) x by simp
  show ?case
  proof (cases "i = j \<and> ok")
    case True
    with first x show ?thesis by simp
  next
    case False
    have rest: "recv_loop inbox (x # xs) = recv_loop inbox xs" using first x False by simp
    show ?thesis
    proof (cases "(j, q) \<in> set xs")
      case True
      have "recv_loop inbox xs = ret (if ok then Ok data else Err NoData)"
        using Cons.prems True by (intro Cons.IH) simp_all
      with rest show ?thesis by simp
    next
      case nomore: False
      then have "i = j" using Cons.prems(2) x by simp
      with False have "\<not> ok" by simp
      note h = Cons.prems(3)
      have "recv_loop inbox ys = ret (Err NoData)" if "set ys \<subseteq> set (x # xs)" for ys
        using that
      proof (induction ys)
        case (Cons y ys)
        obtain k r where "y = (k, r)" by fastforce
        with Cons \<open>\<not> ok\<close> h [of k r] show ?case by auto
      qed simp
      from this [of xs] rest \<open>\<not> ok\<close> show ?thesis by auto
    qed
  qed
qed simp

definition fresh_engine :: tunnel_engine where
  "fresh_engine = \<lparr>en_our_id = 1, en_our_ip = ipv4_new 100 64 0 0, en_relay_server = addr_a, en_peers = [],
     en_state = Connected, en_activity = Active, en_last_traffic = 0, en_queue = []\<rparr>"

definition peer_sample :: "uuid \<Rightarrow> ipv4 \<Rightarrow> peer_info" where
  "peer_sample i ip = \<lparr>pi_device_id = i, pi_ipv4 = show_ipv4 ip, pi_public_key = [], pi_hostname = [],
     pi_last_seen_secs = 0\<rparr>"

definition sample_sock :: "uuid \<Rightarrow> socket_addr" where
  "sample_sock i = SocketAddr (V4 (ipv4_new 192 0 2 9)) (if i = 2 then 5002 else 5003)"

text \<open>
  After the engine registered with the relay for each of its peers, from a socket per peer,
  a message that one of them sends to the device is received exactly if that peer is the last
  one registered. The messages of all other peers arrive at the socket of the last one, whose
  client drops them.
\<close>

theorem engine_hears_one_peer:
  assumes "sync_peers (\<lambda>_. (True, True)) (Some ps) e0 = ret (Ok n, e, regs)" and "en_peers e0 = []"
    and "distinct (map pi_device_id ps)" and "\<forall>p\<in>set ps. pi_device_id p \<noteq> en_our_id e0" and "ps \<noteq> []"
    and "inj_on sock (pi_device_id ` set ps)"
    and "exited s = None" and "length msg \<le> MAX_PAYLOAD"
    and "client_send \<lparr>relay_addr = en_relay_server e0, our_id = sd, peer_id_of = en_our_id e0\<rparr> msg True
           = ret (Ok (k, [(en_relay_server e0, bs)]))"
  shows "let ids = map pi_device_id ps;
             s1 = relay_run s (hello_events sock ids regs);
             s2 = relay_step s1 (Recv bs src True)
         in recv_from_any (\<lambda>i. delivered s1 s2 (sock i)) e
              = ret (if sd = last ids then Ok msg else Err NoData)"
proof -
  let ?ids = "map pi_device_id ps" and ?our = "en_our_id e0"
  let ?s1 = "relay_run s (hello_events sock ?ids regs)" and ?s2 = "relay_step (relay_run s (hello_events sock ?ids regs)) (Recv bs src True)"
  have loop: "peer_loop True (\<lambda>_. (True, True)) ps e0 0 = ret (Ok n, e, regs)"
    using assms(1) by (simp add: sync_peers_def)
  obtain vips where peers: "en_peers e = map2 (\<lambda>p v. (pi_device_id p,
        \<lparr>ps_vip = v, ps_relay = relay_client_for e0 (pi_device_id p)\<rparr>)) ps vips" "length vips = length ps"
      and regs: "regs = map (\<lambda>_. (en_relay_server e0, hello_bytes ?our)) ps"
    using sync_loop_registers [OF loop assms(3,4)] assms(2) by auto
  have "hello_events sock ?ids regs = map (\<lambda>i. Recv (hello_bytes ?our) (sock i) True) ?ids"
    by (simp add: hello_events_def regs map2_map_map o_def)
  then have s1: "?s1 = s\<lparr>peers := (peers s)(?our \<mapsto> sock (last ?ids))\<rparr>"
    using hello_events_run [OF assms(7), of ?ids ?our sock] assms(5) by simp
  have bs: "Recv bs src True = data_event sd ?our msg src True"
    using client_send_datagram [OF assms(8), of "\<lparr>relay_addr = en_relay_server e0, our_id = sd, peer_id_of = ?our\<rparr>" src] assms(9)
    by (simp add: data_event_def)
  let ?out = "ev_data (data_event sd ?our msg src True)"
  have s2: "?s2 = ?s1\<lparr>sent := sent ?s1 @ [(sock (last ?ids), ?out)]\<rparr>"
    unfolding bs using data_event_forwarded [of ?s1 ?our "sock (last ?ids)" msg sd src] assms(7,8) by (simp add: s1)
  have in_ids: "i \<in> pi_device_id ` set ps \<and> ps_relay p = relay_client_for e0 i" if "(i, p) \<in> set (en_peers e)" for i p
    using that by (auto simp: peers set_zip)
  have last: "last ?ids \<in> pi_device_id ` set ps" using assms(5) by (metis last_in_set list.set_map map_is_Nil_conv)
  have "recv_loop (\<lambda>i. delivered ?s1 ?s2 (sock i)) (en_peers e)
      = ret (if sd = last ?ids then Ok msg else Err NoData)"
  proof (rule recv_loop_one [where j = "last ?ids" and q = "snd (last (en_peers e))" and sender = sd])
    have "map fst (en_peers e) = ?ids"
      unfolding peers(1) by (rule map_fst_map2 [OF peers(2)])
    then show "distinct (map fst (en_peers e))" using assms(3) by simp
    have ne: "en_peers e \<noteq> []" using \<open>map fst (en_peers e) = ?ids\<close> assms(5) by auto
    have "fst (last (en_peers e)) = last ?ids"
      using ne \<open>map fst (en_peers e) = ?ids\<close> by (metis last_map)
    with last_in_set [OF ne] show "(last ?ids, snd (last (en_peers e))) \<in> set (en_peers e)"
      by (metis prod.collapse)
  next
    fix i p assume "(i, p) \<in> set (en_peers e)"
    with in_ids have i: "i \<in> pi_device_id ` set ps" "ps_relay p = relay_client_for e0 i" by blast+
    have "sock (last ?ids) = sock i \<longleftrightarrow> i = last ?ids" using inj_onD [OF assms(6)] i(1) last by metis
    then have "delivered ?s1 ?s2 (sock i) = (if i = last ?ids then [Ok ?out] else [])"
      unfolding s2 by (simp add: delivered_def)
    with i(2) assms(8) show "client_recv (ps_relay p) (delivered ?s1 ?s2 (sock i)) =
        (if i = last ?ids \<and> sd = last ?ids then ret (Received msg sd []) else ret Waiting)"
      by (auto simp: client_recv_data_event relay_client_for_def simp del: client_recv.simps(3))
  qed
  then show ?thesis by (simp add: Let_def recv_from_any_def)
qed

theorem engine_hears_one_peer_witness:
  "\<exists>e regs s1 s2.
     sync_peers (\<lambda>_. (True, True))
       (Some [peer_sample 2 (ipv4_new 100 64 0 1), peer_sample 3 (ipv4_new 100 64 0 2)]) fresh_engine = ret (Ok 2, e, regs)
     \<and> s1 = relay_run relay_init (hello_events sample_sock [2, 3] regs)
     \<and> (\<exists>bs. client_send \<lparr>relay_addr = addr_a, our_id = 2, peer_id_of = 1\<rparr> [5] True = ret (Ok (37, [(addr_a, bs)]))
           \<and> s2 = relay_step s1 (Recv bs addr_b True))
     \<and> recv_from_any (\<lambda>i. delivered s1 s2 (sample_sock i)) e = ret (Err NoData)"
proof -
  let ?ps = "[peer_sample 2 (ipv4_new 100 64 0 1), peer_sample 3 (ipv4_new 100 64 0 2)]"
  obtain e regs where sync: "sync_peers (\<lambda>_. (True, True)) (Some ?ps) fresh_engine = ret (Ok 2, e, regs)"
    by (simp add: sync_peers_def fresh_engine_def peer_sample_def register_hello client_register_def hello_encoded)
  obtain bs where bs: "client_send \<lparr>relay_addr = addr_a, our_id = 2, peer_id_of = 1\<rparr> [5] True = ret (Ok (37, [(addr_a, bs)]))"
    using client_send_spec [of "\<lparr>relay_addr = addr_a, our_id = 2, peer_id_of = 1\<rparr>" "[5]" True]
    by (auto simp: MAX_PAYLOAD_def)
  have "en_peers fresh_engine = []" "distinct (map pi_device_id ?ps)" "\<forall>p\<in>set ?ps. pi_device_id p \<noteq> en_our_id fresh_engine"
      "?ps \<noteq> []" "inj_on sample_sock (pi_device_id ` set ?ps)" "exited relay_init = None" "length [5 :: u8] \<le> MAX_PAYLOAD"
    by (simp_all add: fresh_engine_def peer_sample_def sample_sock_def relay_init_def MAX_PAYLOAD_def)
  from engine_hears_one_peer [OF sync this, of 2 37 bs addr_b] bs
  have "recv_from_any (\<lambda>i. delivered (relay_run relay_init (hello_events sample_sock [2, 3] regs))
      (relay_step (relay_run relay_init (hello_events sample_sock [2, 3] regs)) (Recv bs addr_b True)) (sample_sock i)) e
      = ret (Err NoData)"
    by (simp add: fresh_engine_def peer_sample_def Let_def)
  with sync bs show ?thesis by blast
qed

end
