(* ===== verification/Integration_Tests.thy ===== *)
theory Integration_Tests
  imports Relay_Interop Unit_Tests Shared_Identity
begin

text \<open>
  The integration tests of \<open>crates/tunnel/tests/e2e_interop.rs\<close> and \<open>crates/nat/tests/nat_traversal.rs\<close>,
  one definition per test function, run on the model with the servers that the tests spawn. The
  network is the local host: a datagram arrives at once, from the address of the socket that
  sent it.
\<close>

section \<open>Clients at the relay of the tests\<close>

text \<open>A socket sends to the relay: the relay's next state and the datagrams it sends.\<close>

definition to_relay :: "test_relay \<Rightarrow> socket_addr \<Rightarrow> datagram list \<Rightarrow> (test_relay \<times> datagram list) panics" where
  "to_relay t src out =
     (let t' = foldl (\<lambda>t d. test_relay_step t (Recv (snd d) src True)) t out
      in if tr_stopped t' then panic else ret (t', drop (length (tr_sent t)) (tr_sent t')))"

text \<open>What a client at an address reads of these datagrams; waiting for ever fails the test.\<close>

definition read_at :: "relay_client \<Rightarrow> socket_addr \<Rightarrow> datagram list \<Rightarrow> (bytes \<times> peer_id) panics" where
  "read_at c a out = do {
     r \<leftarrow> client_recv c (map (Ok \<circ> snd) (filter (\<lambda>d. fst d = a) out));
     case r of
       Received data sender _ \<Rightarrow> ret (data, sender)
     | _ \<Rightarrow> panic }"

definition join ::
  "test_relay \<Rightarrow> socket_addr \<Rightarrow> peer_id \<Rightarrow> peer_id \<Rightarrow> socket_addr \<Rightarrow> (test_relay \<times> relay_client) panics" where
  "join t raddr our peer a = do {
     r \<leftarrow> client_register True True raddr our peer;
     (c, out) \<leftarrow> unwrap r;
     (t', _) \<leftarrow> to_relay t a out;
     ret (t', c) }"

definition pass_on ::
  "test_relay \<Rightarrow> relay_client \<Rightarrow> socket_addr \<Rightarrow> relay_client \<Rightarrow> socket_addr \<Rightarrow> bytes
     \<Rightarrow> (test_relay \<times> bytes \<times> peer_id) panics" where
  "pass_on t c c_addr d d_addr msg = do {
     r \<leftarrow> client_send c msg True;
     (_, out) \<leftarrow> unwrap r;
     (t', sent) \<leftarrow> to_relay t c_addr out;
     (data, sender) \<leftarrow> read_at d d_addr sent;
     ret (t', data, sender) }"

definition e2e_register_discover_relay ::
  "socket_addr \<Rightarrow> peer_id \<Rightarrow> peer_id \<Rightarrow> socket_addr \<Rightarrow> socket_addr \<Rightarrow> unit panics" where
  "e2e_register_discover_relay raddr alice_id bob_id a_addr b_addr = do {
     (t, alice) \<leftarrow> join test_relay_init raddr alice_id bob_id a_addr;
     (t, bob) \<leftarrow> join t raddr bob_id alice_id b_addr;
     (t, received, sender) \<leftarrow> pass_on t alice a_addr bob b_addr (ascii ''hello bob from alice'');
     assert_that (received = ascii ''hello bob from alice'');
     assert_that (sender = alice_id);
     (t, received, sender) \<leftarrow> pass_on t bob b_addr alice a_addr (ascii ''echo from bob'');
     assert_that (received = ascii ''echo from bob'');
     assert_that (sender = bob_id) }"

definition e2e_multi_peer_relay ::
  "socket_addr \<Rightarrow> peer_id \<Rightarrow> peer_id \<Rightarrow> socket_addr \<Rightarrow> socket_addr \<Rightarrow> unit panics" where
  "e2e_multi_peer_relay raddr a_id b_id a_addr b_addr = do {
     (t, peer_a) \<leftarrow> join test_relay_init raddr a_id b_id a_addr;
     (t, peer_b) \<leftarrow> join t raddr b_id a_id b_addr;
     (t, data, _) \<leftarrow> pass_on t peer_a a_addr peer_b b_addr (ascii ''A->B'');
     assert_that (data = ascii ''A->B'');
     (t, data, _) \<leftarrow> pass_on t peer_b b_addr peer_a a_addr (ascii ''B->A'');
     assert_that (data = ascii ''B->A'') }"

text \<open>Both ciphers of this test use the secret that Alice derives.\<close>

definition e2e_encrypted_tunnel_over_relay ::
  "('k \<Rightarrow> bytes) \<Rightarrow> ('k \<Rightarrow> bytes \<Rightarrow> bytes) \<Rightarrow> seal_fn \<Rightarrow> seal_fn \<Rightarrow> 'k \<Rightarrow> 'k
     \<Rightarrow> socket_addr \<Rightarrow> peer_id \<Rightarrow> peer_id \<Rightarrow> socket_addr \<Rightarrow> socket_addr \<Rightarrow> unit panics" where
  "e2e_encrypted_tunnel_over_relay pub dh seal unseal sa sb raddr a_id b_id a_addr b_addr = do {
     let shared = diffie_hellman dh (generate pub sa) (public_key_bytes (generate pub sb));
     (t, a_relay) \<leftarrow> join test_relay_init raddr a_id b_id a_addr;
     (t, b_relay) \<leftarrow> join t raddr b_id a_id b_addr;
     let plaintext = ascii ''encrypted tunnel payload'';
     ciphertext \<leftarrow> unwrap (fst (cipher_encrypt seal (cipher_new shared 0) plaintext));
     (t, received, _) \<leftarrow> pass_on t a_relay a_addr b_relay b_addr ciphertext;
     decrypted \<leftarrow> unwrap (cipher_decrypt unseal (cipher_new shared 0) received);
     assert_that (decrypted = plaintext) }"

definition e2e_relay_routing :: "peer_id \<Rightarrow> peer_id \<Rightarrow> socket_addr \<Rightarrow> socket_addr \<Rightarrow> unit panics" where
  "e2e_relay_routing alice bob a_addr b_addr = do {
     a_hello \<leftarrow> unwrap (encode (frame_hello alice));
     (t, _) \<leftarrow> to_relay test_relay_init a_addr [(a_addr, a_hello)];
     b_hello \<leftarrow> unwrap (encode (frame_hello bob));
     (t, _) \<leftarrow> to_relay t b_addr [(b_addr, b_hello)];
     data_frame \<leftarrow> unwrap (encode (frame_data alice bob (ascii ''routed payload'')));
     (t, sent) \<leftarrow> to_relay t a_addr [(a_addr, data_frame)];
     (bs, _) \<leftarrow> handed_over a_addr (filter (\<lambda>d. fst d = b_addr) sent);
     r \<leftarrow> decode (take 512 bs);
     received \<leftarrow> unwrap r;
     assert_that (sender_id received = alice);
     assert_that (msg_type received = Data);
     assert_that (payload received = ascii ''routed payload'') }"

fun frames_roundtrip :: "peer_id \<Rightarrow> peer_id \<Rightarrow> bytes list \<Rightarrow> unit panics" where
  "frames_roundtrip id1 id2 [] = ret ()"
| "frames_roundtrip id1 id2 (p # ps) = do {
     encoded \<leftarrow> unwrap (encode (frame_data id1 id2 p));
     r \<leftarrow> decode encoded;
     decoded \<leftarrow> unwrap r;
     assert_that (sender_id decoded = id1);
     assert_that (target_id decoded = id2);
     assert_that (msg_type decoded = Data);
     assert_that (payload decoded = p);
     frames_roundtrip id1 id2 ps }"

definition e2e_protocol_frame_roundtrip :: "peer_id \<Rightarrow> peer_id \<Rightarrow> unit panics" where
  "e2e_protocol_frame_roundtrip id1 id2 =
     frames_roundtrip id1 id2 [[], [0xAA], replicate 256 0xBB, replicate 1024 0xCC]"

fun pass_all ::
  "test_relay \<Rightarrow> relay_client \<Rightarrow> socket_addr \<Rightarrow> relay_client \<Rightarrow> socket_addr \<Rightarrow> bytes list \<Rightarrow> unit panics" where
  "pass_all t c c_addr d d_addr [] = ret ()"
| "pass_all t c c_addr d d_addr (msg # msgs) = do {
     (t, data, _) \<leftarrow> pass_on t c c_addr d d_addr msg;
     assert_that (data = msg);
     pass_all t c c_addr d d_addr msgs }"

definition e2e_stun_and_relay_fallback ::
  "socket_addr \<Rightarrow> peer_id \<Rightarrow> peer_id \<Rightarrow> socket_addr \<Rightarrow> socket_addr \<Rightarrow> unit panics" where
  "e2e_stun_and_relay_fallback raddr a_id b_id a_addr b_addr = do {
     (t, a_relay) \<leftarrow> join test_relay_init raddr a_id b_id a_addr;
     (t, b_relay) \<leftarrow> join t raddr b_id a_id b_addr;
     pass_all t a_relay a_addr b_relay b_addr
       [ascii ''packet 1: tcp syn'', ascii ''packet 2: tcp ack'', ascii ''packet 3: http'', ascii ''packet 4: dns''] }"

section \<open>They pass\<close>

lemma hello_encoded_bytes: "encode (frame_hello i) = Ok (hello_bytes i)"
  by (simp add: hello_encoded hello_bytes_def)

lemma hello_to_relay:
  assumes "exited s = None"
  shows "to_relay (as_test_relay s) src [(x, hello_bytes i)] = ret (as_test_relay (s\<lparr>peers := (peers s)(i \<mapsto> src)\<rparr>), [])"
proof -
  have e: "Recv (hello_bytes i) src True = hello_event i src" by (simp add: hello_bytes_def hello_event_def)
  have "exited (relay_step s (hello_event i src)) \<noteq> Some ExitSend" using assms by simp
  from test_relay_step_agrees [OF this] assms
  have "test_relay_step (as_test_relay s) (Recv (hello_bytes i) src True) = as_test_relay (s\<lparr>peers := (peers s)(i \<mapsto> src)\<rparr>)"
    unfolding e by (simp del: fun_upd_apply)
  then show ?thesis using assms by (simp add: to_relay_def) (simp add: as_test_relay_def)
qed

lemma join_as_test_relay:
  assumes "exited s = None"
  shows "join (as_test_relay s) raddr our peer a
     = ret (as_test_relay (s\<lparr>peers := (peers s)(our \<mapsto> a)\<rparr>),
            \<lparr>relay_addr = raddr, our_id = our, peer_id_of = peer\<rparr>)"
  by (simp add: join_def client_register_def hello_encoded_bytes hello_to_relay [OF assms] del: fun_upd_apply)

lemma pass_on_joined:
  assumes "exited s = None" and "peers s (our_id d) = Some d_addr"
    and "peer_id_of c = our_id d" and "peer_id_of d = our_id c" and "length msg \<le> MAX_PAYLOAD"
  shows "\<exists>s'. pass_on (as_test_relay s) c c_addr d d_addr msg = ret (as_test_relay s', msg, our_id c)
     \<and> exited s' = None \<and> peers s' = peers s"
proof -
  obtain bs out where r: "client_send c msg True = ret (Ok (HEADER_LEN + length msg, [(relay_addr c, bs)]))"
      "relay_step s (Recv bs c_addr True) = s\<lparr>sent := sent s @ [(d_addr, out)]\<rparr>"
      "client_recv d [Ok out] = ret (Received msg (our_id c) [])"
    using relay_end_to_end [OF assms, of c_addr "[]"] by blast
  let ?s = "s\<lparr>sent := sent s @ [(d_addr, out)]\<rparr>"
  have "test_relay_step (as_test_relay s) (Recv bs c_addr True) = as_test_relay ?s"
    using test_relay_step_agrees [of s "Recv bs c_addr True"] r(2) assms(1) by simp
  then have "to_relay (as_test_relay s) c_addr [(relay_addr c, bs)] = ret (as_test_relay ?s, [(d_addr, out)])"
    using assms(1) by (simp add: to_relay_def as_test_relay_def)
  moreover have "read_at d d_addr [(d_addr, out)] = ret (msg, our_id c)"
    using r(3) by (simp add: read_at_def)
  ultimately have "pass_on (as_test_relay s) c c_addr d d_addr msg = ret (as_test_relay ?s, msg, our_id c)"
    by (simp add: pass_on_def r(1))
  with assms(1) show ?thesis by (intro exI [of _ ?s]) simp
qed

lemma test_relay_init_as: "test_relay_init = as_test_relay relay_init"
  by (simp add: test_relay_init_def as_test_relay_def relay_init_def)

text \<open>Two clients that joined and talk to each other.\<close>

lemma joined_pair:
  assumes "a_id \<noteq> b_id"
  obtains s where "\<And>k :: test_relay \<Rightarrow> relay_client \<Rightarrow> relay_client \<Rightarrow> unit panics. do { (t, c) \<leftarrow> join test_relay_init raddr a_id b_id a_addr;
             (t, d) \<leftarrow> join t raddr b_id a_id b_addr; k t c d }
         = k (as_test_relay s) \<lparr>relay_addr = raddr, our_id = a_id, peer_id_of = b_id\<rparr>
             \<lparr>relay_addr = raddr, our_id = b_id, peer_id_of = a_id\<rparr>"
    and "exited s = None" and "peers s a_id = Some a_addr" and "peers s b_id = Some b_addr"
proof -
  let ?s = "relay_init\<lparr>peers := (peers relay_init)(a_id \<mapsto> a_addr, b_id \<mapsto> b_addr)\<rparr>"
  have run: "exited relay_init = None" "exited (relay_init\<lparr>peers := (peers relay_init)(a_id \<mapsto> a_addr)\<rparr>) = None"
    by (simp_all add: relay_init_def)
  have "do { (t, c) \<leftarrow> join test_relay_init raddr a_id b_id a_addr;
             (t, d) \<leftarrow> join t raddr b_id a_id b_addr; k t c d }
         = k (as_test_relay ?s) \<lparr>relay_addr = raddr, our_id = a_id, peer_id_of = b_id\<rparr>
             \<lparr>relay_addr = raddr, our_id = b_id, peer_id_of = a_id\<rparr>" for k :: "test_relay \<Rightarrow> relay_client \<Rightarrow> relay_client \<Rightarrow> unit panics"
    using join_as_test_relay [OF run(2)] by (simp add: test_relay_init_as join_as_test_relay [OF run(1)] del: fun_upd_apply)
  moreover have "exited ?s = None" "peers ?s a_id = Some a_addr" "peers ?s b_id = Some b_addr"
    using assms by (simp_all add: relay_init_def)
  ultimately show ?thesis by (rule that)
qed

lemma both_ways:
  assumes "a_id \<noteq> b_id" and "length m1 \<le> MAX_PAYLOAD" and "length m2 \<le> MAX_PAYLOAD"
    and "exited s = None" and "peers s a_id = Some a_addr" and "peers s b_id = Some b_addr"
  obtains s1 s2 where "pass_on (as_test_relay s) \<lparr>relay_addr = raddr, our_id = a_id, peer_id_of = b_id\<rparr> a_addr
        \<lparr>relay_addr = raddr, our_id = b_id, peer_id_of = a_id\<rparr> b_addr m1 = ret (as_test_relay s1, m1, a_id)"
    and "pass_on (as_test_relay s1) \<lparr>relay_addr = raddr, our_id = b_id, peer_id_of = a_id\<rparr> b_addr
        \<lparr>relay_addr = raddr, our_id = a_id, peer_id_of = b_id\<rparr> a_addr m2 = ret (as_test_relay s2, m2, b_id)"
proof -
  let ?a = "\<lparr>relay_addr = raddr, our_id = a_id, peer_id_of = b_id\<rparr>" and ?b = "\<lparr>relay_addr = raddr, our_id = b_id, peer_id_of = a_id\<rparr>"
  obtain s1 where s1: "pass_on (as_test_relay s) ?a a_addr ?b b_addr m1 = ret (as_test_relay s1, m1, a_id)"
      "exited s1 = None" "peers s1 = peers s"
    using pass_on_joined [OF assms(4), of ?b b_addr ?a m1 a_addr] assms(2,6) by auto
  obtain s2 where "pass_on (as_test_relay s1) ?b b_addr ?a a_addr m2 = ret (as_test_relay s2, m2, b_id)"
    using pass_on_joined [OF s1(2), of ?a a_addr ?b m2 b_addr] assms(3,5) s1(3) by auto
  with s1(1) show ?thesis by (rule that)
qed

lemma pass_all_joined:
  assumes "exited s = None" and "peers s (our_id d) = Some d_addr"
    and "peer_id_of c = our_id d" and "peer_id_of d = our_id c" and "\<forall>m\<in>set msgs. length m \<le> MAX_PAYLOAD"
  shows "pass_all (as_test_relay s) c c_addr d d_addr msgs = ret ()"
  using assms(1,2,5)
proof (induction msgs arbitrary: s)
  case (Cons m msgs)
  then obtain s' where "pass_on (as_test_relay s) c c_addr d d_addr m = ret (as_test_relay s', m, our_id c)"
      "exited s' = None" "peers s' = peers s"
    using pass_on_joined [OF Cons.prems(1,2) assms(3,4), of m c_addr] by auto
  with Cons show ?case by simp
qed simp

lemma relay_tests:
  assumes "a_id \<noteq> b_id"
  shows "e2e_register_discover_relay raddr a_id b_id a_addr b_addr = ret ()"
    and "e2e_multi_peer_relay raddr a_id b_id a_addr b_addr = ret ()"
    and "e2e_stun_and_relay_fallback raddr a_id b_id a_addr b_addr = ret ()"
proof -
  obtain s where s: "\<And>k :: test_relay \<Rightarrow> relay_client \<Rightarrow> relay_client \<Rightarrow> unit panics. do { (t, c) \<leftarrow> join test_relay_init raddr a_id b_id a_addr;
             (t, d) \<leftarrow> join t raddr b_id a_id b_addr; k t c d }
         = k (as_test_relay s) \<lparr>relay_addr = raddr, our_id = a_id, peer_id_of = b_id\<rparr>
             \<lparr>relay_addr = raddr, our_id = b_id, peer_id_of = a_id\<rparr>"
      "exited s = None" "peers s a_id = Some a_addr" "peers s b_id = Some b_addr"
    by (rule joined_pair [OF assms, where raddr = raddr and a_addr = a_addr and b_addr = b_addr]) (rule that)
  have short: "length (ascii ''hello bob from alice'') \<le> MAX_PAYLOAD" "length (ascii ''echo from bob'') \<le> MAX_PAYLOAD"
      "length (ascii ''A->B'') \<le> MAX_PAYLOAD" "length (ascii ''B->A'') \<le> MAX_PAYLOAD"
    by (simp_all add: ascii_def MAX_PAYLOAD_def)
  show "e2e_register_discover_relay raddr a_id b_id a_addr b_addr = ret ()"
    unfolding e2e_register_discover_relay_def s(1)
    by (rule both_ways [OF assms short(1,2) s(2-4), of raddr]) simp
  show "e2e_multi_peer_relay raddr a_id b_id a_addr b_addr = ret ()"
    unfolding e2e_multi_peer_relay_def s(1)
    by (rule both_ways [OF assms short(3,4) s(2-4), of raddr]) simp
  show "e2e_stun_and_relay_fallback raddr a_id b_id a_addr b_addr = ret ()"
    unfolding e2e_stun_and_relay_fallback_def s(1)
    using s by (intro pass_all_joined) (simp_all add: ascii_def MAX_PAYLOAD_def)
qed

lemma encrypted_relay_test:
  assumes "aead_accepts seal" and "aead_ok seal unseal" and "a_id \<noteq> b_id"
  shows "e2e_encrypted_tunnel_over_relay pub dh seal unseal sa sb raddr a_id b_id a_addr b_addr = ret ()"
proof -
  let ?k = "diffie_hellman dh (generate pub sa) (public_key_bytes (generate pub sb))"
  let ?p = "ascii ''encrypted tunnel payload''"
  obtain s where s: "\<And>k :: test_relay \<Rightarrow> relay_client \<Rightarrow> relay_client \<Rightarrow> unit panics. do { (t, c) \<leftarrow> join test_relay_init raddr a_id b_id a_addr;
             (t, d) \<leftarrow> join t raddr b_id a_id b_addr; k t c d }
         = k (as_test_relay s) \<lparr>relay_addr = raddr, our_id = a_id, peer_id_of = b_id\<rparr>
             \<lparr>relay_addr = raddr, our_id = b_id, peer_id_of = a_id\<rparr>"
      "exited s = None" "peers s a_id = Some a_addr" "peers s b_id = Some b_addr"
    by (rule joined_pair [OF assms(3), where raddr = raddr and a_addr = a_addr and b_addr = b_addr]) (rule that)
  obtain pkt tx where pkt: "cipher_encrypt seal (cipher_new ?k 0) ?p = (Ok pkt, tx)" "length pkt = length ?p + 28"
      "cipher_decrypt unseal (cipher_new ?k 0) pkt = Ok ?p"
    by (rule encrypts [OF assms(1,2), where p = ?p and tx = "cipher_new ?k 0"], simp add: ascii_def) auto
  have "length pkt \<le> MAX_PAYLOAD" using pkt(2) by (simp add: ascii_def MAX_PAYLOAD_def)
  from both_ways [OF assms(3) this this s(2-4), of raddr] obtain s1 where
      "pass_on (as_test_relay s) \<lparr>relay_addr = raddr, our_id = a_id, peer_id_of = b_id\<rparr> a_addr
        \<lparr>relay_addr = raddr, our_id = b_id, peer_id_of = a_id\<rparr> b_addr pkt = ret (as_test_relay s1, pkt, a_id)" by metis
  then show ?thesis
    unfolding e2e_encrypted_tunnel_over_relay_def Let_def s(1) using pkt(1,3) by simp
qed

lemma routing_test:
  assumes "alice \<noteq> bob"
  shows "e2e_relay_routing alice bob a_addr b_addr = ret ()"
proof -
  let ?s = "relay_init\<lparr>peers := (peers relay_init)(alice \<mapsto> a_addr, bob \<mapsto> b_addr)\<rparr>"
  let ?p = "ascii ''routed payload''"
  let ?e = "data_event alice bob ?p a_addr True"
  have small: "length ?p \<le> MAX_PAYLOAD" by (simp add: ascii_def MAX_PAYLOAD_def)
  have run: "exited relay_init = None" "exited (relay_init\<lparr>peers := (peers relay_init)(alice \<mapsto> a_addr)\<rparr>) = None"
      "exited ?s = None" by (simp_all add: relay_init_def)
  have step: "relay_step ?s ?e = ?s\<lparr>sent := sent ?s @ [(b_addr, ev_data ?e)]\<rparr>"
    by (rule data_event_forwarded) (use small in \<open>simp_all add: relay_init_def\<close>)
  have enc: "encode (frame_data alice bob ?p) = Ok (ev_data ?e)"
    using small by (simp add: encode_def frame_data_def data_event_def Let_def)
  have dec: "decode (ev_data ?e) = ret (Ok (frame_data alice bob ?p))"
    using wire_frame_encoded [OF enc] by (simp add: decode_total)
  have "test_relay_step (as_test_relay ?s) ?e = as_test_relay (?s\<lparr>sent := [(b_addr, ev_data ?e)]\<rparr>)"
    using test_relay_step_agrees [of ?s ?e] unfolding step by (simp add: relay_init_def)
  moreover have "Recv (ev_data ?e) a_addr True = ?e" by (simp add: data_event_def)
  ultimately have sent: "to_relay (as_test_relay ?s) a_addr [(a_addr, ev_data ?e)]
      = ret (as_test_relay (?s\<lparr>sent := [(b_addr, ev_data ?e)]\<rparr>), [(b_addr, ev_data ?e)])"
    by (simp add: to_relay_def as_test_relay_def relay_init_def)
  have "length (ev_data ?e) \<le> 512" by (simp add: data_event_def ascii_def)
  then show ?thesis
    unfolding e2e_relay_routing_def test_relay_init_as hello_encoded_bytes unwrap_simps Option.bind.simps
      hello_to_relay [OF run(1)] prod.case
    using hello_to_relay [OF run(2)] sent enc dec by (simp add: handed_over_def frame_data_def del: fun_upd_apply)
qed

lemma frames_test: "e2e_protocol_frame_roundtrip id1 id2 = ret ()"
proof -
  have "frames_roundtrip id1 id2 ps = ret ()" if "\<forall>p\<in>set ps. length p \<le> MAX_PAYLOAD" for ps
    using that
  proof (induction ps)
    case (Cons p ps)
    then obtain bs where bs: "encode (frame_data id1 id2 p) = Ok bs"
      using encode_Ok_iff [of "frame_data id1 id2 p"] by (auto simp: frame_data_def)
    have "decode bs = ret (Ok (frame_data id1 id2 p))" using wire_frame_encoded [OF bs] by (simp add: decode_total)
    with bs Cons show ?case by (simp add: frame_data_def)
  qed simp
  then show ?thesis by (simp add: e2e_protocol_frame_roundtrip_def MAX_PAYLOAD_def del: frames_roundtrip.simps)
qed

section \<open>STUN, candidates and punching together\<close>

text \<open>
  The STUN server of this test: unlike the server of the repository it takes any cookie and
  refuses IPv6 clients; otherwise the two answer alike.
\<close>

definition stun_response :: "bytes \<Rightarrow> socket_addr \<Rightarrow> bytes option panics" where
  "stun_response data client =
     (if length data < 20 then ret None
      else do {
        ty \<leftarrow> u16_at data 0;
        if ty \<noteq> 0x0001 then ret None
        else do {
          tx_id \<leftarrow> slice data 8 20;
          let x_port = addr_port client XOR ucast (drop_bit 16 (0x2112A442 :: u32));
          (case addr_ip client of
             V6 _ \<Rightarrow> ret None
           | V4 ip \<Rightarrow>
               (let attr = u16_be 0x0020 @ u16_be 8 @ [0x00] @ [0x01] @ u16_be x_port
                           @ u32_be (u32_of_be (ipv4_octets ip) XOR 0x2112A442)
                in ret (Some (u16_be 0x0101 @ u16_be (of_nat (length attr)) @ u32_be 0x2112A442
                              @ tx_id @ attr)))) } })"

lemma stun_response_server:
  "stun_response data client =
     (case addr_ip client of
        V6 _ \<Rightarrow> ret None
      | V4 _ \<Rightarrow> handle_binding_request (take 4 data @ u32_be MAGIC_COOKIE @ drop 8 data) client)"
proof (cases "20 \<le> length data")
  case True
  then have "take 2 (take 4 data @ u32_be MAGIC_COOKIE @ drop 8 data) = take 2 data"
      "take 4 (drop 4 (take 4 data @ u32_be MAGIC_COOKIE @ drop 8 data)) = u32_be MAGIC_COOKIE"
      "drop 8 (take 4 data @ u32_be MAGIC_COOKIE @ drop 8 data) = drop 8 data"
    by simp_all
  with True show ?thesis
    by (simp add: stun_response_def handle_binding_request_spec build_xor_mapped_v4_def Let_def BINDING_REQUEST_def
        BINDING_SUCCESS_def MAGIC_COOKIE_def ATTR_XOR_MAPPED_ADDRESS_def cookie_port_def split: ip_addr.split)
next
  case False
  then have "min (length data) 4 + (length data - 8) < 16" by linarith
  with False show ?thesis
    by (simp add: stun_response_def handle_binding_request_def split: ip_addr.split)
qed

definition discover_at :: "bytes \<Rightarrow> ipv4 \<Rightarrow> u16 \<Rightarrow> socket_addr panics" where
  "discover_at tx_id ip port = do {
     rsp \<leftarrow> stun_response (build_binding_request tx_id) (SocketAddr (V4 ip) port);
     r \<leftarrow> discover tx_id True rsp;
     unwrap r }"

definition full_stun_candidate_punch_flow :: "bytes \<Rightarrow> bytes \<Rightarrow> pair_move list \<Rightarrow> u16 \<Rightarrow> u16 \<Rightarrow> unit panics" where
  "full_stun_candidate_punch_flow tx_a tx_b ms port_a port_b = do {
     let local = ipv4_new 127 0 0 1;
     public_a \<leftarrow> discover_at tx_a local port_a;
     let peer_a = puncher_from_socket (Some (SocketAddr (V4 local) port_a));
     public_b \<leftarrow> discover_at tx_b local port_b;
     let peer_b = puncher_from_socket (Some (SocketAddr (V4 local) port_b));
     a_host \<leftarrow> puncher_local_addr peer_a;
     b_host \<leftarrow> puncher_local_addr peer_b;
     let (run_a, run_b) = joined_run
           (punch_start a_host [candidate_host b_host] (ascii ''token-a''),
            punch_start b_host [candidate_host a_host] (ascii ''token-b'')) ms;
     a_rsp \<leftarrow> punched run_a;
     b_rsp \<leftarrow> punched run_b;
     assert_that (a_rsp \<noteq> None);
     assert_that (b_rsp \<noteq> None);
     (a_payload, a_from) \<leftarrow> a_rsp;
     assert_that (a_payload = ascii ''token-b'');
     assert_that (a_from = b_host);
     (b_payload, b_from) \<leftarrow> b_rsp;
     assert_that (b_payload = ascii ''token-a'');
     assert_that (b_from = a_host);
     let (sent, out) = puncher_send_to (ascii ''post-punch-a'') b_host True;
     _ \<leftarrow> sent;
     let (received, buf) = puncher_recv_from (replicate 128 0) (next_datagram (deliver a_host out run_b));
     (n, sender) \<leftarrow> received;
     assert_that (take n buf = ascii ''post-punch-a'');
     assert_that (sender = a_host) }"

lemma discover_at_value:
  assumes "length tx = 12"
  shows "discover_at tx ip port = ret (SocketAddr (V4 ip) port)"
proof -
  obtain reply where reply: "handle_binding_request (build_binding_request tx) (SocketAddr (V4 ip) port) = ret (Some reply)"
      "discover tx True (Some reply) = ret (Ok (SocketAddr (V4 ip) port))"
    using stun_server.discover_v4 [OF assms] by blast
  have "take 4 (build_binding_request tx) @ u32_be MAGIC_COOKIE @ drop 8 (build_binding_request tx) = build_binding_request tx"
    by (simp add: build_binding_request_def)
  with reply show ?thesis by (simp add: discover_at_def stun_response_server)
qed

lemma nat_flow_test:
  assumes "length tx_a = 12" and "length tx_b = 12" and "port_a \<noteq> port_b" and "in_time ms"
  shows "full_stun_candidate_punch_flow tx_a tx_b ms port_a port_b = ret ()"
proof -
  have ne: "SocketAddr (V4 (ipv4_new 127 0 0 1)) port_a \<noteq> SocketAddr (V4 (ipv4_new 127 0 0 1)) port_b"
    using assms(3) by simp
  show ?thesis
    by (rule joined_in_time [OF ne assms(4), of "ascii ''token-a''" "ascii ''token-b''"])
       (simp add: full_stun_candidate_punch_flow_def discover_at_value assms(1,2) puncher_from_socket_def
          puncher_local_addr_def pair_start_def puncher_send_to_def puncher_recv_from_def next_datagram_def
          deliver_def PUNCH_BUF_def ascii_def)
qed

section \<open>All of them\<close>

text \<open>
  C34: The model passes the integration tests of the repository, for every draw of ids, key pairs,
  transaction ids and addresses: two clients register at the relay, exchange messages in
  both directions, also encrypted ones, frames are routed and encoded back, and two peers
  discover their addresses, punch towards each other and talk, under every interleaving of the two
  punching loops in which no timer expires and each is polled again after both have been polled.
\<close>

theorem integration_tests_pass:
  assumes "aead_accepts seal" and "aead_ok seal unseal" and "a_id \<noteq> b_id"
    and "length tx_a = 12" and "length tx_b = 12" and "port_a \<noteq> port_b" and "in_time ms"
  shows "list_all (\<lambda>test. test = ret ())
    [e2e_register_discover_relay raddr a_id b_id a_addr b_addr,
     e2e_multi_peer_relay raddr a_id b_id a_addr b_addr,
     e2e_encrypted_tunnel_over_relay pub dh seal unseal sa sb raddr a_id b_id a_addr b_addr,
     e2e_relay_routing a_id b_id a_addr b_addr,
     e2e_protocol_frame_roundtrip a_id b_id,
     e2e_stun_and_relay_fallback raddr a_id b_id a_addr b_addr,
     full_stun_candidate_punch_flow tx_a tx_b ms port_a port_b]"
  unfolding list.pred_inject
  using relay_tests [OF assms(3)] encrypted_relay_test [OF assms(1-3)] routing_test [OF assms(3)] frames_test
    nat_flow_test [OF assms(4-7)] by simp

theorem integration_tests_pass_witness:
  "e2e_encrypted_tunnel_over_relay toy_pub toy_dh toy_seal toy_unseal 3 5 addr_c 1 2 addr_a addr_b = ret ()
   \<and> full_stun_candidate_punch_flow (replicate 12 0) (replicate 12 0)
       [MoveA False, MoveB False, MoveB False, MoveA False] 1 2 = ret ()"
proof -
  have accepts: "aead_accepts toy_seal" by (simp add: aead_accepts_def toy_seal_def)
  have draws: "(1 :: peer_id) \<noteq> 2" "length (replicate 12 (0 :: u8)) = 12" "(1 :: u16) \<noteq> 2" by simp_all
  from integration_tests_pass [where pub = toy_pub and dh = toy_dh and sa = 3 and sb = 5 and raddr = addr_c
      and a_addr = addr_a and b_addr = addr_b,
      OF accepts toy_aead_ok draws(1,2,2,3) in_time_example]
  show ?thesis by (simp only: list.pred_inject simp_thms)
qed

text \<open>
  A timer that expires before the peer has started leaves a token at the peer's socket, and the
  test of the NAT traversal receives it instead of the message.
\<close>

lemma nat_flow_test_late:
  assumes "length tx_a = 12" and "length tx_b = 12" and "port_a \<noteq> port_b"
  shows "full_stun_candidate_punch_flow tx_a tx_b late_peer port_a port_b = panic"
  using assms(3) assms(3) [symmetric]
  by (simp add: full_stun_candidate_punch_flow_def discover_at_value assms(1,2) puncher_from_socket_def
      puncher_local_addr_def late_peer_def punch_start_def punch_move_def punched_def deliver_def candidate_host_def
      PUNCH_BUF_def PUNCH_RETRIES_def puncher_send_to_def puncher_recv_from_def next_datagram_def
      assert_that_def ascii_def Let_def)

end
