(* ===== verification/Control_Backup.thy ===== *)
theory Control_Backup
  imports Control_Service
begin

text \<open>
  Backup and restore of the control service: \<open>backup_path\<close>, \<open>create_backup\<close> and
  \<open>restore_backup\<close> of \<open>services/control/src/db.rs\<close> and their handlers in \<open>main.rs\<close>. They copy
  whole files, so the state is a file system from paths to contents of any type; what a failing
  copy leaves in the destination is an argument, and so is the outcome of reading the size of
  the copy. The database that the service keeps open during a restore is not part of this model.
\<close>

type_synonym 'c file_system = "string \<rightharpoonup> 'c"

datatype backup_error = FileNotFound | CopyError | MetadataError

datatype 'c copy_outcome = CopyDone | CopyFails "'c option"

definition backup_path :: "string \<Rightarrow> string" where
  "backup_path path = path @ ''.backup''"

definition copy_file ::
  "'c copy_outcome \<Rightarrow> string \<Rightarrow> string \<Rightarrow> 'c file_system \<Rightarrow> bool \<times> 'c file_system" where
  "copy_file outcome src dst fs =
     (case outcome of
        CopyDone \<Rightarrow> (True, fs(dst := fs src))
      | CopyFails left_over \<Rightarrow> (False, fs(dst := left_over)))"

definition create_backup ::
  "'c copy_outcome \<Rightarrow> bool \<Rightarrow> string \<Rightarrow> 'c file_system \<Rightarrow> (backup_error + string) \<times> 'c file_system" where
  "create_backup outcome stat_ok path fs =
     (let dst = backup_path path
      in if fs path = None then (Err FileNotFound, fs)
         else (case copy_file outcome path dst fs of
                 (False, fs') \<Rightarrow> (Err CopyError, fs')
               | (True, fs') \<Rightarrow> (if stat_ok then Ok dst else Err MetadataError, fs')))"

definition restore_backup ::
  "'c copy_outcome \<Rightarrow> string \<Rightarrow> 'c file_system \<Rightarrow> (backup_error + unit) \<times> 'c file_system" where
  "restore_backup outcome path fs =
     (let src = backup_path path
      in if fs src = None then (Err FileNotFound, fs)
         else (case copy_file outcome src path fs of
                 (False, fs') \<Rightarrow> (Err CopyError, fs')
               | (True, fs') \<Rightarrow> (Ok (), fs')))"

definition handle_backup ::
  "app_state \<Rightarrow> 'c copy_outcome \<Rightarrow> bool \<Rightarrow> 'c file_system \<Rightarrow> (string \<times> bool) \<times> 'c file_system" where
  "handle_backup app outcome stat_ok fs =
     (case create_backup outcome stat_ok (db_path app) fs of
        (Ok path, fs') \<Rightarrow> ((path, True), fs')
      | (Err _, fs') \<Rightarrow> (([], False), fs'))"

definition handle_restore ::
  "app_state \<Rightarrow> 'c copy_outcome \<Rightarrow> 'c file_system \<Rightarrow> bool \<times> 'c file_system" where
  "handle_restore app outcome fs =
     (case restore_backup outcome (db_path app) fs of
        (Ok _, fs') \<Rightarrow> (True, fs')
      | (Err _, fs') \<Rightarrow> (False, fs'))"

lemma backup_path_differs [simp]: "backup_path path \<noteq> path" "path \<noteq> backup_path path"
  by (simp_all add: backup_path_def)

text \<open>
  A successful backup keeps every other file, and a later restore, whatever happened to other
  files in between, brings the database file back to the backed-up content.
\<close>

lemma backup_restore:
  assumes "create_backup outcome stat_ok path fs = (Ok dst, fs1)"
    and "fs2 (backup_path path) = fs1 (backup_path path)"
  shows "dst = backup_path path \<and> fs1 = fs(backup_path path := fs path)
     \<and> restore_backup CopyDone path fs2 = (Ok (), fs2(path := fs path))"
  using assms
  by (auto simp: create_backup_def restore_backup_def copy_file_def Let_def
      split: if_splits copy_outcome.splits)

text \<open>Without a backup a restore fails and changes nothing.\<close>

lemma restore_without_backup:
  "fs (backup_path path) = None \<Longrightarrow> restore_backup outcome path fs = (Err FileNotFound, fs)"
  by (simp add: restore_backup_def Let_def)

end
