(* ===== verification/Json.thy ===== *)
theory Json
  imports Net_Addr
begin

text \<open>
  The values that the services and their clients exchange as JSON, with what \<open>serde\<close> makes of
  them: the fields of a \<open>#[derive(Deserialize)]\<close> struct (missing, defaulted and optional ones,
  unknown ones ignored, duplicates refused, positional in an array), integers with their range,
  lists and arrays, and the accessors of \<open>serde_json::Value\<close>. The text of a value is left to
  \<open>serde_json\<close>; numbers that are not integers are kept as their text.
\<close>

datatype json =
    JNull
  | JBool bool
  | JInt int
  | JReal string
  | JStr string
  | JArr "json list"
  | JObj "(string \<times> json) list"

section \<open>Values of a type\<close>

definition as_string :: "json \<Rightarrow> string option" where
  "as_string j = (case j of JStr s \<Rightarrow> Some s | _ \<Rightarrow> None)"

definition as_bool :: "json \<Rightarrow> bool option" where
  "as_bool j = (case j of JBool b \<Rightarrow> Some b | _ \<Rightarrow> None)"

definition as_array :: "json \<Rightarrow> json list option" where
  "as_array j = (case j of JArr js \<Rightarrow> Some js | _ \<Rightarrow> None)"

definition as_int :: "int \<Rightarrow> int \<Rightarrow> json \<Rightarrow> int option" where
  "as_int low high j = (case j of JInt n \<Rightarrow> (if low \<le> n \<and> n \<le> high then Some n else None) | _ \<Rightarrow> None)"

definition as_i64 :: "json \<Rightarrow> int option" where "as_i64 = as_int i64_min i64_max"
definition as_i32 :: "json \<Rightarrow> int option" where "as_i32 = as_int (- (2 ^ 31)) (2 ^ 31 - 1)"
definition as_u64 :: "json \<Rightarrow> nat option" where "as_u64 j = map_option nat (as_int 0 (2 ^ 64 - 1) j)"
definition as_u8 :: "json \<Rightarrow> u8 option" where "as_u8 j = map_option of_int (as_int 0 255 j)"

definition as_list :: "(json \<Rightarrow> 'a option) \<Rightarrow> json \<Rightarrow> 'a list option" where
  "as_list dec j = (case j of JArr js \<Rightarrow> those (map dec js) | _ \<Rightarrow> None)"

text \<open>\<open>[u8; 32]\<close>: an array of exactly 32 bytes.\<close>

definition as_key :: "json \<Rightarrow> bytes option" where
  "as_key j = do { bs \<leftarrow> as_list as_u8 j; if length bs = 32 then Some bs else None }"

section \<open>The fields of a struct\<close>

text \<open>
  A field of the struct: its value, or that an object does not have it, or that an array ended
  before it.
\<close>

datatype slot = Given json | Missing | Short

definition slots :: "string list \<Rightarrow> json \<Rightarrow> slot list option" where
  "slots names j = (case j of
      JObj kvs \<Rightarrow>
        (if list_all (\<lambda>n. length (filter (\<lambda>kv. fst kv = n) kvs) \<le> 1) names
         then Some (map (\<lambda>n. case map_of kvs n of None \<Rightarrow> Missing | Some v \<Rightarrow> Given v) names)
         else None)
    | JArr js \<Rightarrow>
        (if length js \<le> length names
         then Some (map Given js @ replicate (length names - length js) Short)
         else None)
    | _ \<Rightarrow> None)"

definition required :: "(json \<Rightarrow> 'a option) \<Rightarrow> slot \<Rightarrow> 'a option" where
  "required dec s = (case s of Given j \<Rightarrow> dec j | _ \<Rightarrow> None)"

text \<open>\<open>#[serde(default)]\<close>.\<close>

definition defaulted :: "'a \<Rightarrow> (json \<Rightarrow> 'a option) \<Rightarrow> slot \<Rightarrow> 'a option" where
  "defaulted d dec s = (case s of Given j \<Rightarrow> dec j | _ \<Rightarrow> Some d)"

text \<open>An \<open>Option\<close> may be missing from an object, and may be null.\<close>

definition optional :: "(json \<Rightarrow> 'a option) \<Rightarrow> slot \<Rightarrow> 'a option option" where
  "optional dec s = (case s of
      Given JNull \<Rightarrow> Some None
    | Given j \<Rightarrow> map_option Some (dec j)
    | Missing \<Rightarrow> Some None
    | Short \<Rightarrow> None)"

section \<open>Accessors of a generic value\<close>

text \<open>\<open>value["key"]\<close>: null outside an object or for an absent key; of duplicate keys the last counts.\<close>

definition member :: "json \<Rightarrow> string \<Rightarrow> json" where
  "member j key = (case j of
      JObj kvs \<Rightarrow> (case map_of (rev kvs) key of None \<Rightarrow> JNull | Some v \<Rightarrow> v)
    | _ \<Rightarrow> JNull)"

section \<open>Encoders\<close>

definition json_key :: "bytes \<Rightarrow> json" where
  "json_key bs = JArr (map (\<lambda>b. JInt (uint b)) bs)"

definition json_strings :: "string list \<Rightarrow> json" where
  "json_strings ss = JArr (map JStr ss)"

definition json_option :: "('a \<Rightarrow> json) \<Rightarrow> 'a option \<Rightarrow> json" where
  "json_option enc x = (case x of None \<Rightarrow> JNull | Some y \<Rightarrow> enc y)"

section \<open>Decoding what was encoded\<close>

named_theorems json "what the decoders make of encoded values"

lemma decoded_values [json, simp]:
  "as_string (JStr s) = Some s" "as_bool (JBool b) = Some b" "as_array (JArr js) = Some js"
  "as_string JNull = None" "as_bool JNull = None" "as_array JNull = None"
  "required dec (Given j) = dec j" "defaulted d dec (Given j) = dec j" "defaulted d dec Missing = Some d"
  "required dec Missing = None"
  by (simp_all add: as_string_def as_bool_def as_array_def required_def defaulted_def)

lemma as_i64_JInt [json]: "i64_min \<le> n \<Longrightarrow> n \<le> i64_max \<Longrightarrow> as_i64 (JInt n) = Some n"
  by (simp add: as_i64_def as_int_def)

lemma as_i64_saturated [json, simp]: "as_i64 (JInt (i64_saturating_sub a b)) = Some (i64_saturating_sub a b)"
  by (rule as_i64_JInt) (auto simp: i64_saturating_sub_def i64_min_def i64_max_def)

lemma as_u64_JInt [json]: "n < 2 ^ 64 \<Longrightarrow> as_u64 (JInt (int n)) = Some n"
  by (simp add: as_u64_def as_int_def)

lemma as_u8_uint [json, simp]: "as_u8 (JInt (uint b)) = Some b"
  using uint_bounded [of b] by (simp add: as_u8_def as_int_def)

text \<open>
  An encoder with the decoder of the other side: what that side sees of a value. Lists and
  options of the values travel as well.
\<close>

locale json_codec =
  fixes enc :: "'a \<Rightarrow> json" and dec :: "json \<Rightarrow> 'b option" and seen :: "'a \<Rightarrow> 'b" and fits :: "'a \<Rightarrow> bool"
  assumes dec_enc: "fits x \<Longrightarrow> dec (enc x) = Some (seen x)"
begin

lemma dec_list: "\<forall>x\<in>set xs. fits x \<Longrightarrow> as_list dec (JArr (map enc xs)) = Some (map seen xs)"
  unfolding as_list_def json.case by (induction xs) (simp_all add: dec_enc)

lemma dec_option:
  assumes "\<forall>y. x = Some y \<longrightarrow> fits y" and "\<And>y. enc y \<noteq> JNull"
  shows "optional dec (Given (json_option enc x)) = Some (map_option seen x)"
proof (cases x)
  case None
  then show ?thesis by (simp add: optional_def json_option_def)
next
  case (Some y)
  with assms have "dec (enc y) = Some (seen y)" by (simp add: dec_enc)
  with Some assms(2) [of y] show ?thesis by (cases "enc y") (simp_all add: optional_def json_option_def)
qed

lemma seen_inj: "fits x \<Longrightarrow> fits y \<Longrightarrow> enc x = enc y \<Longrightarrow> seen x = seen y"
  using dec_enc [of x] dec_enc [of y] by simp

end

interpretation json_byte: json_codec "\<lambda>b. JInt (uint b)" as_u8 "\<lambda>b. b" "\<lambda>_. True"
  by unfold_locales simp

interpretation json_string: json_codec JStr as_string "\<lambda>s. s" "\<lambda>_. True"
  by unfold_locales simp

interpretation json_nat: json_codec "\<lambda>n. JInt (int n)" as_u64 "\<lambda>n. n" "\<lambda>n. n < 2 ^ 64"
  by unfold_locales (rule as_u64_JInt)

lemma as_key_json_key [json, simp]: "as_key (json_key bs) = (if length bs = 32 then Some bs else None)"
  using json_byte.dec_list [of bs] by (simp add: as_key_def json_key_def)

lemma as_strings [json, simp]: "as_list as_string (json_strings ss) = Some ss"
  using json_string.dec_list [of ss] by (simp add: json_strings_def)

text \<open>What a decoder accepts as a key has 32 bytes, whoever sent it.\<close>

lemma as_key_length: "as_key j = Some bs \<Longrightarrow> length bs = 32"
  by (auto simp: as_key_def bind_eq_Some_conv split: if_splits)

text \<open>
  The fields of an object in the order of its encoder, and of an object that lacks some: each
  name that occurs once gets its value.
\<close>

lemma slots_object [json]:
  "distinct (map fst kvs) \<Longrightarrow> slots names (JObj kvs) =
     Some (map (\<lambda>n. case map_of kvs n of None \<Rightarrow> Missing | Some v \<Rightarrow> Given v) names)"
proof -
  assume d: "distinct (map fst kvs)"
  then have "length (filter (\<lambda>kv. fst kv = n) kvs) \<le> 1" for n
  proof (induction kvs)
    case (Cons kv kvs)
    have "filter (\<lambda>kv. fst kv = n) kvs = []" if "fst kv = n"
      using Cons.prems that by (auto simp: filter_empty_conv image_iff)
    with Cons show ?case by (cases "fst kv = n") simp_all
  qed simp
  then show ?thesis by (simp add: slots_def list_all_iff)
qed

lemma slots_other [json, simp]:
  "slots names JNull = None" "slots names (JBool b) = None" "slots names (JStr s) = None" "slots names (JInt n) = None"
  by (simp_all add: slots_def)

lemma map_of_rev_keys: "distinct (map fst kvs) \<Longrightarrow> map_of (rev kvs) = map_of kvs"
proof (induction kvs)
  case (Cons kv kvs)
  then have "fst kv \<notin> dom (map_of kvs)" by (simp add: dom_map_of_conv_image_fst)
  with Cons show ?case by (cases kv) (auto simp: map_add_def fun_eq_iff dom_def split: option.split)
qed simp

lemma member_object [json, simp]:
  "distinct (map fst kvs) \<Longrightarrow> member (JObj kvs) key = (case map_of kvs key of None \<Rightarrow> JNull | Some v \<Rightarrow> v)"
  by (simp add: member_def map_of_rev_keys)

end
