(* ===== verification/Control_Http.thy ===== *)
theory Control_Http
  imports Json Control_Backup
begin

text \<open>
  The HTTP side of the control service (\<open>services/control/src/main.rs\<close>): the bodies of its
  requests and replies as JSON, with the names of the source's structs and \<open>json!\<close> literals, the
  router with its paths and methods, and what becomes of a request that no handler accepts. The
  text of a UUID belongs to the \<open>uuid\<close> crate: \<open>show_id\<close> prints it and \<open>parse_id\<close> reads it. A path is
  the text between slashes, without percent escapes; the size limit of a body is left out.
\<close>

section \<open>Messages\<close>

datatype http_method = GET | POST | PUT | DELETE

text \<open>
  A body: none, text not declared as JSON, text declared as JSON that is none, or a JSON value.
\<close>

datatype body = Empty | Plain | Malformed | Content json

record http_request =
  hq_method :: http_method
  hq_path :: string
  hq_body :: body

type_synonym http_response = "nat \<times> body"

primrec status_number :: "http_status \<Rightarrow> nat" where
  "status_number Ok200 = 200"
| "status_number NotFound404 = 404"
| "status_number Conflict409 = 409"
| "status_number Unprocessable422 = 422"
| "status_number Internal500 = 500"

text \<open>What the code relies on of the text of a UUID.\<close>

definition uuid_text_ok :: "(uuid \<Rightarrow> string) \<Rightarrow> (string \<Rightarrow> uuid option) \<Rightarrow> bool" where
  "uuid_text_ok show_id parse_id \<longleftrightarrow>
     (\<forall>i. parse_id (show_id i) = Some i \<and> show_id i \<noteq> [] \<and> show_id i \<noteq> ''pending'' \<and> CHR ''/'' \<notin> set (show_id i))"

text \<open>Decimal numbers are such texts; the examples use them.\<close>

definition decimal_id :: "uuid \<Rightarrow> string" where "decimal_id i = show_nat (unat i)"

definition parse_decimal_id :: "string \<Rightarrow> uuid option" where
  "parse_decimal_id s = (if s \<noteq> [] \<and> list_all is_digit s then Some (of_nat (dec_val s)) else None)"

lemma decimal_ids: "uuid_text_ok decimal_id parse_decimal_id"
proof -
  have "CHR ''p'' \<notin> set (show_nat n)" "CHR ''/'' \<notin> set (show_nat n)" for n
    by (rule not_digit_show_nat; simp add: is_digit_def)+
  then have "show_nat n \<noteq> ''pending''" "CHR ''/'' \<notin> set (show_nat n)" for n by (metis list.set_intros(1))+
  then show ?thesis
    by (simp add: uuid_text_ok_def decimal_id_def parse_decimal_id_def show_nat_digits)
qed

definition as_id :: "(string \<Rightarrow> uuid option) \<Rightarrow> json \<Rightarrow> uuid option" where
  "as_id parse_id j = Option.bind (as_string j) parse_id"

section \<open>Bodies of requests\<close>

definition register_request_of :: "json \<Rightarrow> (bytes \<times> string) option" where
  "register_request_of j = do {
     ss \<leftarrow> slots [''public_key'', ''hostname''] j;
     case ss of
       [key, host] \<Rightarrow> do { k \<leftarrow> required as_key key; h \<leftarrow> required as_string host; Some (k, h) }
     | _ \<Rightarrow> None }"

definition heartbeat_request_of :: "(string \<Rightarrow> uuid option) \<Rightarrow> json \<Rightarrow> uuid option" where
  "heartbeat_request_of parse_id j = do {
     ss \<leftarrow> slots [''device_id''] j;
     case ss of [i] \<Rightarrow> required (as_id parse_id) i | _ \<Rightarrow> None }"

definition candidate_publish_request_of :: "(string \<Rightarrow> uuid option) \<Rightarrow> json \<Rightarrow> (uuid \<times> string list) option" where
  "candidate_publish_request_of parse_id j = do {
     ss \<leftarrow> slots [''device_id'', ''candidates''] j;
     case ss of
       [i, cs] \<Rightarrow> do { d \<leftarrow> required (as_id parse_id) i; l \<leftarrow> required (as_list as_string) cs; Some (d, l) }
     | _ \<Rightarrow> None }"

definition acl_rule_row_of :: "json \<Rightarrow> acl_row option" where
  "acl_rule_row_of j = do {
     ss \<leftarrow> slots [''id'', ''priority'', ''action'', ''src_ip'', ''dst_ip'', ''protocol'', ''src_port'', ''dst_port''] j;
     case ss of
       [i, p, a, s, d, t, sp, dp] \<Rightarrow> do {
         i' \<leftarrow> required as_i64 i; p' \<leftarrow> required as_i32 p; a' \<leftarrow> required as_string a; s' \<leftarrow> required as_string s;
         d' \<leftarrow> required as_string d; t' \<leftarrow> required as_string t; sp' \<leftarrow> required as_i32 sp; dp' \<leftarrow> required as_i32 dp;
         Some \<lparr>acl_id = i', acl_priority = p', acl_action = a', acl_src_ip = s', acl_dst_ip = d',
               acl_protocol = t', acl_src_port = sp', acl_dst_port = dp'\<rparr> }
     | _ \<Rightarrow> None }"

section \<open>Bodies of replies\<close>

definition register_response_json :: "(uuid \<Rightarrow> string) \<Rightarrow> register_response \<Rightarrow> json" where
  "register_response_json show_id r = JObj
     [(''device_id'', JStr (show_id (reg_device_id r))), (''ipv4'', JStr (reg_ipv4 r)),
      (''network'', JStr (reg_network r)), (''status'', JStr (reg_status r))]"

definition peer_info_json :: "(uuid \<Rightarrow> string) \<Rightarrow> peer_info \<Rightarrow> json" where
  "peer_info_json show_id p = JObj
     [(''device_id'', JStr (show_id (pi_device_id p))), (''ipv4'', JStr (pi_ipv4 p)),
      (''public_key'', json_key (pi_public_key p)), (''hostname'', JStr (pi_hostname p)),
      (''last_seen_secs'', JInt (pi_last_seen_secs p))]"

definition peers_response_json :: "(uuid \<Rightarrow> string) \<Rightarrow> peer_info list \<Rightarrow> json" where
  "peers_response_json show_id ps = JObj [(''peers'', JArr (map (peer_info_json show_id) ps))]"

definition admin_peer_info_json :: "(uuid \<Rightarrow> string) \<Rightarrow> admin_peer_info \<Rightarrow> json" where
  "admin_peer_info_json show_id p = JObj
     [(''device_id'', JStr (show_id (ap_device_id p))), (''ipv4'', JStr (ap_ipv4 p)),
      (''hostname'', JStr (ap_hostname p)), (''status'', JStr (ap_status p)),
      (''last_seen_secs'', JInt (ap_last_seen_secs p))]"

definition admin_peers_json :: "(uuid \<Rightarrow> string) \<Rightarrow> admin_peer_info list \<Rightarrow> json" where
  "admin_peers_json show_id ps = JObj [(''peers'', JArr (map (admin_peer_info_json show_id) ps))]"

definition pending_info_json :: "(uuid \<Rightarrow> string) \<Rightarrow> pending_info \<Rightarrow> json" where
  "pending_info_json show_id p = JObj
     [(''device_id'', JStr (show_id (pe_device_id p))), (''hostname'', JStr (pe_hostname p)),
      (''ipv4'', JStr (pe_ipv4 p)), (''created_at'', JInt (pe_created_at p))]"

definition pending_json :: "(uuid \<Rightarrow> string) \<Rightarrow> pending_info list \<Rightarrow> json" where
  "pending_json show_id ps = JObj [(''pending'', JArr (map (pending_info_json show_id) ps))]"

definition health_json :: "string \<Rightarrow> json" where
  "health_json st = JObj [(''status'', JStr st)]"

definition heartbeat_json :: "bool \<Rightarrow> json" where
  "heartbeat_json ok = JObj [(''ok'', JBool ok)]"

definition delete_json :: "bool \<Rightarrow> json" where
  "delete_json deleted = JObj [(''deleted'', JBool deleted)]"

definition allocation_json :: "int \<Rightarrow> int \<Rightarrow> int \<Rightarrow> string \<Rightarrow> json" where
  "allocation_json whole used free network = JObj
     [(''total'', JInt whole), (''used'', JInt used), (''free'', JInt free), (''network'', JStr network)]"

definition candidate_list_json :: "(uuid \<Rightarrow> string) \<Rightarrow> uuid \<Rightarrow> string list \<Rightarrow> json" where
  "candidate_list_json show_id i cs = JObj [(''device_id'', JStr (show_id i)), (''candidates'', json_strings cs)]"

definition approval_json :: "(uuid \<Rightarrow> string) \<Rightarrow> bool \<Rightarrow> uuid \<Rightarrow> json" where
  "approval_json show_id ok i = JObj [(''approved'', JBool ok), (''device_id'', JStr (show_id i))]"

definition revoke_json :: "(uuid \<Rightarrow> string) \<Rightarrow> bool \<Rightarrow> uuid \<Rightarrow> json" where
  "revoke_json show_id ok i = JObj [(''revoked'', JBool ok), (''device_id'', JStr (show_id i))]"

definition backup_json :: "string \<Rightarrow> bool \<Rightarrow> json" where
  "backup_json path ok = JObj [(''path'', JStr path), (''success'', JBool ok)]"

definition restore_json :: "bool \<Rightarrow> json" where
  "restore_json ok = JObj [(''success'', JBool ok)]"

definition dns_records_json :: "(string \<times> string) list \<Rightarrow> json" where
  "dns_records_json rs = JObj [(''records'',
     JArr (map (\<lambda>(host, ip). JObj [(''hostname'', JStr host), (''ipv4'', JStr ip)]) rs))]"

definition acl_rule_json :: "acl_row \<Rightarrow> json" where
  "acl_rule_json r = JObj
     [(''id'', JInt (acl_id r)), (''priority'', JInt (acl_priority r)), (''action'', JStr (acl_action r)),
      (''src_ip'', JStr (acl_src_ip r)), (''dst_ip'', JStr (acl_dst_ip r)), (''protocol'', JStr (acl_protocol r)),
      (''src_port'', JInt (acl_src_port r)), (''dst_port'', JInt (acl_dst_port r))]"

definition acl_rules_json :: "acl_row list \<Rightarrow> json" where
  "acl_rules_json rs = JObj [(''rules'', JArr (map acl_rule_json rs))]"

section \<open>The router\<close>

datatype endpoint =
    AtRegister
  | AtUnregister string
  | AtApprove string
  | AtRevoke string
  | AtPending
  | AtPeers
  | AtAdminPeers
  | AtHeartbeat
  | AtHealth
  | AtAllocations
  | AtPublishCandidates
  | AtGetCandidates string
  | AtBackup
  | AtRestore
  | AtDns
  | AtListAcl
  | AtUpsertAcl
  | AtDeleteAcl string

text \<open>
  The methods of a path below \<open>/api/v1\<close>. A literal segment goes before a parameter, whatever the
  method, and a parameter is not empty.
\<close>

definition methods_at :: "string list \<Rightarrow> (http_method \<times> endpoint) list" where
  "methods_at segs = (case segs of
      [a] \<Rightarrow>
        (if a = ''register'' then [(POST, AtRegister)]
         else if a = ''peers'' then [(GET, AtPeers)]
         else if a = ''heartbeat'' then [(POST, AtHeartbeat)]
         else if a = ''health'' then [(GET, AtHealth)]
         else if a = ''allocations'' then [(GET, AtAllocations)]
         else if a = ''candidates'' then [(POST, AtPublishCandidates)]
         else if a = ''backup'' then [(POST, AtBackup)]
         else if a = ''restore'' then [(POST, AtRestore)]
         else if a = ''dns'' then [(GET, AtDns)]
         else if a = ''acl'' then [(GET, AtListAcl), (POST, AtUpsertAcl)]
         else [])
    | [a, b] \<Rightarrow>
        (if a = ''admin'' \<and> b = ''peers'' then [(GET, AtAdminPeers)]
         else if b = [] then []
         else if a = ''register'' then (if b = ''pending'' then [(GET, AtPending)] else [(DELETE, AtUnregister b)])
         else if a = ''candidates'' then [(GET, AtGetCandidates b)]
         else if a = ''acl'' then [(DELETE, AtDeleteAcl b)]
         else [])
    | [a, b, c] \<Rightarrow>
        (if a = ''register'' \<and> b \<noteq> [] \<and> c = ''approve'' then [(PUT, AtApprove b)]
         else if a = ''register'' \<and> b \<noteq> [] \<and> c = ''revoke'' then [(PUT, AtRevoke b)]
         else [])
    | _ \<Rightarrow> [])"

datatype 'e routed = Found 'e | WrongMethod | NotRouted

definition route :: "http_method \<Rightarrow> string \<Rightarrow> endpoint routed" where
  "route m path =
     (let ms = (case split_on (CHR ''/'') path of
                  s0 # s1 # s2 # segs \<Rightarrow> (if s0 = [] \<and> s1 = ''api'' \<and> s2 = ''v1'' then methods_at segs else [])
                | _ \<Rightarrow> [])
      in if ms = [] then NotRouted else (case map_of ms m of None \<Rightarrow> WrongMethod | Some e \<Rightarrow> Found e))"

section \<open>From a request to a handler\<close>

text \<open>\<open>i64::from_str\<close>: an optional sign and digits.\<close>

definition parse_i64 :: "string \<Rightarrow> int option" where
  "parse_i64 s =
     (let neg = (take 1 s = ''-''); t = (if take 1 s = ''-'' \<or> take 1 s = ''+'' then tl s else s);
          n = (if neg then - int (dec_val t) else int (dec_val t))
      in if t \<noteq> [] \<and> list_all is_digit t \<and> i64_min \<le> n \<and> n \<le> i64_max then Some n else None)"

datatype action = Serve request | RunBackup | RunRestore | Reject http_response

text \<open>A path parameter that does not parse, and the JSON extractor with its rejections.\<close>

definition with_param :: "'a option \<Rightarrow> ('a \<Rightarrow> action) \<Rightarrow> action" where
  "with_param x f = (case x of None \<Rightarrow> Reject (400, Plain) | Some y \<Rightarrow> f y)"

definition with_json :: "(json \<Rightarrow> 'a option) \<Rightarrow> body \<Rightarrow> ('a \<Rightarrow> action) \<Rightarrow> action" where
  "with_json dec b f = (case b of
      Content j \<Rightarrow> (case dec j of None \<Rightarrow> Reject (422, Plain) | Some x \<Rightarrow> f x)
    | Malformed \<Rightarrow> Reject (400, Plain)
    | _ \<Rightarrow> Reject (415, Plain))"

text \<open>\<open>new_v4\<close> is the identifier a new registration would get.\<close>

definition call :: "(string \<Rightarrow> uuid option) \<Rightarrow> uuid \<Rightarrow> body \<Rightarrow> endpoint \<Rightarrow> action" where
  "call parse_id new_v4 b e = (case e of
      AtRegister \<Rightarrow> with_json register_request_of b (\<lambda>(k, h). Serve (RegisterReq new_v4 k h))
    | AtUnregister t \<Rightarrow> with_param (parse_id t) (Serve \<circ> UnregisterReq)
    | AtApprove t \<Rightarrow> with_param (parse_id t) (Serve \<circ> ApproveReq)
    | AtRevoke t \<Rightarrow> with_param (parse_id t) (Serve \<circ> RevokeReq)
    | AtPending \<Rightarrow> Serve PendingReq
    | AtPeers \<Rightarrow> Serve PeersReq
    | AtAdminPeers \<Rightarrow> Serve AdminPeersReq
    | AtHeartbeat \<Rightarrow> with_json (heartbeat_request_of parse_id) b (Serve \<circ> HeartbeatReq)
    | AtHealth \<Rightarrow> Serve HealthReq
    | AtAllocations \<Rightarrow> Serve AllocationsReq
    | AtPublishCandidates \<Rightarrow>
        with_json (candidate_publish_request_of parse_id) b (\<lambda>(i, cs). Serve (PublishCandidatesReq i cs))
    | AtGetCandidates t \<Rightarrow> with_param (parse_id t) (Serve \<circ> GetCandidatesReq)
    | AtBackup \<Rightarrow> RunBackup
    | AtRestore \<Rightarrow> RunRestore
    | AtDns \<Rightarrow> Serve DnsReq
    | AtListAcl \<Rightarrow> Serve ListAclReq
    | AtUpsertAcl \<Rightarrow> with_json acl_rule_row_of b (Serve \<circ> UpsertAclReq)
    | AtDeleteAcl t \<Rightarrow> with_param (parse_i64 t) (Serve \<circ> DeleteAclReq))"

definition dispatch :: "(string \<Rightarrow> uuid option) \<Rightarrow> uuid \<Rightarrow> http_request \<Rightarrow> action" where
  "dispatch parse_id new_v4 hq = (case route (hq_method hq) (hq_path hq) of
      NotRouted \<Rightarrow> Reject (404, Empty)
    | WrongMethod \<Rightarrow> Reject (405, Empty)
    | Found e \<Rightarrow> call parse_id new_v4 (hq_body hq) e)"

section \<open>From a reply to the client\<close>

text \<open>A handler that panics closes the connection without a reply.\<close>

definition encode_reply :: "(uuid \<Rightarrow> string) \<Rightarrow> response \<Rightarrow> http_response option" where
  "encode_reply show_id r = (case r of
      RegisterR x \<Rightarrow> Some (200, Content (register_response_json show_id x))
    | DeleteR b \<Rightarrow> Some (200, Content (delete_json b))
    | ApprovalR b i \<Rightarrow> Some (200, Content (approval_json show_id b i))
    | RevokeR b i \<Rightarrow> Some (200, Content (revoke_json show_id b i))
    | PendingR ps \<Rightarrow> Some (200, Content (pending_json show_id ps))
    | PeersR ps \<Rightarrow> Some (200, Content (peers_response_json show_id ps))
    | AdminPeersR ps \<Rightarrow> Some (200, Content (admin_peers_json show_id ps))
    | HeartbeatR b \<Rightarrow> Some (200, Content (heartbeat_json b))
    | HealthR st \<Rightarrow> Some (200, Content (health_json st))
    | AllocationR t u f n \<Rightarrow> Some (200, Content (allocation_json t u f n))
    | CandidatesR i cs \<Rightarrow> Some (200, Content (candidate_list_json show_id i cs))
    | DnsR rs \<Rightarrow> Some (200, Content (dns_records_json rs))
    | AclR rs \<Rightarrow> Some (200, Content (acl_rules_json rs))
    | StatusR st \<Rightarrow> Some (status_number st, Empty)
    | PanicR \<Rightarrow> None
    | NoReply \<Rightarrow> None)"

text \<open>
  The whole service: its store, and the file system for backup and restore, whose copies may
  fail (\<open>copied\<close>, \<open>stat_ok\<close>).
\<close>

record 'c server =
  sv_env :: env
  sv_files :: "'c file_system"

definition respond ::
  "(uuid \<Rightarrow> string) \<Rightarrow> (string \<Rightarrow> uuid option) \<Rightarrow> app_state \<Rightarrow> uuid \<Rightarrow> 'c copy_outcome \<times> bool \<Rightarrow> http_request
     \<Rightarrow> 'c server \<Rightarrow> http_response option \<times> 'c server" where
  "respond show_id parse_id app new_v4 luck hq sv = (case dispatch parse_id new_v4 hq of
      Reject resp \<Rightarrow> (Some resp, sv)
    | Serve req \<Rightarrow>
        (case run_state (serve app req) (sv_env sv) of
           (r, s) \<Rightarrow> (encode_reply show_id r, sv\<lparr>sv_env := s\<rparr>))
    | RunBackup \<Rightarrow>
        (case handle_backup app (fst luck) (snd luck) (sv_files sv) of
           ((path, ok), fs) \<Rightarrow> (Some (200, Content (backup_json path ok)), sv\<lparr>sv_files := fs\<rparr>))
    | RunRestore \<Rightarrow>
        (case handle_restore app (fst luck) (sv_files sv) of
           (ok, fs) \<Rightarrow> (Some (200, Content (restore_json ok)), sv\<lparr>sv_files := fs\<rparr>)))"

section \<open>Paths of the service\<close>

text \<open>A path below \<open>/api/v1\<close> from its segments.\<close>

definition api_path :: "string list \<Rightarrow> string" where
  "api_path segs = ''/api/v1'' @ concat (map (\<lambda>s. CHR ''/'' # s) segs)"

lemma split_segments:
  "c \<notin> set s \<Longrightarrow> \<forall>t\<in>set segs. c \<notin> set t \<Longrightarrow> split_on c (s @ concat (map (\<lambda>t. c # t) segs)) = s # segs"
  by (induction segs arbitrary: s) (simp_all add: split_on_no_sep split_on_append)

lemma route_api_path:
  assumes "\<forall>t\<in>set segs. CHR ''/'' \<notin> set t"
  shows "route m (api_path segs) =
     (if methods_at segs = [] then NotRouted
      else (case map_of (methods_at segs) m of None \<Rightarrow> WrongMethod | Some e \<Rightarrow> Found e))"
proof -
  have "api_path segs = [] @ concat (map (\<lambda>t. CHR ''/'' # t) (''api'' # ''v1'' # segs))" by (simp add: api_path_def)
  then have "split_on (CHR ''/'') (api_path segs) = [] # ''api'' # ''v1'' # segs"
    by (simp only:) (rule split_segments; use assms in simp)
  then show ?thesis by (simp add: route_def)
qed

text \<open>The paths the clients write out.\<close>

lemma api_paths:
  "''/api/v1/register'' = api_path [''register'']" "''/api/v1/peers'' = api_path [''peers'']"
  "''/api/v1/candidates'' = api_path [''candidates'']" "''/api/v1/heartbeat'' = api_path [''heartbeat'']"
  "''/api/v1/register/pending'' = api_path [''register'', ''pending'']"
  "''/api/v1/admin/peers'' = api_path [''admin'', ''peers'']" "''/api/v1/backup'' = api_path [''backup'']"
  "''/api/v1/restore'' = api_path [''restore'']" "''/api/v1/health'' = api_path [''health'']"
  "''/api/v1/candidates/'' @ t = api_path [''candidates'', t]"
  "''/api/v1/register/'' @ t @ ''/approve'' = api_path [''register'', t, ''approve'']"
  "''/api/v1/register/'' @ t @ ''/revoke'' = api_path [''register'', t, ''revoke'']"
  by (simp_all add: api_path_def)

end
