(* ===== verification/Control_Main.thy ===== *)
theory Control_Main
  imports Control_Http
begin

text \<open>
  \<open>main\<close> of \<open>services/control/src/main.rs\<close>: the command line, the start of the service, and what
  the configured network means for the addresses it hands out. The texts of the command line
  are taken as parsed by type; opening the database and binding the listener may fail.
\<close>

section \<open>Starting the service\<close>

record control_args =
  ca_listen :: socket_addr
  ca_db_path :: string
  ca_network :: string
  ca_stale_timeout :: int

text \<open>The \<open>default_value\<close>s of the arguments.\<close>

definition control_default_args :: control_args where
  "control_default_args =
     \<lparr>ca_listen = SocketAddr (V4 ipv4_unspecified) 3000, ca_db_path = ''connectalso.db'',
      ca_network = ''100.64.0.0/16'', ca_stale_timeout = 300\<rparr>"

definition app_of :: "control_args \<Rightarrow> u32 \<times> u32 \<Rightarrow> app_state" where
  "app_of args pool =
     \<lparr>db_path = ca_db_path args, ip_base = fst pool, ip_max_offset = snd pool,
      network_cidr = ca_network args, stale_timeout = ca_stale_timeout args\<rparr>"

datatype control_error = BadNetwork cidr_error | DatabaseFailed | ListenFailed

text \<open>
  \<open>opened\<close> is the store in the database file, which \<open>init_db\<close> creates empty if it is not there
  and leaves as it is otherwise, or \<open>None\<close> if it cannot be opened.
\<close>

definition control_start ::
  "bool \<Rightarrow> control_args \<Rightarrow> db option \<Rightarrow> bool \<Rightarrow> (control_error + app_state \<times> db) panics" where
  "control_start checks args opened bound = do {
     r \<leftarrow> parse_cidr checks (ca_network args);
     case r of
       Err e \<Rightarrow> ret (Err (BadNetwork e))
     | Ok pool \<Rightarrow>
         (case opened of
            None \<Rightarrow> ret (Err DatabaseFailed)
          | Some d \<Rightarrow>
              (if bound then ret (Ok (app_of args pool, d)) else ret (Err ListenFailed))) }"

lemma control_start_ok:
  "control_start checks args (Some d0) True = ret (Ok (app, d)) \<longleftrightarrow>
     (\<exists>pool. parse_cidr checks (ca_network args) = ret (Ok pool) \<and> app = app_of args pool \<and> d = d0)"
proof (cases "parse_cidr checks (ca_network args)")
  case (Some r)
  then show ?thesis by (cases r) (auto simp: control_start_def)
qed (simp add: control_start_def)

section \<open>Properties of the store kept by programs\<close>

text \<open>
  \<open>keeps J Q m\<close>: run on a store with \<open>J\<close>, whatever fails, the program leaves a store with \<open>J\<close> and
  its result has \<open>Q\<close>.
\<close>

definition keeps :: "(db \<Rightarrow> bool) \<Rightarrow> ('a \<Rightarrow> bool) \<Rightarrow> 'a sql \<Rightarrow> bool" where
  "keeps J Q m \<longleftrightarrow> (\<forall>s. J (tables s) \<longrightarrow> J (tables (snd (run_state m s))) \<and> Q (fst (run_state m s)))"

abbreviation keeps_store :: "(db \<Rightarrow> bool) \<Rightarrow> 'a sql \<Rightarrow> bool" where
  "keeps_store J \<equiv> keeps J (\<lambda>_. True)"

named_theorems keeps_intros "programs that keep a property of the store"

lemma keeps_return: "Q x \<Longrightarrow> keeps J Q (sret x)"
  by (simp add: keeps_def)

lemma keeps_return_store [keeps_intros]: "keeps_store J (sret x)"
  by (rule keeps_return) simp

lemma keeps_bind:
  assumes "keeps J R m" and "\<And>x. R x \<Longrightarrow> keeps J Q (f x)"
  shows "keeps J Q (m \<bind> f)"
  using assms unfolding keeps_def by (auto split: prod.split)

lemma keeps_bind_store [keeps_intros]:
  "keeps_store J m \<Longrightarrow> (\<And>x. keeps J Q (f x)) \<Longrightarrow> keeps J Q (m \<bind> f)"
  by (rule keeps_bind) auto

lemma keeps_query [keeps_intros]: "keeps_store J (query q)"
  by (simp add: keeps_def query_def)

lemma keeps_unix_now [keeps_intros]: "keeps_store J unix_now"
  by (simp add: keeps_def unix_now_def)

lemma keeps_sum [keeps_intros]:
  "(\<And>e. keeps J Q (f e)) \<Longrightarrow> (\<And>x. keeps J Q (g x)) \<Longrightarrow> keeps J Q (case r of Err e \<Rightarrow> f e | Ok x \<Rightarrow> g x)"
  by (cases r) auto

lemma keeps_option [keeps_intros]:
  "keeps J Q f \<Longrightarrow> (\<And>x. keeps J Q (g x)) \<Longrightarrow> keeps J Q (case r of None \<Rightarrow> f | Some x \<Rightarrow> g x)"
  by (cases r) auto

lemma keeps_prod [keeps_intros]: "(\<And>a b. keeps J Q (f a b)) \<Longrightarrow> keeps J Q (case p of (a, b) \<Rightarrow> f a b)"
  by (cases p) simp

lemma keeps_if [keeps_intros]: "keeps J Q f \<Longrightarrow> keeps J Q g \<Longrightarrow> keeps J Q (if b then f else g)"
  by simp

lemma keeps_Let [keeps_intros]: "keeps J Q (f x) \<Longrightarrow> keeps J Q (Let x f)"
  by simp

text \<open>
  A property of the store kept by the statements of some kind. The operations other than
  allocation and insertion only issue statements that insert neither devices nor pool rows.
\<close>

definition inserts_none :: "statement \<Rightarrow> bool" where
  "inserts_none st \<longleftrightarrow> (case st of InsertDevice _ \<Rightarrow> False | InsertIp _ \<Rightarrow> False | _ \<Rightarrow> True)"

locale store_rule =
  fixes J :: "db \<Rightarrow> bool" and fine :: "statement \<Rightarrow> bool"
  assumes statement: "J d \<Longrightarrow> fine st \<Longrightarrow> J (snd (exec_stmt st d))"
    and others_fine: "inserts_none st \<Longrightarrow> fine st"
begin

lemma keeps_execute: "fine st \<Longrightarrow> keeps_store J (execute st)"
  using statement by (auto simp: keeps_def execute_def split: prod.split) (metis snd_conv)

lemma keeps_execute_other [keeps_intros]: "inserts_none st \<Longrightarrow> keeps_store J (execute st)"
  by (rule keeps_execute) (rule others_fine)

lemma keeps_operations [keeps_intros]:
  "keeps_store J (find_by_public_key pk)" "keeps_store J (heartbeat i)" "keeps_store J list_approved"
  "keeps_store J list_all_devices" "keeps_store J list_pending" "keeps_store J (approve_device i)"
  "keeps_store J (revoke_device i)" "keeps_store J (delete_device i)" "keeps_store J (purge_stale t)"
  "keeps_store J allocated_count" "keeps_store J pool_size" "keeps_store J (upsert_candidate i a)"
  "keeps_store J (get_candidates i)" "keeps_store J list_acl_rules" "keeps_store J (upsert_acl_rule rule)"
  "keeps_store J (delete_acl_rule n)" "keeps_store J list_dns_records" "keeps_store J count_devices"
  unfolding find_by_public_key_def heartbeat_def list_approved_def list_all_devices_def
    list_pending_def approve_device_def revoke_device_def delete_device_def
    purge_stale_def allocated_count_def pool_size_def upsert_candidate_def get_candidates_def
    list_acl_rules_def upsert_acl_rule_def delete_acl_rule_def list_dns_records_def count_devices_def
  by (intro keeps_intros keeps_execute_other; simp add: inserts_none_def)+

lemma keeps_publish: "keeps_store J (handle_publish_candidates i addrs)"
  by (induction addrs) (auto intro!: keeps_intros)

lemma keeps_other_handlers [keeps_intros]:
  "keeps_store J handle_peers" "keeps_store J handle_admin_peers" "keeps_store J handle_pending"
  "keeps_store J (handle_heartbeat i)" "keeps_store J (handle_unregister i)" "keeps_store J (handle_approve i)"
  "keeps_store J (handle_revoke i)" "keeps_store J (handle_allocations app)" "keeps_store J (handle_get_candidates i)"
  "keeps_store J handle_dns_records" "keeps_store J handle_list_acl" "keeps_store J (handle_upsert_acl rule)"
  "keeps_store J (handle_delete_acl n)"
  unfolding handle_peers_def handle_admin_peers_def handle_pending_def handle_heartbeat_def
    handle_unregister_def handle_approve_def handle_revoke_def handle_allocations_def
    handle_get_candidates_def handle_dns_records_def handle_list_acl_def handle_upsert_acl_def
    handle_delete_acl_def
  by (intro keeps_intros keeps_operations)+

lemma keeps_register:
  assumes alloc: "keeps J (\<lambda>r. \<forall>ip. r = Some ip \<longrightarrow> P ip) (allocate_ip (ip_base app) (ip_max_offset app))"
    and insert: "\<And>rec. P (dev_ipv4 rec) \<Longrightarrow> fine (InsertDevice rec)"
  shows "keeps_store J (handle_register app i pk host)"
proof -
  have row: "keeps_store J (insert_device rec)" if "P (dev_ipv4 rec)" for rec
    unfolding insert_device_def by (rule keeps_execute) (rule insert [OF that])
  have first: "keeps_store J is_first_device"
    unfolding is_first_device_def by (intro keeps_intros keeps_operations)
  have granted: "keeps_store J (case allocated of None \<Rightarrow> f | Some ip \<Rightarrow> g ip)"
    if "\<forall>ip. allocated = Some ip \<longrightarrow> P ip" "keeps_store J f" "\<And>ip. P ip \<Longrightarrow> keeps_store J (g ip)"
    for allocated :: "ipv4 option" and f g
    using that by (cases allocated) auto
  show ?thesis
    unfolding handle_register_def
    by (rule keeps_bind_store, rule keeps_operations, rule keeps_option, rule keeps_return_store,
        rule keeps_option, rule keeps_bind_store, rule keeps_unix_now, rule keeps_bind [OF alloc],
        erule granted; (intro keeps_intros first row)?) simp_all
qed

lemma keeps_serve:
  assumes "\<And>i pk host. length pk = 32 \<Longrightarrow> keeps_store J (handle_register app i pk host)"
  shows "keeps_store J (serve app req)"
  using assms by (cases req) (auto intro!: keeps_intros keeps_operations keeps_other_handlers keeps_publish)

lemma keeps_serve_all:
  assumes "\<And>i pk host. length pk = 32 \<Longrightarrow> keeps_store J (handle_register app i pk host)"
  shows "keeps_store J (serve_all app reqs)"
  by (induction reqs) (auto intro!: keeps_intros keeps_serve assms simp del: serve.simps)

end

section \<open>Addresses stay in the network\<close>

text \<open>The dotted text of one of the addresses from the base to the largest offset.\<close>

definition pool_text :: "app_state \<Rightarrow> string \<Rightarrow> bool" where
  "pool_text app t \<longleftrightarrow> (\<exists>k \<le> ip_max_offset app. t = show_ipv4 (ip_base app + k))"

definition in_network :: "app_state \<Rightarrow> db \<Rightarrow> bool" where
  "in_network app d \<longleftrightarrow>
     (\<forall>p\<in>set (ip_pool d). pool_text app (ip_text p))
     \<and> (\<forall>r\<in>set (devices d). row_ipv4 r = [] \<or> pool_text app (row_ipv4 r))"

definition inserts_in_network :: "app_state \<Rightarrow> statement \<Rightarrow> bool" where
  "inserts_in_network app st \<longleftrightarrow> (case st of
      InsertDevice rec \<Rightarrow> pool_text app (show_ipv4 (dev_ipv4 rec))
    | InsertIp t \<Rightarrow> pool_text app t
    | _ \<Rightarrow> True)"

lemma in_network_devices:
  "in_network app d \<Longrightarrow> \<forall>r\<in>set rs. row_ipv4 r = [] \<or> pool_text app (row_ipv4 r)
     \<Longrightarrow> in_network app (snd (commit_devices rs n d))"
  by (simp add: commit_devices_def in_network_def)

interpretation network_store: store_rule "in_network app" "inserts_in_network app"
proof
  fix d st
  assume J: "in_network app d" and st: "inserts_in_network app st"
  have rows: "\<forall>r\<in>set (devices d). row_ipv4 r = [] \<or> pool_text app (row_ipv4 r)"
    using J by (simp add: in_network_def)
  note kept = in_network_devices [OF J]
  have updated: "\<forall>r\<in>set (update_where P f (devices d)). row_ipv4 r = [] \<or> pool_text app (row_ipv4 r)"
    if "\<And>r. row_ipv4 (f r) = row_ipv4 r \<or> row_ipv4 (f r) = []" for P f
  proof
    fix r assume "r \<in> set (update_where P f (devices d))"
    then obtain x where "x \<in> set (devices d)" "r = (if P x then f x else x)" by (auto simp: in_update_where)
    then show "row_ipv4 r = [] \<or> pool_text app (row_ipv4 r)" using rows that [of x] by (cases "P x") auto
  qed
  show "in_network app (snd (exec_stmt st d))"
  proof (cases st)
    case (InsertDevice rec)
    with rows st show ?thesis
      by (simp add: kept inserts_in_network_def row_of_record_def)
  next
    case (UpdateSeen i now)
    show ?thesis unfolding UpdateSeen exec_stmt.simps Let_def
      by (rule kept, rule updated) simp
  next
    case (ApproveRow i)
    show ?thesis unfolding ApproveRow exec_stmt.simps Let_def
      by (rule kept, rule updated) simp
  next
    case (RevokeRow i)
    show ?thesis unfolding RevokeRow exec_stmt.simps Let_def
      by (rule kept, rule updated) simp
  next
    case (DeleteRow i)
    show ?thesis unfolding DeleteRow exec_stmt.simps Let_def
      by (rule kept) (use rows in \<open>auto simp: delete_where_def\<close>)
  next
    case (DeleteStale cutoff)
    show ?thesis unfolding DeleteStale exec_stmt.simps Let_def
      by (rule kept) (use rows in \<open>auto simp: delete_where_def\<close>)
  next
    case (TakeIp ip)
    with J show ?thesis by (force simp: in_network_def Let_def in_update_where)
  next
    case (InsertIp ip)
    with J st show ?thesis by (auto simp: in_network_def inserts_in_network_def)
  next
    case (FreeIpOf i)
    with J show ?thesis by (auto simp: in_network_def free_ips_def Let_def in_update_where delete_where_def)
  next
    case (FreeStaleIps i)
    with J show ?thesis by (auto simp: in_network_def free_ips_def Let_def in_update_where delete_where_def)
  qed (use J in \<open>simp_all add: in_network_def Let_def\<close>)
qed (auto simp: inserts_none_def inserts_in_network_def split: statement.splits)

text \<open>An address granted from the pool is one of its texts.\<close>

lemma pool_text_parsed: "pool_text app t \<Longrightarrow> parse_ipv4 t = Some ip \<Longrightarrow> pool_text app (show_ipv4 ip)"
  by (auto simp: pool_text_def parse_show_ipv4)

lemma keeps_allocate_ip:
  "keeps (in_network app) (\<lambda>r. \<forall>ip. r = Some ip \<longrightarrow> pool_text app (show_ipv4 ip))
     (allocate_ip (ip_base app) (ip_max_offset app))"
proof -
  let ?granted = "\<lambda>r. \<forall>ip. r = Some ip \<longrightarrow> pool_text app (show_ipv4 ip)"
  have free: "keeps (in_network app) (\<lambda>r. \<forall>p. r = Ok (Some p) \<longrightarrow> pool_text app (ip_text p))
      (query (\<lambda>d. first_min ip_text (filter (\<lambda>p. ip_allocated p = 0) (ip_pool d))))"
    by (auto simp: keeps_def query_def in_network_def split: if_split_asm dest!: first_min_SomeD(1))
  have reuse: "keeps (in_network app) ?granted (do { _ \<leftarrow> execute (TakeIp (ip_text p)); sret (parse_ipv4 (ip_text p)) })"
    if "pool_text app (ip_text p)" for p
    by (rule keeps_bind_store, rule network_store.keeps_execute)
       (use that in \<open>auto simp: inserts_in_network_def intro!: keeps_return dest: pool_text_parsed\<close>)
  have fresh: "keeps (in_network app) ?granted
      (do { _ \<leftarrow> execute (InsertIp (show_ipv4 (ip_base app + of_nat n))); sret (Some (ip_base app + of_nat n)) })"
    if "\<not> of_nat n > ip_max_offset app" for n
    by (rule keeps_bind_store, rule network_store.keeps_execute)
       (use that in \<open>auto simp: inserts_in_network_def pool_text_def not_less intro!: keeps_return\<close>)
  show ?thesis
    unfolding allocate_ip_def Let_def
  proof (rule keeps_bind [OF free])
    fix row :: "sql_error + ip_row option"
    assume "\<forall>p. row = Ok (Some p) \<longrightarrow> pool_text app (ip_text p)"
    then show "keeps (in_network app) ?granted (case row of
        Ok (Some r) \<Rightarrow> do { _ \<leftarrow> execute (TakeIp (ip_text r)); sret (parse_ipv4 (ip_text r)) }
      | _ \<Rightarrow> do {
          count \<leftarrow> query (\<lambda>d. length (ip_pool d));
          if of_nat (case count of Ok n \<Rightarrow> n | Err _ \<Rightarrow> 0) > ip_max_offset app then sret None
          else do {
            _ \<leftarrow> execute (InsertIp (show_ipv4 (ip_base app + of_nat (case count of Ok n \<Rightarrow> n | Err _ \<Rightarrow> 0))));
            sret (Some (ip_base app + of_nat (case count of Ok n \<Rightarrow> n | Err _ \<Rightarrow> 0))) } })"
      by (auto intro!: keeps_bind_store [OF keeps_query] reuse fresh fresh [of 0, simplified] keeps_return split: sum.split option.split)
  qed
qed

text \<open>The offsets of a network are a mask, and adding one to an aligned base keeps the prefix.\<close>

lemma shl_1u32_mask: "shl_1u32 checks n = Some m \<Longrightarrow> \<exists>k. m - 1 = mask k"
  by (auto simp: shl_1u32_def push_bit_eq_mult mask_eq_exp_minus_1 split: if_split_asm)

lemma parse_cidr_mask:
  "parse_cidr checks cidr = ret (Ok (base, off)) \<Longrightarrow> \<exists>k. off = mask k"
  by (auto simp: parse_cidr_def bind_eq_Some_conv dest: shl_1u32_mask
      split: list.split_asm option.split_asm if_split_asm)

lemma aligned_prefix:
  fixes base k :: u32
  assumes "base AND mask n = 0" and "k \<le> mask n"
  shows "(base + k) AND NOT (mask n) = base"
proof -
  have k: "k = k AND mask n"
  proof (cases "n < 32")
    case True
    then have nz: "(2 ^ n :: u32) \<noteq> 0" by simp
    then have "unat k \<le> unat (2 ^ n :: u32) - 1" and "0 < unat (2 ^ n :: u32)"
      using assms(2) by (simp_all add: mask_eq_exp_minus_1 word_le_nat_alt unat_minus_one unat_gt_0)
    then have "k < 2 ^ n" unfolding word_less_nat_alt by linarith
    then show ?thesis by (simp add: less_mask_eq)
  qed (simp add: take_bit_eq_mask [symmetric] take_bit_word_eq_self)
  have none: "\<not> (bit base i \<and> bit (mask n :: u32) i)" for i
    using arg_cong [OF assms(1), of "\<lambda>w. bit w i"] by (simp add: bit_and_iff)
  have "base AND k = 0"
    by (subst k) (use none in \<open>auto simp: bit_eq_iff bit_and_iff\<close>)
  then have "base + k = base OR k AND mask n" using k by (simp add: disjunctive_add_eq_or)
  then show ?thesis
    by simp (use none in \<open>auto simp: bit_eq_iff bit_and_iff bit_or_iff bit_not_iff\<close>)
qed

text \<open>\<open>gives J Q m\<close>: run on a store with \<open>J\<close>, the program has a result with \<open>Q\<close>.\<close>

definition gives :: "(db \<Rightarrow> bool) \<Rightarrow> ('a \<Rightarrow> bool) \<Rightarrow> 'a sql \<Rightarrow> bool" where
  "gives J Q m \<longleftrightarrow> (\<forall>s. J (tables s) \<longrightarrow> Q (fst (run_state m s)))"

lemma gives_return: "Q x \<Longrightarrow> gives J Q (sret x)"
  by (simp add: gives_def)

lemma gives_bind:
  assumes "keeps J R m" and "\<And>x. R x \<Longrightarrow> gives J Q (f x)"
  shows "gives J Q (m \<bind> f)"
  using assms unfolding keeps_def gives_def by (auto split: prod.split)

lemma gives_bind_any: "keeps_store J m \<Longrightarrow> (\<And>x. gives J Q (f x)) \<Longrightarrow> gives J Q (m \<bind> f)"
  by (rule gives_bind) auto

lemma gives_stronger: "gives J Q m \<Longrightarrow> (\<And>d. K d \<Longrightarrow> J d) \<Longrightarrow> gives K Q m"
  by (simp add: gives_def)

section \<open>The addresses in replies\<close>

definition in_net :: "app_state \<Rightarrow> string \<Rightarrow> bool" where
  "in_net app t \<longleftrightarrow> (\<exists>ip. t = show_ipv4 ip \<and> ip AND NOT (ip_max_offset app) = ip_base app)"

text \<open>
  What a reply says of addresses: a registration one of the network, or 0.0.0.0 to a revoked device,
  a list of peers only addresses of the network.
\<close>

definition reply_in_net :: "app_state \<Rightarrow> response \<Rightarrow> bool" where
  "reply_in_net app r \<longleftrightarrow>
     (case r of
        RegisterR reg \<Rightarrow> in_net app (reg_ipv4 reg) \<or> (reg_status reg = ''revoked'' \<and> reg_ipv4 reg = ''0.0.0.0'')
      | PeersR ps \<Rightarrow> \<forall>p\<in>set ps. in_net app (pi_ipv4 p)
      | _ \<Rightarrow> True)"

definition net_store :: "app_state \<Rightarrow> db \<Rightarrow> bool" where
  "net_store app d \<longleftrightarrow> in_network app d \<and> db_inv d"

lemma pool_text_in_net:
  assumes "\<exists>n. ip_max_offset app = mask n" and "ip_base app AND ip_max_offset app = 0" and "pool_text app t"
  shows "in_net app t"
proof -
  obtain n k where "ip_max_offset app = mask n" "k \<le> ip_max_offset app" "t = show_ipv4 (ip_base app + k)"
    using assms(1,3) by (auto simp: pool_text_def)
  then show ?thesis using aligned_prefix [of "ip_base app" n k] assms(2) by (auto simp: in_net_def)
qed

text \<open>A device of such a store reads as an address of the network, or is revoked.\<close>

lemma stored_address:
  assumes "net_store app d" and "r \<in> set (devices d)"
  shows "pool_text app (show_ipv4 (dev_ipv4 (record_view r)))
     \<or> dev_status (record_view r) = Revoked \<and> dev_ipv4 (record_view r) = ipv4_unspecified"
proof (cases "row_ipv4 r = []")
  case True
  from assms have "row_ok r" by (auto simp: net_store_def dest: db_invD(2))
  moreover from this True have "row_status r = -1" by (metis row_ok_def show_ipv4_nonempty)
  ultimately show ?thesis using revoked_view by blast
next
  case False
  with assms have "pool_text app (row_ipv4 r)" by (auto simp: net_store_def in_network_def)
  moreover from this obtain ip where "row_ipv4 r = show_ipv4 ip" by (auto simp: pool_text_def)
  ultimately show ?thesis by (simp add: record_view_def parse_show_ipv4)
qed


lemma find_gives:
  "gives (net_store app) (\<lambda>found. \<forall>x. found = ret (Some x) \<longrightarrow>
       pool_text app (show_ipv4 (dev_ipv4 x)) \<or> dev_status x = Revoked \<and> dev_ipv4 x = ipv4_unspecified)
     (find_by_public_key pk)"
proof -
  have "pool_text app (show_ipv4 (dev_ipv4 x)) \<or> dev_status x = Revoked \<and> dev_ipv4 x = ipv4_unspecified"
    if s: "net_store app (tables s)" and x: "fst (run_state (find_by_public_key pk) s) = ret (Some x)" for s x
  proof -
    let ?f = "find (\<lambda>r. row_key r = pk) (devices (tables s))"
    have inv: "db_inv (tables s)" using s by (simp add: net_store_def)
    have "optional_record (Ok ?f) = ret (Some x)"
      using x by (auto simp: find_by_public_key_def query_def split: list.splits if_splits)
    then obtain r where "?f = Some r" "x = record_view r"
      using optional_record_ok [OF inv] by auto
    moreover from this(1) have "r \<in> set (devices (tables s))" by (auto simp: find_Some_iff)
    ultimately show ?thesis using stored_address [OF s] by simp
  qed
  then show ?thesis by (simp add: gives_def)
qed

lemma find_keeps: "keeps (net_store app) (\<lambda>_. True) (find_by_public_key pk)"
  by (simp add: keeps_def find_by_public_key_def query_def)

lemma gives_keeps: "keeps J (\<lambda>_. True) m \<Longrightarrow> gives J Q m \<Longrightarrow> keeps J Q m"
  by (simp add: keeps_def gives_def)

text \<open>The part of a registration for a key that is not in the store.\<close>

definition register_fresh ::
  "app_state \<Rightarrow> uuid \<Rightarrow> bytes \<Rightarrow> string \<Rightarrow> (http_status + register_response) panics sql" where
  "register_fresh app new_v4 pk host = do {
     now \<leftarrow> unix_now;
     allocated \<leftarrow> allocate_ip (ip_base app) (ip_max_offset app);
     case allocated of
       None \<Rightarrow> sret (ret (Err Conflict409))
     | Some ip \<Rightarrow> do {
         first \<leftarrow> is_first_device;
         let dstatus = (if first then Approved else Pending);
         r \<leftarrow> insert_device \<lparr>dev_id = new_v4, dev_key = pk, dev_host = host,
                            dev_ipv4 = ip, dev_status = dstatus, dev_created = now, dev_seen = now\<rparr>;
         case r of
           Err _ \<Rightarrow> sret (ret (Err Internal500))
         | Ok _ \<Rightarrow>
             sret (ret (Ok \<lparr>reg_device_id = new_v4, reg_ipv4 = show_ipv4 ip,
                            reg_network = network_cidr app,
                            reg_status = (if dstatus = Approved then ''approved'' else ''pending'')\<rparr>)) } }"

abbreviation registers_in :: "app_state \<Rightarrow> (http_status + register_response) panics \<Rightarrow> bool" where
  "registers_in app r \<equiv> (\<forall>reg. r = ret (Ok reg) \<longrightarrow>
     pool_text app (reg_ipv4 reg) \<or> reg_status reg = ''revoked'' \<and> reg_ipv4 reg = ''0.0.0.0'')"

lemma fresh_gives: "gives (in_network app) (registers_in app) (register_fresh app new_v4 pk host)"
  unfolding register_fresh_def
proof (rule gives_bind_any [OF keeps_unix_now], rule gives_bind [OF keeps_allocate_ip], goal_cases)
  case (1 now allocated)
  then show ?case
    by (cases allocated) (auto simp: gives_def Let_def split: prod.split sum.split)
qed

lemma register_gives: "gives (net_store app) (registers_in app) (handle_register app new_v4 pk host)"
  unfolding handle_register_def register_fresh_def [symmetric]
proof (rule gives_bind [OF gives_keeps [OF find_keeps find_gives]], goal_cases)
  case (1 found)
  show ?case
  proof (cases found)
    case (Some known)
    show ?thesis
    proof (cases known)
      case None
      with Some show ?thesis using gives_stronger [OF fresh_gives, of "net_store app"] by (simp add: net_store_def)
    next
      case known: (Some x)
      with Some 1 show ?thesis by (auto simp: status_text_def show_unspecified intro!: gives_return)
    qed
  qed (simp add: gives_def)
qed

lemma peers_give:
  "gives (net_store app) (\<lambda>r. \<forall>ps. r = ret (Ok ps) \<longrightarrow> (\<forall>p\<in>set ps. pool_text app (pi_ipv4 p))) handle_peers"
proof -
  let ?R = "\<lambda>r. \<forall>ds. r = ret (Ok ds) \<longrightarrow> (\<forall>d\<in>set ds. pool_text app (show_ipv4 (dev_ipv4 d)))"
  have "?R (fst (run_state list_approved s))" if s: "net_store app (tables s)" for s
  proof -
    have "db_inv (tables s)" using s by (simp add: net_store_def)
    then have "fst (run_state list_approved s) \<in> {ret (Err SqlIo), ret (Ok (map record_view (by_created (\<lambda>r. row_status r = 1) (tables s))))}"
      by (simp add: list_approved_def query_def records_by_created)
    moreover have "pool_text app (show_ipv4 (dev_ipv4 (record_view r)))"
      if "r \<in> set (devices (tables s))" "row_status r = 1" for r
      using stored_address [OF s that(1)] that(2) by (auto simp: record_view_def status_from_i32_def)
    ultimately show ?thesis by auto
  qed
  then have list: "keeps (net_store app) ?R list_approved"
    by (auto simp: keeps_def list_approved_def query_def)
  show ?thesis
    unfolding handle_peers_def
  proof (rule gives_bind [OF list], goal_cases)
    case (1 r)
    then show ?case by (auto simp: gives_def split: option.split sum.split prod.split)
  qed
qed

lemma serve_gives:
  assumes "\<exists>n. ip_max_offset app = mask n" and "ip_base app AND ip_max_offset app = 0"
  shows "gives (net_store app) (reply_in_net app) (serve app req)"
proof -
  note in_net = pool_text_in_net [OF assms]
  show ?thesis
  proof (cases req)
    case (RegisterReq i pk host)
    have "reply_in_net app (reply_panics RegisterR r)" if "registers_in app r" for r
      using that in_net by (cases r) (auto simp: reply_panics_def reply_def reply_in_net_def split: sum.split)
    with register_gives [of app i pk host] show ?thesis
      unfolding RegisterReq by (auto simp: gives_def reply_in_net_def split: prod.split)
  next
    case PeersReq
    have "reply_in_net app (reply_panics PeersR r)" if "\<forall>ps. r = ret (Ok ps) \<longrightarrow> (\<forall>p\<in>set ps. pool_text app (pi_ipv4 p))" for r
      using that in_net by (cases r) (auto simp: reply_panics_def reply_def reply_in_net_def split: sum.split)
    with peers_give [of app] show ?thesis
      unfolding PeersReq by (auto simp: gives_def split: prod.split)
  qed (auto simp: gives_def reply_in_net_def reply_def reply_panics_def split: prod.split sum.split option.split)
qed

lemma serve_keeps:
  assumes "\<exists>n. ip_max_offset app = mask n" and "ip_base app AND ip_max_offset app = 0"
  shows "keeps (net_store app) (reply_in_net app) (serve app req)"
proof -
  have "keeps_store (in_network app) (serve app req)"
    by (intro network_store.keeps_serve network_store.keeps_register [OF keeps_allocate_ip])
       (simp add: inserts_in_network_def)
  moreover have "keeps_store db_inv (serve app req)"
    using safe_serve [of app req] leads_inv by (auto simp: safe_def keeps_def)
  ultimately have "keeps_store (net_store app) (serve app req)" by (simp add: keeps_def net_store_def)
  then show ?thesis using serve_gives [OF assms] by (rule gives_keeps)
qed

lemma serve_all_keeps:
  assumes "\<exists>n. ip_max_offset app = mask n" and "ip_base app AND ip_max_offset app = 0"
  shows "keeps (net_store app) (\<lambda>rs. \<forall>r\<in>set rs. reply_in_net app r) (serve_all app reqs)"
proof (induction reqs)
  case (Cons req reqs)
  show ?case
    by (simp only: serve_all.simps)
       (rule keeps_bind [OF serve_keeps [OF assms]], rule keeps_bind [OF Cons.IH], rule keeps_return, simp)
qed (simp add: keeps_return)

section \<open>The life of a service\<close>

text \<open>
  The service is started, answers requests until it is stopped, and is started again on the store it
  left: one session per start, with its arguments, requests, statement failures and clock. A start
  that fails leaves the store as it is.
\<close>

type_synonym session = "control_args \<times> request list \<times> bool list \<times> int list"

fun service_life :: "bool \<Rightarrow> session list \<Rightarrow> db \<Rightarrow> (app_state \<times> response list) list" where
  "service_life checks [] d = []"
| "service_life checks ((args, reqs, fs, ts) # ss) d =
     (case control_start checks args (Some d) True of
        Some (Ok (app, d')) \<Rightarrow>
          (case run_state (serve_all app reqs) \<lparr>tables = d', faults = fs, times = ts\<rparr> of
             (replies, s') \<Rightarrow> (app, replies) # service_life checks ss (tables s'))
      | _ \<Rightarrow> service_life checks ss d)"

definition network_of :: "bool \<Rightarrow> control_args \<Rightarrow> (u32 \<times> u32) option" where
  "network_of checks args =
     (case parse_cidr checks (ca_network args) of Some (Ok pool) \<Rightarrow> Some pool | _ \<Rightarrow> None)"

text \<open>No host bits in the address of \<open>--network\<close>; a network with the same base, at least as large.\<close>

definition aligned :: "bool \<Rightarrow> control_args \<Rightarrow> bool" where
  "aligned checks args = (case network_of checks args of Some (base, off) \<Rightarrow> base AND off = 0 | None \<Rightarrow> True)"

definition widens :: "bool \<Rightarrow> control_args \<Rightarrow> control_args \<Rightarrow> bool" where
  "widens checks args args' =
     (case (network_of checks args, network_of checks args') of
        (Some (base, off), Some (base', off')) \<Rightarrow> base' = base \<and> off \<le> off'
      | _ \<Rightarrow> True)"

lemma started:
  "control_start checks args (Some d) True = ret (Ok (app, d')) \<longleftrightarrow>
     d' = d \<and> (\<exists>pool. network_of checks args = Some pool \<and> app = app_of args pool)"
  by (auto simp: control_start_ok network_of_def split: option.splits sum.splits)

lemma in_network_widens:
  assumes "in_network app d" and "ip_base app' = ip_base app" and "ip_max_offset app \<le> ip_max_offset app'"
  shows "in_network app' d"
proof -
  have "pool_text app' t" if "pool_text app t" for t
    using that assms(2,3) by (auto simp: pool_text_def intro: order_trans)
  with assms(1) show ?thesis by (auto simp: in_network_def)
qed

lemma service_life_in_net:
  assumes "sorted_wrt (widens checks) (map fst ss)" and "\<forall>args\<in>fst ` set ss. aligned checks args"
    and "db_inv d" and "\<And>args pool. args \<in> fst ` set ss \<Longrightarrow> network_of checks args = Some pool \<Longrightarrow> in_network (app_of args pool) d"
    and "(app, replies) \<in> set (service_life checks ss d)" and "r \<in> set replies"
  shows "reply_in_net app r"
  using assms
proof (induction ss arbitrary: d)
  case (Cons session ss)
  obtain args reqs fs ts where session: "session = (args, reqs, fs, ts)" by (cases session)
  have tail: "sorted_wrt (widens checks) (map fst ss)" "\<forall>args\<in>fst ` set ss. aligned checks args"
      "\<forall>args'\<in>fst ` set ss. widens checks args args'"
    using Cons.prems(1,2) session by auto
  show ?case
  proof (cases "network_of checks args")
    case None
    then have "\<nexists>app d'. control_start checks args (Some d) True = ret (Ok (app, d'))" by (simp add: started)
    then have "service_life checks (session # ss) d = service_life checks ss d"
      by (auto simp: session split: option.splits sum.splits)
    with Cons.IH [OF tail(1,2) Cons.prems(3)] Cons.prems(4-6) show ?thesis by auto
  next
    case (Some pool)
    let ?app = "app_of args pool"
    obtain rs s' where run: "run_state (serve_all ?app reqs) \<lparr>tables = d, faults = fs, times = ts\<rparr> = (rs, s')"
      by fastforce
    have start: "control_start checks args (Some d) True = ret (Ok (?app, d))" using Some by (simp add: started)
    have mask: "\<exists>n. ip_max_offset ?app = mask n" "ip_base ?app AND ip_max_offset ?app = 0"
      using Some parse_cidr_mask [of checks "ca_network args" "fst pool" "snd pool"] Cons.prems(2) session
      by (auto simp: app_of_def network_of_def aligned_def split: option.splits sum.splits)
    have "net_store ?app d" using Cons.prems(3,4) session Some by (simp add: net_store_def)
    then have kept: "net_store ?app (tables s')" "\<forall>r\<in>set rs. reply_in_net ?app r"
      using serve_all_keeps [OF mask, of reqs, unfolded keeps_def, rule_format, of "\<lparr>tables = d, faults = fs, times = ts\<rparr>"] run
      by auto
    have later: "in_network (app_of args' pool') (tables s')"
      if "args' \<in> fst ` set ss" "network_of checks args' = Some pool'" for args' pool'
    proof (rule in_network_widens [of ?app])
      have "widens checks args args'" using tail(3) that(1) by blast
      then show "ip_base (app_of args' pool') = ip_base ?app" "ip_max_offset ?app \<le> ip_max_offset (app_of args' pool')"
        using Some that(2) by (auto simp: widens_def app_of_def)
      show "in_network ?app (tables s')" using kept(1) by (simp add: net_store_def)
    qed
    have "service_life checks (session # ss) d = (?app, rs) # service_life checks ss (tables s')"
      using start run by (simp add: session)
    then consider "(app, replies) = (?app, rs)" | "(app, replies) \<in> set (service_life checks ss (tables s'))"
      using Cons.prems(5) by auto
    then show ?thesis
    proof cases
      case 1
      with kept(2) Cons.prems(6) show ?thesis by simp
    next
      case 2
      with Cons.IH [OF tail(1,2) _ later] kept(1) Cons.prems(6) show ?thesis by (simp add: net_store_def)
    qed
  qed
qed simp

text \<open>
  C13: A service that is started on a new database, answers requests and purges, and is started again
  on the store it left any number of times, each time with an aligned network (no host bits in the
  address of \<open>--network\<close>) of the same base and at least the size of the last, never hands out an
  address outside the network it was started with, whatever statements fail and whatever the clock
  reads: a registration is answered with an address of the network, or with 0.0.0.0 if the device
  is revoked, and the list of peers has only addresses of the network.
\<close>

theorem addresses_in_network:
  assumes "sorted_wrt (widens checks) (map fst sessions)" and "\<forall>args\<in>fst ` set sessions. aligned checks args"
    and "(app, replies) \<in> set (service_life checks sessions init_db)" and "r \<in> set replies"
  shows "case r of
      RegisterR reg \<Rightarrow>
        (\<exists>ip. reg_ipv4 reg = show_ipv4 ip \<and> ip AND NOT (ip_max_offset app) = ip_base app)
        \<or> (reg_status reg = ''revoked'' \<and> reg_ipv4 reg = ''0.0.0.0'')
    | PeersR ps \<Rightarrow> \<forall>p\<in>set ps. \<exists>ip. pi_ipv4 p = show_ipv4 ip \<and> ip AND NOT (ip_max_offset app) = ip_base app
    | _ \<Rightarrow> True"
proof -
  have "in_network (app_of args pool) init_db" for args pool by (simp add: in_network_def init_db_def)
  from service_life_in_net [OF assms(1,2) init_db_inv this assms(3,4)] show ?thesis
    by (simp add: reply_in_net_def in_net_def cong: response.case_cong)
qed


lemma default_start:
  "control_start checks control_default_args (Some init_db) True = ret (Ok (sample_app, init_db))"
proof -
  have "''100.64.0.0/16'' = show_ipv4 (ipv4_new 100 64 0 0) @ CHR ''/'' # show_nat 16"
    unfolding show_sample_ips by code_simp
  then have "parse_cidr checks (ca_network control_default_args) = ret (Ok (ipv4_new 100 64 0 0, 0xFFFF))"
    using parse_cidr_spec [of 16 checks "ipv4_new 100 64 0 0"]
    by (simp add: control_default_args_def del: show_nat.simps)
  then show ?thesis
    by (simp add: control_start_ok) (simp add: app_of_def control_default_args_def sample_app_def)
qed

definition laptop_session :: session where
  "laptop_session = (control_default_args, [RegisterReq 1 (replicate 32 7) ''laptop''], [], [1000, 1001, 1002, 1003])"

theorem addresses_in_network_witness:
  "\<exists>app replies reg. service_life True [laptop_session] init_db = [(app, replies)] \<and> RegisterR reg \<in> set replies
     \<and> reg_ipv4 reg = ''100.64.0.0'' \<and> (\<exists>ip. ''100.64.0.0'' = show_ipv4 ip \<and> ip AND NOT 0xFFFF = ipv4_new 100 64 0 0)"
proof -
  let ?reg = "\<lparr>reg_device_id = 1, reg_ipv4 = ''100.64.0.0'', reg_network = ''100.64.0.0/16'', reg_status = ''approved''\<rparr>"
  have fresh: "replicate 32 7 \<notin> row_key ` set (devices (tables sample_env))" by (simp add: sample_env_def init_db_def)
  have room: "\<not> pool_full sample_app init_db" by (simp add: pool_full_def sample_app_def init_db_def)
  have "fst (run_state (handle_register sample_app 1 (replicate 32 7) ''laptop'') sample_env) = ret (Ok ?reg)"
    using register_new_key_fact [OF sample_env_ok fresh, of sample_app 1 "''laptop''"] room next_ip_sample
    by (simp add: Let_def sample_env_def) (simp add: init_db_def sample_app_def)
  then have "fst (run_state (serve_all sample_app [RegisterReq 1 (replicate 32 7) ''laptop'']) sample_env) = [RegisterR ?reg]"
    by (auto simp: reply_panics_def reply_def split: prod.split)
  then have life: "service_life True [laptop_session] init_db = [(sample_app, [RegisterR ?reg])]"
    by (auto simp: laptop_session_def default_start sample_env_def split: prod.split)
  have "network_of True control_default_args = Some (ipv4_new 100 64 0 0, 0xFFFF)"
    using default_start [of True]
    by (auto simp: control_start_ok network_of_def app_of_def control_default_args_def sample_app_def)
  then have "sorted_wrt (widens True) (map fst [laptop_session])" "\<forall>args\<in>fst ` set [laptop_session]. aligned True args"
    by (simp_all add: laptop_session_def aligned_def ipv4_new_def u32_of_be_def be_val_def)
  from addresses_in_network [OF this, of sample_app "[RegisterR ?reg]" "RegisterR ?reg"]
  have "\<exists>ip. ''100.64.0.0'' = show_ipv4 ip \<and> ip AND NOT 0xFFFF = ipv4_new 100 64 0 0"
    unfolding life by (simp add: sample_app_def)
  then show ?thesis unfolding life by (intro exI [of _ sample_app] exI [of _ "[RegisterR ?reg]"] exI [of _ ?reg]) simp
qed

text \<open>
  With another base the addresses that are taken stay as they are: a known device is answered with
  its old address and the new network, whatever the arguments of the start.
\<close>

lemma known_device_keeps_address:
  assumes "fst (run_state (find_by_public_key pk) s) = ret (Some x)"
  shows "fst (run_state (handle_register app i pk host) s) =
     ret (Ok \<lparr>reg_device_id = dev_id x, reg_ipv4 = show_ipv4 (dev_ipv4 x), reg_network = network_cidr app,
              reg_status = status_text (dev_status x)\<rparr>)"
  using assms by (auto simp: handle_register_def split: prod.split)

text \<open>
  Without the alignment an address may leave the network: host bits in the address of
  \<open>--network\<close> are kept, and the second device of \<open>192.0.2.255/24\<close> gets 192.0.3.0.
\<close>

lemma host_bits_leave_network:
  "ipv4_new 192 0 2 255 + 1 = ipv4_new 192 0 3 0" "ipv4_new 192 0 3 0 AND NOT 0xFF \<noteq> ipv4_new 192 0 2 255 AND NOT 0xFF"
  by (simp_all add: ipv4_new_def u32_of_be_def be_val_def)

section \<open>Failures that are not reported\<close>

text \<open>
  The documentation of the approval promises the status 500 for a failing statement, and that of
  the candidates 404 for an unknown device. The code answers 200 to both: not approved, and an
  empty list.
\<close>

lemma failing_approval_is_refusal:
  "take 1 (faults s) = [True] \<Longrightarrow> fst (run_state (handle_approve i) s) = (False, i)"
  by (simp add: handle_approve_def approve_device_def execute_def affected_def or_false_def)

lemma unknown_device_has_no_candidates:
  "faults s = [] \<Longrightarrow> i \<notin> cand_id ` set (candidates (tables s)) \<Longrightarrow> fst (run_state (handle_get_candidates i) s) = Ok (i, [])"
proof -
  assume "faults s = []" and "i \<notin> cand_id ` set (candidates (tables s))"
  moreover from this(2) have "filter (\<lambda>c. cand_id c = i) (candidates (tables s)) = []"
    by (auto simp: filter_empty_conv)
  ultimately show ?thesis by (simp add: handle_get_candidates_def get_candidates_def run_query_ok)
qed

section \<open>Reading changes nothing\<close>

lemma get_endpoints:
  "map_of (methods_at segs) GET = Some e \<Longrightarrow>
     e \<in> {AtPending, AtPeers, AtAdminPeers, AtHealth, AtAllocations, AtDns, AtListAcl} \<or> (\<exists>t. e = AtGetCandidates t)"
  unfolding methods_at_def
  by (cases segs rule: remdups_adj.cases; simp split: list.split_asm if_split_asm)

definition reads :: "request \<Rightarrow> bool" where
  "reads req \<longleftrightarrow> req \<in> {PendingReq, PeersReq, AdminPeersReq, HealthReq, AllocationsReq, DnsReq, ListAclReq}
     \<or> (\<exists>i. req = GetCandidatesReq i)"

lemma dispatch_get:
  assumes "hq_method hq = GET"
  shows "(\<exists>resp. dispatch parse_id n hq = Reject resp) \<or> (\<exists>req. dispatch parse_id n hq = Serve req \<and> reads req)"
proof (cases "route GET (hq_path hq)")
  case (Found e)
  then have "e \<in> {AtPending, AtPeers, AtAdminPeers, AtHealth, AtAllocations, AtDns, AtListAcl} \<or> (\<exists>t. e = AtGetCandidates t)"
    by (auto simp: route_def Let_def dest!: get_endpoints split: if_splits option.splits list.splits)
  then show ?thesis
    using Found assms by (auto simp: dispatch_def call_def with_param_def reads_def split: option.splits)
qed (use assms in \<open>simp_all add: dispatch_def\<close>)

lemma reads_keep:
  assumes "reads req"
  shows "keeps_store J (serve app req)"
  using assms
  by (auto simp: reads_def handle_pending_def handle_peers_def handle_admin_peers_def handle_allocations_def
      handle_get_candidates_def handle_dns_records_def handle_list_acl_def list_pending_def list_approved_def
      list_all_devices_def pool_size_def allocated_count_def get_candidates_def list_dns_records_def list_acl_rules_def
      intro!: keeps_intros)

text \<open>
  C25: A GET request changes nothing, whatever its path and body, whatever the store and whichever
  statements fail: the tables and the files of the service are afterwards as before.
\<close>

theorem get_changes_nothing:
  assumes "hq_method hq = GET"
  shows "tables (sv_env (snd (respond show_id parse_id app n luck hq sv))) = tables (sv_env sv)
     \<and> sv_files (snd (respond show_id parse_id app n luck hq sv)) = sv_files sv"
  using dispatch_get [OF assms, of parse_id n]
proof
  assume "\<exists>req. dispatch parse_id n hq = Serve req \<and> reads req"
  then obtain req where req: "dispatch parse_id n hq = Serve req" "reads req" by blast
  have "keeps_store (\<lambda>d. d = tables (sv_env sv)) (serve app req)" by (rule reads_keep) (rule req)
  then have "tables (snd (run_state (serve app req) (sv_env sv))) = tables (sv_env sv)" by (simp add: keeps_def)
  with req(1) show ?thesis by (simp add: respond_def split_beta del: serve.simps)
qed (auto simp: respond_def)

theorem get_changes_nothing_witness:
  "tables (sv_env (snd (respond decimal_id parse_decimal_id sample_app 1 (CopyDone, True)
      \<lparr>hq_method = GET, hq_path = ''/api/v1/register/5'', hq_body = Empty\<rparr>
      (\<lparr>sv_env = two_devices, sv_files = Map.empty\<rparr> :: nat server)))) = tables two_devices"
proof -
  let ?hq = "\<lparr>hq_method = GET, hq_path = ''/api/v1/register/5'', hq_body = Empty\<rparr>"
  let ?sv = "\<lparr>sv_env = two_devices, sv_files = Map.empty\<rparr> :: nat server"
  have "hq_method ?hq = GET" by simp
  from get_changes_nothing [OF this, of decimal_id parse_decimal_id sample_app 1 "(CopyDone, True)" ?sv]
  show ?thesis by simp
qed

end
