(* ===== verification/Dns.thy ===== *)
theory Dns
  imports Net_Addr
begin

text \<open>
  \<open>apps/daemon/src/dns.rs\<close>: the DNS responder of the daemon. Rust strings are their UTF-8 bytes;
  \<open>str::from_utf8\<close> is the well-formedness of RFC 3629. \<open>to_lowercase\<close>, which rests on the Unicode
  tables, is the argument \<open>lower\<close>. \<open>handle_query\<close> indexes and slices the query, so its model
  says where it would panic; the label loop is a recursion on the bytes that are left.
\<close>

section \<open>Strings as bytes\<close>

definition ascii :: "string \<Rightarrow> bytes" where
  "ascii s = map of_char s"

definition continuation :: "u8 \<Rightarrow> bool" where
  "continuation b \<longleftrightarrow> 0x80 \<le> b \<and> b \<le> 0xBF"

fun utf8_valid :: "bytes \<Rightarrow> bool" where
  "utf8_valid [] \<longleftrightarrow> True"
| "utf8_valid (a # r) \<longleftrightarrow>
     (if a < 0x80 then utf8_valid r
      else (case r of
          [] \<Rightarrow> False
        | b # r2 \<Rightarrow>
            (if 0xC2 \<le> a \<and> a \<le> 0xDF then continuation b \<and> utf8_valid r2
             else (case r2 of
                 [] \<Rightarrow> False
               | c # r3 \<Rightarrow>
                   (if 0xE0 \<le> a \<and> a \<le> 0xEF
                    then (if a = 0xE0 then 0xA0 else 0x80) \<le> b \<and> b \<le> (if a = 0xED then 0x9F else 0xBF)
                         \<and> continuation c \<and> utf8_valid r3
                    else (case r3 of
                        [] \<Rightarrow> False
                      | d # r4 \<Rightarrow>
                          0xF0 \<le> a \<and> a \<le> 0xF4
                          \<and> (if a = 0xF0 then 0x90 else 0x80) \<le> b \<and> b \<le> (if a = 0xF4 then 0x8F else 0xBF)
                          \<and> continuation c \<and> continuation d \<and> utf8_valid r4))))))"

definition strip_suffix :: "bytes \<Rightarrow> bytes \<Rightarrow> bytes option" where
  "strip_suffix suf s =
     (if length suf \<le> length s \<and> drop (length s - length suf) s = suf
      then Some (take (length s - length suf) s) else None)"

fun join_bytes :: "bytes \<Rightarrow> bytes list \<Rightarrow> bytes" where
  "join_bytes sep [] = []"
| "join_bytes sep [p] = p"
| "join_bytes sep (p # q # ps) = p @ sep @ join_bytes sep (q # ps)"

section \<open>The server\<close>

record dns_server =
  dns_records :: "bytes \<rightharpoonup> ipv4"
  upstream :: string

definition dns_bind :: "string \<Rightarrow> dns_server" where
  "dns_bind upstream_addr = \<lparr>dns_records = Map.empty, upstream = upstream_addr\<rparr>"

definition update_records :: "(bytes \<Rightarrow> bytes) \<Rightarrow> (bytes \<times> ipv4) list \<Rightarrow> dns_server \<Rightarrow> dns_server" where
  "update_records lower hosts srv =
     srv\<lparr>dns_records := foldl (\<lambda>m (name, ip). m(lower name \<mapsto> ip)) Map.empty hosts\<rparr>"

text \<open>
  The loop over the labels from \<open>pos\<close>: the position after the name and the labels in lower
  case, or \<open>None\<close> where a label is not UTF-8.
\<close>

function parse_labels ::
  "(bytes \<Rightarrow> bytes) \<Rightarrow> bytes \<Rightarrow> nat \<Rightarrow> bytes list \<Rightarrow> (nat \<times> bytes list) option panics" where
  "parse_labels lower query pos parts =
     (if pos < length query then do {
        b \<leftarrow> idx query pos;
        if b = 0 then ret (Some (pos + 1, parts))
        else if b AND 0xC0 \<noteq> 0 then ret (Some (pos + 2, parts))
        else if pos + 1 + unat b > length query then ret (Some (pos + 1, parts))
        else do {
          label \<leftarrow> slice query (pos + 1) (pos + 1 + unat b);
          if utf8_valid label
          then parse_labels lower query (pos + 1 + unat b) (parts @ [lower label])
          else ret None } }
      else ret (Some (pos, parts)))"
  by pat_completeness auto

termination parse_labels
  by (relation "measure (\<lambda>(_, query, pos, _). length query - pos)") auto

declare parse_labels.simps [simp del]

definition answer_flags :: bytes where
  "answer_flags = [0x81, 0x80, 0x00, 0x01, 0x00, 0x01, 0x00, 0x00, 0x00, 0x00]"

definition answer_record :: bytes where
  "answer_record = [0xC0, 0x0C, 0x00, 0x01, 0x00, 0x01, 0x00, 0x00, 0x00, 60, 0x00, 0x04]"

definition handle_query :: "(bytes \<Rightarrow> bytes) \<Rightarrow> dns_server \<Rightarrow> bytes \<Rightarrow> bytes option panics" where
  "handle_query lower srv query =
     (if length query < 12 then ret None
      else do {
        t0 \<leftarrow> idx query 0;
        t1 \<leftarrow> idx query 1;
        q0 \<leftarrow> idx query 4;
        q1 \<leftarrow> idx query 5;
        if u16_of_be [q0, q1] = 0 then ret None
        else do {
          parsed \<leftarrow> parse_labels lower query 12 [];
          case parsed of
            None \<Rightarrow> ret None
          | Some (pos, name_parts) \<Rightarrow>
              (let name = join_bytes (ascii ''.'') name_parts
               in if pos + 4 > length query then ret None
                  else
                    (let lookup = (case strip_suffix (ascii ''.connectalso'') name of
                                     Some s \<Rightarrow> s | None \<Rightarrow> name)
                     in case dns_records srv lookup of
                          None \<Rightarrow> ret None
                        | Some ip \<Rightarrow> do {
                            question \<leftarrow> slice query 12 (pos + 4);
                            ret (Some ([t0, t1] @ answer_flags @ question @ answer_record
                                       @ ipv4_octets ip)) })) } })"

text \<open>One turn of \<open>serve\<close>: the datagrams sent for one received into the 512-byte buffer.\<close>

definition serve_datagram ::
  "(bytes \<Rightarrow> bytes) \<Rightarrow> dns_server \<Rightarrow> bytes \<Rightarrow> socket_addr \<Rightarrow> (socket_addr \<times> bytes) list panics" where
  "serve_datagram lower srv data src = do {
     r \<leftarrow> handle_query lower srv (take 512 data);
     ret (case r of Some response \<Rightarrow> [(src, response)] | None \<Rightarrow> []) }"

section \<open>No query panics\<close>

lemma parse_labels_returns:
  "\<exists>r. parse_labels lower query pos parts = ret r
     \<and> (\<forall>p ps. r = Some (p, ps) \<longrightarrow> pos \<le> p)"
proof (induction lower query pos parts rule: parse_labels.induct)
  case (1 lower query pos parts)
  show ?case
  proof (cases "pos < length query")
    case True
    let ?b = "query ! pos"
    let ?label = "take (unat ?b) (drop (pos + 1) query)"
    show ?thesis
    proof (cases "?b = 0 \<or> ?b AND 0xC0 \<noteq> 0 \<or> pos + 1 + unat ?b > length query \<or> \<not> utf8_valid ?label")
      case True
      with \<open>pos < length query\<close> show ?thesis by (subst parse_labels.simps) auto
    next
      case False
      then have "\<exists>r. parse_labels lower query (pos + 1 + unat ?b) (parts @ [lower ?label]) = ret r
          \<and> (\<forall>p ps. r = Some (p, ps) \<longrightarrow> pos + 1 + unat ?b \<le> p)"
        using \<open>pos < length query\<close> by (intro 1) auto
      with False \<open>pos < length query\<close> show ?thesis
        by (subst parse_labels.simps) (auto dest: le_trans [rotated])
    qed
  qed (subst parse_labels.simps, simp)
qed

text \<open>
  No query, however malformed, makes the DNS server panic; it is answered or ignored, and an
  answer echoes the query's transaction id.
\<close>

theorem handle_query_total:
  "\<exists>r. handle_query lower srv query = ret r
     \<and> (\<forall>resp. r = Some resp \<longrightarrow> 12 \<le> length query \<and> take 2 resp = take 2 query)"
proof (cases "length query < 12")
  case True
  then show ?thesis by (simp add: handle_query_def)
next
  case False
  obtain r where r: "parse_labels lower query 12 [] = ret r" "\<And>p ps. r = Some (p, ps) \<Longrightarrow> 12 \<le> p"
    using parse_labels_returns [of lower query 12 "[]"] by auto
  have ids: "take 2 query = [query ! 0, query ! 1]"
    using False by (intro nth_equalityI) (auto simp: less_2_cases_iff)
  have i0: "idx query 0 = ret (query ! 0)" using False by (cases query) (simp_all add: idx_def)
  show ?thesis
  proof (cases r)
    case None
    with r False show ?thesis by (simp add: handle_query_def i0)
  next
    case (Some pp)
    obtain p ps where pp: "pp = (p, ps)" by fastforce
    then have "12 \<le> p" using r(2) Some by simp
    then show ?thesis
      using r(1) Some pp False ids
      by (auto simp: handle_query_def Let_def i0 split: option.split)
  qed
qed

theorem handle_query_total_witness:
  "\<exists>resp. handle_query id (update_records id [([], 5)] (dns_bind [])) (replicate 5 0 @ [1] @ replicate 6 0 @ [0, 0, 1, 0, 1])
     = ret (Some resp) \<and> take 2 resp = [0, 0]"
proof -
  let ?q = "replicate 5 0 @ [1] @ replicate 6 0 @ [0, 0, 1, 0, 1] :: bytes"
  let ?srv = "update_records id [([], 5)] (dns_bind [])"
  have "handle_query id ?srv ?q \<noteq> ret None" by code_simp
  with handle_query_total [of id ?srv ?q] show ?thesis by (auto simp: numeral_2_eq_2)
qed

section \<open>Names on the wire\<close>

text \<open>A name as a query carries it: labels of 1 to 63 bytes, each behind its length, and a zero.\<close>

definition label_ok :: "bytes \<Rightarrow> bool" where
  "label_ok l \<longleftrightarrow> l \<noteq> [] \<and> length l < 64 \<and> utf8_valid l"

definition label_wire :: "bytes \<Rightarrow> bytes" where
  "label_wire l = of_nat (length l) # l"

definition name_wire :: "bytes list \<Rightarrow> bytes" where
  "name_wire ls = concat (map label_wire ls) @ [0]"

lemma name_wire_simps [simp]:
  "name_wire [] = [0]" "name_wire (l # ls) = of_nat (length l) # l @ name_wire ls"
  by (simp_all add: name_wire_def label_wire_def)

lemma small_length_byte: "n < 64 \<Longrightarrow> (of_nat n :: u8) AND 0xC0 = 0"
proof -
  assume "n < 64"
  have "list_all (\<lambda>n. (of_nat n :: u8) AND 0xC0 = 0) [0..<64]" by code_simp
  with \<open>n < 64\<close> show ?thesis by (auto simp: list_all_iff simp del: upt_Suc)
qed

lemma label_length:
  assumes "label_ok l"
  shows "unat (of_nat (length l) :: u8) = length l" and "(of_nat (length l) :: u8) \<noteq> 0"
    and "(of_nat (length l) :: u8) AND 0xC0 = 0"
proof -
  show u: "unat (of_nat (length l) :: u8) = length l"
    using assms by (simp add: label_ok_def unat_of_nat)
  show "(of_nat (length l) :: u8) \<noteq> 0"
    using u assms by (metis label_ok_def length_0_conv unat_0)
  show "(of_nat (length l) :: u8) AND 0xC0 = 0"
    using assms by (intro small_length_byte) (simp add: label_ok_def)
qed

lemma parse_name_wire:
  assumes "\<forall>l\<in>set ls. label_ok l"
  shows "parse_labels lower (pre @ name_wire ls @ rest) (length pre) parts =
     ret (Some (length pre + length (name_wire ls), parts @ map lower ls))"
  using assms
proof (induction ls arbitrary: pre parts)
  case Nil
  show ?case by (subst parse_labels.simps) simp
next
  case (Cons l ls)
  then have ok: "label_ok l" by simp
  let ?n = "of_nat (length l) :: u8"
  let ?q = "pre @ name_wire (l # ls) @ rest"
  have q: "?q = (pre @ ?n # l) @ name_wire ls @ rest" by simp
  have label: "slice ?q (length pre + 1) (length pre + 1 + unat ?n) = ret l"
    by (simp add: label_length [OF ok])
  have "parse_labels lower ?q (length pre) parts =
      parse_labels lower ?q (length pre + 1 + unat ?n) (parts @ [lower l])"
    using ok label
    by (subst parse_labels.simps) (simp add: label_length [OF ok] nth_append label_ok_def)
  also have "\<dots> = parse_labels lower ((pre @ ?n # l) @ name_wire ls @ rest)
      (length (pre @ ?n # l)) (parts @ [lower l])"
    by (simp add: label_length [OF ok])
  also have "\<dots> = ret (Some (length (pre @ ?n # l) + length (name_wire ls), (parts @ [lower l]) @ map lower ls))"
    by (rule Cons.IH) (use Cons.prems in simp)
  finally show ?case by simp
qed

text \<open>The host a name is looked up as.\<close>

definition host_of :: "(bytes \<Rightarrow> bytes) \<Rightarrow> bytes list \<Rightarrow> bytes" where
  "host_of lower ls =
     (let name = join_bytes (ascii ''.'') (map lower ls)
      in case strip_suffix (ascii ''.connectalso'') name of Some s \<Rightarrow> s | None \<Rightarrow> name)"

text \<open>
  C18: A well-formed query, with at least one question and whatever question type, class and
  further bytes follow the name, is answered exactly when its lower-cased name, with a
  \<open>.connectalso\<close> ending removed, is a known host; the answer is an A record with the host's
  address, also when another record type was asked for.
\<close>

theorem handle_query_answers:
  assumes "length header = 12" and "u16_of_be [header ! 4, header ! 5] \<noteq> 0"
    and "\<forall>l\<in>set ls. label_ok l" and "length qtype_class = 4"
  shows "handle_query lower srv (header @ name_wire ls @ qtype_class @ rest) =
     ret (case dns_records srv (host_of lower ls) of
            None \<Rightarrow> None
          | Some ip \<Rightarrow> Some (take 2 header @ answer_flags @ name_wire ls @ qtype_class
                           @ answer_record @ ipv4_octets ip))"
proof -
  let ?q = "header @ name_wire ls @ qtype_class @ rest"
  have parse: "parse_labels lower ?q 12 [] = ret (Some (12 + length (name_wire ls), map lower ls))"
    using parse_name_wire [OF assms(3), of lower header "qtype_class @ rest" "[]"] assms(1) by simp
  have ids: "take 2 header = [header ! 0, header ! 1]"
    using assms(1) by (intro nth_equalityI) (auto simp: less_2_cases_iff)
  have i: "idx ?q k = ret (header ! k)" if "k < 12" for k
    using that assms(1) by (simp add: idx_def nth_append)
  have question: "slice ?q 12 (12 + length (name_wire ls) + 4) = ret (name_wire ls @ qtype_class)"
    using assms(1,4) by (simp add: slice_def)
  show ?thesis
    using assms(1,2,4) question
    by (simp add: handle_query_def i parse ids host_of_def Let_def nth_append split: option.split)
qed

definition sample_dns :: dns_server where
  "sample_dns = update_records id [(ascii ''laptop'', ipv4_new 100 64 0 1)] (dns_bind ''1.1.1.1:53'')"

theorem handle_query_answers_witness:
  "\<exists>start. handle_query id sample_dns
       (replicate 5 0 @ [1] @ replicate 6 0 @ name_wire [ascii ''laptop'', ascii ''connectalso''] @ [0, 28, 0, 1])
     = ret (Some (start @ [100, 64, 0, 1]))"
proof -
  let ?h = "replicate 5 0 @ [1] @ replicate 6 0 :: bytes" and ?ls = "[ascii ''laptop'', ascii ''connectalso'']"
  have ok: "\<forall>l\<in>set ?ls. label_ok l" by code_simp
  have host: "host_of id ?ls = ascii ''laptop''" by code_simp
  have rec: "dns_records sample_dns (ascii ''laptop'') = Some (ipv4_new 100 64 0 1)"
    by (simp add: sample_dns_def update_records_def dns_bind_def)
  have qd: "u16_of_be [?h ! 4, ?h ! 5] \<noteq> 0" by code_simp
  show ?thesis
    using handle_query_answers [OF _ qd ok, of "[0, 28, 0, 1]" id sample_dns "[]"]
    by (simp add: host rec del: name_wire_simps)
qed

text \<open>Updating replaces all records; of two hosts with the same lower-case name the last one counts.\<close>

lemma update_records_lookup:
  "dns_records (update_records lower hosts srv) name =
     map_option snd (find (\<lambda>(n, _). lower n = name) (rev hosts))"
proof -
  have "foldl (\<lambda>m (n, ip). m(lower n \<mapsto> ip)) m hosts name =
      (case find (\<lambda>(n, _). lower n = name) (rev hosts) of Some (_, ip) \<Rightarrow> Some ip | None \<Rightarrow> m name)" for m
    by (induction hosts rule: rev_induct) (auto split: option.split prod.split)
  then show ?thesis by (auto simp: update_records_def split: option.split prod.split)
qed

end
