(* ===== verification/Text_Format.thy ===== *)
theory Text_Format
  imports Net_Addr
begin

text \<open>
  Rust strings and their formatting, as the command-line client and the daemon's status
  interface use them. A string is its UTF-8 bytes (a HOL character is a byte); widths count
  characters, that is, the bytes that do not continue one; a slice \<open>&s[..n]\<close> panics inside a
  character. Socket addresses are printed and parsed as \<open>std::net\<close> does; the textual form of
  IPv6 socket addresses is an argument.
\<close>

section \<open>Characters and slices of strings\<close>

definition utf8_cont :: "char \<Rightarrow> bool" where
  "utf8_cont c \<longleftrightarrow> 128 \<le> (of_char c :: nat) \<and> (of_char c :: nat) < 192"

definition is_char_boundary :: "string \<Rightarrow> nat \<Rightarrow> bool" where
  "is_char_boundary s n \<longleftrightarrow> n = 0 \<or> n = length s \<or> (n < length s \<and> \<not> utf8_cont (s ! n))"

definition str_prefix :: "string \<Rightarrow> nat \<Rightarrow> string panics" where
  "str_prefix s n = (if is_char_boundary s n then ret (take n s) else panic)"

definition char_count :: "string \<Rightarrow> nat" where
  "char_count s = length (filter (\<lambda>c. \<not> utf8_cont c) s)"

text \<open>\<open>{:<n}\<close>\<close>

definition pad_right :: "nat \<Rightarrow> string \<Rightarrow> string" where
  "pad_right n s = s @ replicate (n - char_count s) (CHR '' '')"

definition is_ascii :: "string \<Rightarrow> bool" where
  "is_ascii s \<longleftrightarrow> list_all (\<lambda>c. (of_char c :: nat) < 128) s"

lemma ascii_no_cont: "is_ascii s \<Longrightarrow> c \<in> set s \<Longrightarrow> \<not> utf8_cont c"
  by (auto simp: is_ascii_def utf8_cont_def list_all_iff)

lemma str_prefix_ascii: "is_ascii s \<Longrightarrow> n \<le> length s \<Longrightarrow> str_prefix s n = ret (take n s)"
  by (auto simp: str_prefix_def is_char_boundary_def ascii_no_cont)

lemma str_prefix_whole [simp]: "str_prefix s (length s) = ret s"
  by (simp add: str_prefix_def is_char_boundary_def)

lemma char_count_append [simp]: "char_count (s @ t) = char_count s + char_count t"
  by (simp add: char_count_def)

lemma char_count_spaces [simp]: "char_count (replicate n (CHR '' '')) = n"
  by (simp add: char_count_def utf8_cont_def)

lemma char_count_pad: "char_count (pad_right n s) = max n (char_count s)"
  by (simp add: pad_right_def)

lemma length_char_count_ascii: "is_ascii s \<Longrightarrow> char_count s = length s"
  by (simp add: char_count_def ascii_no_cont cong: filter_cong)

section \<open>Socket addresses as text\<close>

text \<open>\<open>show6\<close> and \<open>parse6\<close> are the textual forms of IPv6 socket addresses.\<close>

fun show_socket :: "(ipv6 \<Rightarrow> u16 \<Rightarrow> string) \<Rightarrow> socket_addr \<Rightarrow> string" where
  "show_socket show6 (SocketAddr (V4 ip) port) = show_ipv4 ip @ CHR '':'' # show_nat (unat port)"
| "show_socket show6 (SocketAddr (V6 ip) port) = show6 ip port"

definition parse_port :: "string \<Rightarrow> u16 option" where
  "parse_port s =
     (if s \<noteq> [] \<and> list_all is_digit s \<and> dec_val s \<le> 65535 then Some (of_nat (dec_val s)) else None)"

definition parse_socket :: "(string \<Rightarrow> (ipv6 \<times> u16) option) \<Rightarrow> string \<Rightarrow> socket_addr option" where
  "parse_socket parse6 s =
     (case split_on (CHR '':'') s of
        [a, b] \<Rightarrow>
          (case (parse_ipv4 a, parse_port b) of
             (Some ip, Some port) \<Rightarrow> Some (SocketAddr (V4 ip) port)
           | _ \<Rightarrow> map_option (\<lambda>(ip, port). SocketAddr (V6 ip) port) (parse6 s))
      | _ \<Rightarrow> map_option (\<lambda>(ip, port). SocketAddr (V6 ip) port) (parse6 s))"

lemma parse_port_show [simp]: "parse_port (show_nat (unat (p :: u16))) = Some p"
proof -
  have "unat p < 65536" using unat_bound [of p] by simp
  then show ?thesis by (simp add: parse_port_def show_nat_digits)
qed

lemma colon_not_in_show [simp]: "CHR '':'' \<notin> set (show_ipv4 ip)" "CHR '':'' \<notin> set (show_nat n)"
  by (rule show_ipv4_chars) (simp_all add: is_digit_def not_digit_show_nat)

lemma parse_show_socket_v4:
  "parse_socket parse6 (show_socket show6 (SocketAddr (V4 ip) port)) = Some (SocketAddr (V4 ip) port)"
  by (simp add: parse_socket_def split_on_append split_on_no_sep)

section \<open>Loops that may panic\<close>

text \<open>Running a computation that may panic over a list.\<close>

fun map_panics :: "('a \<Rightarrow> 'b panics) \<Rightarrow> 'a list \<Rightarrow> 'b list panics" where
  "map_panics f [] = ret []"
| "map_panics f (x # xs) = do { y \<leftarrow> f x; ys \<leftarrow> map_panics f xs; ret (y # ys) }"

lemma map_panics_None: "map_panics f xs = panic \<longleftrightarrow> (\<exists>x\<in>set xs. f x = panic)"
  by (induction xs) (auto simp: bind_eq_None_conv)

lemma map_panics_ret: "(\<And>x. x \<in> set xs \<Longrightarrow> f x = ret (g x)) \<Longrightarrow> map_panics f xs = ret (map g xs)"
  by (induction xs) auto

lemma map_panics_length: "map_panics f xs = ret ys \<Longrightarrow> length ys = length xs"
  by (induction xs arbitrary: ys) (auto simp: bind_eq_Some_conv)

end
