(* ===== verification/Tun_Device.thy ===== *)
theory Tun_Device
  imports Net_Addr
begin

text \<open>
  \<open>crates/platform/src/tun.rs\<close>: the configuration of the TUN device and the checks around it. The
  device itself, of the crate \<open>tun2\<close>, is an argument: what creating it, reading and writing
  yields. A read fills at most the buffer; \<open>mtu\<close> is the source's \<open>u16\<close>.
\<close>

definition DEFAULT_MTU :: u16 where "DEFAULT_MTU = 1500"

datatype tun_error = TunCreate string | TunSend | TunRecv | BufferTooSmall (need: nat) (got: nat)

record tun_config =
  tc_name :: "string option"
  tc_address :: ipv4
  tc_netmask :: ipv4
  tc_mtu :: u16

definition tun_default :: tun_config where
  "tun_default = \<lparr>tc_name = None, tc_address = ipv4_new 100 64 0 1, tc_netmask = ipv4_new 255 255 255 0,
                  tc_mtu = DEFAULT_MTU\<rparr>"

definition tun_new :: "ipv4 \<Rightarrow> ipv4 \<Rightarrow> tun_config" where
  "tun_new address netmask = tun_default\<lparr>tc_address := address, tc_netmask := netmask\<rparr>"

definition with_name :: "string \<Rightarrow> tun_config \<Rightarrow> tun_config" where
  "with_name name c = c\<lparr>tc_name := Some name\<rparr>"

definition with_mtu :: "u16 \<Rightarrow> tun_config \<Rightarrow> tun_config" where
  "with_mtu mtu c = c\<lparr>tc_mtu := mtu\<rparr>"

text \<open>The calls \<open>to_tun2_config\<close> makes on the configuration of the crate, in order.\<close>

datatype tun2_call = SetAddress ipv4 | SetNetmask ipv4 | SetMtu u16 | SetLayer3 | SetUp | SetTunName string

definition to_tun2_config :: "tun_config \<Rightarrow> tun2_call list" where
  "to_tun2_config c =
     [SetAddress (tc_address c), SetNetmask (tc_netmask c), SetMtu (tc_mtu c), SetLayer3, SetUp]
     @ (case tc_name c of None \<Rightarrow> [] | Some name \<Rightarrow> [SetTunName name])"

record 'd tun_device =
  td_inner :: 'd
  td_config :: tun_config

text \<open>\<open>create\<close>: \<open>tun2_create\<close> is the crate's constructor, or the text of the error of the blocking task.\<close>

definition tun_create :: "(tun2_call list \<Rightarrow> string + 'd) \<Rightarrow> tun_config \<Rightarrow> tun_error + 'd tun_device" where
  "tun_create tun2_create c =
     (case tun2_create (to_tun2_config c) of
        Err e \<Rightarrow> Err (TunCreate e)
      | Ok d \<Rightarrow> Ok \<lparr>td_inner = d, td_config = c\<rparr>)"

definition tun_name :: "'d tun_device \<Rightarrow> string" where
  "tun_name d = (case tc_name (td_config d) of Some n \<Rightarrow> n | None \<Rightarrow> ''tun'')"

definition tun_mtu :: "'d tun_device \<Rightarrow> u16" where "tun_mtu d = tc_mtu (td_config d)"
definition tun_address :: "'d tun_device \<Rightarrow> ipv4" where "tun_address d = tc_address (td_config d)"
definition tun_netmask :: "'d tun_device \<Rightarrow> ipv4" where "tun_netmask d = tc_netmask (td_config d)"
definition into_inner :: "'d tun_device \<Rightarrow> 'd" where "into_inner d = td_inner d"

text \<open>
  \<open>recv\<close> into a buffer: \<open>packet\<close> is what the device delivers (\<open>None\<close> an error); the buffer
  afterwards and the number of bytes read.
\<close>

definition tun_recv :: "'d tun_device \<Rightarrow> bytes \<Rightarrow> bytes option \<Rightarrow> (tun_error + nat) \<times> bytes" where
  "tun_recv d buf packet =
     (if length buf < unat (tc_mtu (td_config d))
      then (Err (BufferTooSmall (unat (tc_mtu (td_config d))) (length buf)), buf)
      else (case packet of
              None \<Rightarrow> (Err TunRecv, buf)
            | Some p \<Rightarrow> (let n = min (length p) (length buf) in (Ok n, take n p @ drop n buf))))"

definition tun_send :: "bytes \<Rightarrow> nat option \<Rightarrow> tun_error + nat" where
  "tun_send packet outcome = (case outcome of None \<Rightarrow> Err TunSend | Some n \<Rightarrow> Ok n)"

lemma tun_recv_Ok:
  assumes "tun_recv d buf packet = (Ok n, buf')"
  shows "\<exists>p. packet = Some p \<and> take n buf' = take (length buf) p \<and> length buf' = length buf
     \<and> n = min (length p) (length buf)"
proof (cases packet)
  case None
  with assms show ?thesis by (simp add: tun_recv_def split: if_splits)
next
  case (Some p)
  with assms have n: "n = min (length p) (length buf)" and buf': "buf' = take n p @ drop n buf"
    by (auto simp: tun_recv_def Let_def split: if_splits)
  have "take n buf' = take (length buf) p" by (simp add: n buf' min_def)
  with Some n buf' show ?thesis by simp
qed

lemma tun_recv_large_enough:
  "unat (tun_mtu d) \<le> length buf \<Longrightarrow> fst (tun_recv d buf packet) \<noteq> Err (BufferTooSmall m k)"
  by (auto simp: tun_recv_def tun_mtu_def Let_def split: option.splits)

lemma device_of_new:
  assumes "tun_create tun2_create (with_name name (tun_new ip netmask)) = Ok d"
  shows "tun_name d = name" "tun_mtu d = 1500" "tun_address d = ip" "tun_netmask d = netmask"
  using assms
  by (auto simp: tun_create_def with_name_def tun_new_def tun_default_def tun_name_def tun_mtu_def
      tun_address_def tun_netmask_def DEFAULT_MTU_def split: sum.splits)

end
