(* ===== verification/Daemon.thy ===== *)
theory Daemon
  imports Acl Tun_Device Relay_Pool Tunnel Nat_Traversal Control_Service
begin

text \<open>
  \<open>apps/daemon/src/main.rs\<close>: the desktop daemon's view of its peers (\<open>SharedState\<close>,
  \<open>PeerLink\<close>), the synchronisation with the control service (\<open>connect_peers\<close>), the hole-punching
  attempts (\<open>attempt_p2p_for_all\<close>), the task that forwards packets from the TUN device, the
  periodic task and the status reply. The peer list is the reply of the control service's
  \<open>handle_peers\<close>, so the two programs are joined here. The tasks that should take packets from
  the relay to the TUN device only lock and sleep in the source; they have no effect.

  HTTP and sockets enter as outcomes: whether a request was answered, whether a socket could be
  bound and a datagram sent, what a hole-punching socket receives.
\<close>

section \<open>Helpers\<close>

definition parse_dst_ip :: "bytes \<Rightarrow> ipv4 option panics" where
  "parse_dst_ip packet =
     (if length packet < 20 then ret None
      else do {
        b0 \<leftarrow> idx packet 0;
        if drop_bit 4 b0 = 4
        then do {
          a \<leftarrow> idx packet 16; b \<leftarrow> idx packet 17; c \<leftarrow> idx packet 18; d \<leftarrow> idx packet 19;
          ret (Some (ipv4_new a b c d)) }
        else ret None })"

definition hex_digit :: "nat \<Rightarrow> char" where
  "hex_digit n = (if n < 10 then char_of (48 + n) else char_of (87 + n))"

definition hex_encode :: "bytes \<Rightarrow> string" where
  "hex_encode bs = concat (map (\<lambda>b. [hex_digit (unat b div 16), hex_digit (unat b mod 16)]) bs)"

section \<open>State\<close>

record peer_link =
  link_hostname :: string
  link_vip :: ipv4
  link_public_key :: bytes
  link_path :: path_manager
  p2p_retry_ms :: nat

record shared_state =
  sh_device_id :: uuid
  sh_virtual_ip :: ipv4
  sh_hostname :: string
  sh_started_at :: nat
  sh_ip_route :: "ipv4 \<rightharpoonup> uuid"
  sh_peer_links :: "uuid \<rightharpoonup> peer_link"

type_synonym links = "(ipv4 \<rightharpoonup> uuid) \<times> (uuid \<rightharpoonup> peer_link)"

section \<open>Synchronising with the control service\<close>

datatype connect_error = ControlUnreachable | BadPeerAddress | RelayRegistration

definition link_of :: "peer_info \<Rightarrow> ipv4 \<Rightarrow> relay_client \<Rightarrow> peer_link" where
  "link_of p vip relay =
     \<lparr>link_hostname = pi_hostname p, link_vip = vip, link_public_key = pi_public_key p,
      link_path = path_new relay (SocketAddr (V4 vip) 0), p2p_retry_ms = 200\<rparr>"

text \<open>
  The loop over the peers; \<open>reg\<close> says for each peer whether the relay socket could be bound and
  the registration sent. The datagrams are the registrations.
\<close>

fun connect_loop ::
  "socket_addr \<Rightarrow> uuid \<Rightarrow> (uuid \<Rightarrow> bool \<times> bool) \<Rightarrow> peer_info list \<Rightarrow> links
     \<Rightarrow> ((connect_error + links) \<times> datagram list) panics" where
  "connect_loop raddr our reg [] acc = ret (Ok acc, [])"
| "connect_loop raddr our reg (p # ps) (route, links) =
     (if pi_device_id p = our then connect_loop raddr our reg ps (route, links)
      else (case parse_ipv4 (pi_ipv4 p) of
          None \<Rightarrow> ret (Err BadPeerAddress, [])
        | Some vip \<Rightarrow> do {
            r \<leftarrow> client_register (fst (reg (pi_device_id p))) (snd (reg (pi_device_id p)))
                   raddr our (pi_device_id p);
            case r of
              Err _ \<Rightarrow> ret (Err RelayRegistration, [])
            | Ok (relay, out) \<Rightarrow> do {
                (res, rest) \<leftarrow> connect_loop raddr our reg ps
                   (route(vip \<mapsto> pi_device_id p), links(pi_device_id p \<mapsto> link_of p vip relay));
                ret (res, out @ rest) } }))"

definition connect_peers ::
  "socket_addr \<Rightarrow> uuid \<Rightarrow> (uuid \<Rightarrow> bool \<times> bool) \<Rightarrow> peer_info list option
     \<Rightarrow> ((connect_error + links) \<times> datagram list) panics" where
  "connect_peers raddr our reg answer =
     (case answer of
        None \<Rightarrow> ret (Err ControlUnreachable, [])
      | Some ps \<Rightarrow> connect_loop raddr our reg ps (Map.empty, Map.empty))"

section \<open>Hole punching\<close>

definition p2p_token :: bytes where
  "p2p_token = [0x63, 0x6F, 0x6E, 0x6E, 0x65, 0x63, 0x74, 0x61, 0x6C, 0x73, 0x6F, 0x2D, 0x70, 0x32, 0x70]"

text \<open>
  One link: \<open>addrs\<close> are the peer's candidates, \<open>sock\<close> is the socket's future if it can be bound.
\<close>

definition attempt_p2p ::
  "socket_addr list \<Rightarrow> (nat \<Rightarrow> punch_event) option \<Rightarrow> peer_link \<Rightarrow> peer_link \<times> datagram list" where
  "attempt_p2p addrs sock lk =
     (if current_status (link_path lk) = Direct then (lk, [])
      else if addrs = [] then (lk, [])
      else (case sock of
          None \<Rightarrow> (lk, [])
        | Some future \<Rightarrow>
            (case punch future (map candidate_host addrs) p2p_token of
               (out, Some _) \<Rightarrow> (lk\<lparr>p2p_retry_ms := 200\<rparr>, out)
             | (out, None) \<Rightarrow> (lk\<lparr>p2p_retry_ms := min (p2p_retry_ms lk * 2) 30000\<rparr>, out))))"

definition attempt_p2p_for_all ::
  "(uuid \<Rightarrow> socket_addr list) \<Rightarrow> (uuid \<Rightarrow> (nat \<Rightarrow> punch_event) option) \<Rightarrow> (uuid \<rightharpoonup> peer_link)
     \<Rightarrow> (uuid \<rightharpoonup> peer_link)" where
  "attempt_p2p_for_all addrs socks links =
     (\<lambda>i. map_option (\<lambda>lk. fst (attempt_p2p (addrs i) (socks i) lk)) (links i))"

section \<open>Forwarding\<close>

text \<open>The forwarding buffer is as long as the MTU of the device, which the daemon does not set.\<close>

definition FORWARD_BUF :: nat where "FORWARD_BUF = unat DEFAULT_MTU"

lemma FORWARD_BUF_eq: "FORWARD_BUF = 1500"
  by (simp add: FORWARD_BUF_def DEFAULT_MTU_def)

definition forward_packet :: "shared_state \<Rightarrow> bytes \<Rightarrow> bool \<Rightarrow> datagram list panics" where
  "forward_packet s packet send_ok = do {
     let pkt = take FORWARD_BUF packet;
     dst \<leftarrow> parse_dst_ip pkt;
     case dst of
       None \<Rightarrow> ret []
     | Some ip \<Rightarrow>
         (case sh_ip_route s ip of
            None \<Rightarrow> ret []
          | Some pid \<Rightarrow>
              (case sh_peer_links s pid of
                 None \<Rightarrow> ret []
               | Some lk \<Rightarrow> do {
                   r \<leftarrow> path_send (link_path lk) pkt send_ok;
                   ret (case r of Ok out \<Rightarrow> out | Err _ \<Rightarrow> []) })) }"

section \<open>The running daemon\<close>

text \<open>
  A packet from the TUN device, or a turn of the periodic task (heartbeat, probes and candidate
  publication have no effect on this state; the pool's choice of the relay is \<open>raddr\<close>).
\<close>

datatype daemon_event =
    TunPacket bytes bool
  | Refresh socket_addr "uuid \<Rightarrow> bool \<times> bool" "peer_info list option"
      "uuid \<Rightarrow> socket_addr list" "uuid \<Rightarrow> (nat \<Rightarrow> punch_event) option"

fun daemon_step ::
  "(shared_state \<times> datagram list) panics \<Rightarrow> daemon_event \<Rightarrow> (shared_state \<times> datagram list) panics" where
  "daemon_step st (TunPacket packet send_ok) = do {
     (s, out) \<leftarrow> st;
     o' \<leftarrow> forward_packet s packet send_ok;
     ret (s, out @ o') }"
| "daemon_step st (Refresh raddr reg answer addrs socks) = do {
     (s, out) \<leftarrow> st;
     (r, o') \<leftarrow> connect_peers raddr (sh_device_id s) reg answer;
     case r of
       Err _ \<Rightarrow> ret (s, out @ o')
     | Ok (route, links) \<Rightarrow>
         ret (s\<lparr>sh_ip_route := route, sh_peer_links := attempt_p2p_for_all addrs socks links\<rparr>, out @ o') }"

section \<open>The status reply\<close>

record status_peer =
  sp_device_id :: string
  sp_virtual_ip :: string
  sp_hostname :: string
  sp_path :: string

definition path_text :: "path_status \<Rightarrow> string" where
  "path_text st = (case st of Direct \<Rightarrow> ''direct'' | Relay \<Rightarrow> ''relay'' | Probing \<Rightarrow> ''probing'')"

definition status_peer_of :: "peer_link \<Rightarrow> status_peer" where
  "status_peer_of lk =
     \<lparr>sp_device_id = link_hostname lk, sp_virtual_ip = show_ipv4 (link_vip lk),
      sp_hostname = link_hostname lk, sp_path = path_text (current_status (link_path lk))\<rparr>"

record status_response =
  sr_device_id :: uuid
  sr_virtual_ip :: string
  sr_hostname :: string
  sr_uptime_secs :: nat
  sr_peer_count :: nat
  sr_peers :: "status_peer list"

text \<open>\<open>values\<close> are the links in the order the hash map yields them.\<close>

definition handle_status :: "shared_state \<Rightarrow> peer_link list \<Rightarrow> nat \<Rightarrow> status_response" where
  "handle_status s values now =
     \<lparr>sr_device_id = sh_device_id s, sr_virtual_ip = show_ipv4 (sh_virtual_ip s),
      sr_hostname = sh_hostname s, sr_uptime_secs = now - sh_started_at s,
      sr_peer_count = length (map status_peer_of values), sr_peers = map status_peer_of values\<rparr>"

section \<open>Packets\<close>

text \<open>The destination used for forwarding is the one the ACL parser would see.\<close>

lemma parse_dst_ip_value:
  "parse_dst_ip packet =
     ret (if is_ipv4_packet packet then Some (pkt_dst_ip (packet_fields packet)) else None)"
proof (cases "length packet < 20")
  case True
  then show ?thesis by (simp add: parse_dst_ip_def is_ipv4_packet_def)
next
  case False
  then have "packet \<noteq> []" by auto
  with False show ?thesis
    by (simp add: parse_dst_ip_def is_ipv4_packet_def packet_fields_def Let_def ipv4_new_take_dst)
qed

lemma length_hex_encode: "length (hex_encode bs) = 2 * length bs"
  by (simp add: hex_encode_def length_concat o_def sum_list_triv)

section \<open>The routes a daemon learns\<close>

definition vip_of :: "peer_info \<Rightarrow> ipv4" where
  "vip_of p = the (parse_ipv4 (pi_ipv4 p))"

definition client_of :: "socket_addr \<Rightarrow> uuid \<Rightarrow> uuid \<Rightarrow> relay_client" where
  "client_of raddr our i = \<lparr>relay_addr = raddr, our_id = our, peer_id_of = i\<rparr>"

lemma client_register_ok:
  "\<exists>out. client_register True True raddr our i = ret (Ok (client_of raddr our i, out))"
  by (simp add: client_register_def hello_encoded client_of_def)

lemma connect_loop_ok:
  assumes "\<forall>p\<in>set ps. parse_ipv4 (pi_ipv4 p) \<noteq> None"
    and "distinct (map pi_device_id ps)" and "distinct (map vip_of ps)"
    and "\<forall>i. reg i = (True, True)"
  shows "\<exists>route' links' out.
     connect_loop raddr our reg ps (route, links) = ret (Ok (route', links'), out)
     \<and> (\<forall>ip. route' ip =
           (case find (\<lambda>p. pi_device_id p \<noteq> our \<and> vip_of p = ip) ps of
              Some p \<Rightarrow> Some (pi_device_id p) | None \<Rightarrow> route ip))
     \<and> (\<forall>i. links' i =
           (case find (\<lambda>p. pi_device_id p = i \<and> i \<noteq> our) ps of
              Some p \<Rightarrow> Some (link_of p (vip_of p) (client_of raddr our i)) | None \<Rightarrow> links i))"
  using assms(1-3)
proof (induction ps arbitrary: route links)
  case Nil
  show ?case by simp
next
  case (Cons p ps)
  have prems: "\<forall>p\<in>set ps. parse_ipv4 (pi_ipv4 p) \<noteq> None" "distinct (map pi_device_id ps)"
      "distinct (map vip_of ps)"
    using Cons.prems by simp_all
  show ?case
  proof (cases "pi_device_id p = our")
    case True
    have "find (\<lambda>q. pi_device_id q = i \<and> i \<noteq> our) (p # ps) = find (\<lambda>q. pi_device_id q = i \<and> i \<noteq> our) ps" for i
      using True by auto
    with True Cons.IH [OF prems, of route links] show ?thesis by simp
  next
    case False
    let ?i = "pi_device_id p"
    obtain vip where vip: "parse_ipv4 (pi_ipv4 p) = Some vip" "vip_of p = vip"
      using Cons.prems(1) by (auto simp: vip_of_def)
    obtain out where reg: "client_register (fst (reg ?i)) (snd (reg ?i)) raddr our ?i
        = ret (Ok (client_of raddr our ?i, out))"
      using client_register_ok [of raddr our ?i] assms(4) by auto
    let ?route = "route(vip \<mapsto> ?i)" and ?links = "links(?i \<mapsto> link_of p vip (client_of raddr our ?i))"
    obtain route' links' rest where IH:
        "connect_loop raddr our reg ps (?route, ?links) = ret (Ok (route', links'), rest)"
        "\<And>ip. route' ip = (case find (\<lambda>p. pi_device_id p \<noteq> our \<and> vip_of p = ip) ps of
              Some p \<Rightarrow> Some (pi_device_id p) | None \<Rightarrow> ?route ip)"
        "\<And>i. links' i = (case find (\<lambda>p. pi_device_id p = i \<and> i \<noteq> our) ps of
              Some p \<Rightarrow> Some (link_of p (vip_of p) (client_of raddr our i)) | None \<Rightarrow> ?links i)"
      using Cons.IH [OF prems, of ?route ?links] by blast
    have loop: "connect_loop raddr our reg (p # ps) (route, links) = ret (Ok (route', links'), out @ rest)"
      using False vip reg IH(1) by simp
    have fresh: "find (\<lambda>q. pi_device_id q \<noteq> our \<and> vip_of q = vip) ps = None"
        "find (\<lambda>q. pi_device_id q = ?i \<and> ?i \<noteq> our) ps = None"
      using Cons.prems(2,3) vip(2) by (auto simp: find_None_iff image_iff)
    show ?thesis
    proof (intro exI conjI allI)
      show "connect_loop raddr our reg (p # ps) (route, links) = ret (Ok (route', links'), out @ rest)"
        by (rule loop)
      show "route' ip = (case find (\<lambda>p. pi_device_id p \<noteq> our \<and> vip_of p = ip) (p # ps) of
              Some p \<Rightarrow> Some (pi_device_id p) | None \<Rightarrow> route ip)" for ip
        using False vip(2) fresh(1) by (auto simp: IH(2) split: option.split)
      show "links' i = (case find (\<lambda>p. pi_device_id p = i \<and> i \<noteq> our) (p # ps) of
              Some p \<Rightarrow> Some (link_of p (vip_of p) (client_of raddr our i)) | None \<Rightarrow> links i)" for i
        using False vip(2) fresh(2) by (auto simp: IH(3) split: option.split)
    qed
  qed
qed

lemma find_Some_unique:
  assumes "x \<in> set xs" and "P x" and "\<And>y. y \<in> set xs \<Longrightarrow> P y \<Longrightarrow> y = x"
  shows "find P xs = Some x"
proof (cases "find P xs")
  case None
  then have "\<not> P x" using assms(1) unfolding find_None_iff by blast
  with assms(2) show ?thesis by contradiction
next
  case (Some y)
  then have "y \<in> set xs" "P y" by (auto simp: find_Some_iff)
  with assms(3) Some show ?thesis by simp
qed

text \<open>The reply of \<open>handle_peers\<close> for a list of rows, and the routes and links from it.\<close>

definition peer_view :: "int \<Rightarrow> device_row \<Rightarrow> peer_info" where
  "peer_view now r =
     \<lparr>pi_device_id = row_id r, pi_ipv4 = row_ipv4 r, pi_public_key = row_key r,
      pi_hostname = row_host r, pi_last_seen_secs = i64_saturating_sub now (row_seen r)\<rparr>"

lemma peer_view_simps [simp]:
  "pi_device_id (peer_view now r) = row_id r" "pi_ipv4 (peer_view now r) = row_ipv4 r"
  by (simp_all add: peer_view_def)

lemma vip_of_view:
  "\<exists>ip. row_ipv4 r = show_ipv4 ip \<Longrightarrow> vip_of (peer_view now r) = ip \<longleftrightarrow> row_ipv4 r = show_ipv4 ip"
  by (auto simp: vip_of_def)

lemma route_of_rows:
  fixes rows :: "device_row list"
  assumes valid: "\<forall>r\<in>set rows. \<exists>ip. row_ipv4 r = show_ipv4 ip" and "inj_on row_ipv4 (set rows)"
  shows "(case find (\<lambda>p. pi_device_id p \<noteq> our \<and> vip_of p = ip) (map (peer_view now) rows) of
            Some p \<Rightarrow> Some (pi_device_id p) | None \<Rightarrow> None) = Some i
     \<longleftrightarrow> (\<exists>r\<in>set rows. row_id r = i \<and> i \<noteq> our \<and> row_ipv4 r = show_ipv4 ip)"
    (is "?lhs \<longleftrightarrow> ?rhs")
proof
  assume ?lhs
  then obtain p where p: "find (\<lambda>p. pi_device_id p \<noteq> our \<and> vip_of p = ip) (map (peer_view now) rows) = Some p"
      "pi_device_id p = i" by (auto split: option.splits)
  then have q: "p \<in> set (map (peer_view now) rows)" "pi_device_id p \<noteq> our" "vip_of p = ip"
    unfolding find_Some_iff by auto
  from q(1) obtain r where r: "r \<in> set rows" "p = peer_view now r" by auto
  with valid vip_of_view [of r now ip] q(3) have "row_ipv4 r = show_ipv4 ip" by blast
  with r p(2) q(2) show ?rhs by auto
next
  assume ?rhs
  then obtain r where r: "r \<in> set rows" "row_id r = i" "i \<noteq> our" "row_ipv4 r = show_ipv4 ip" by blast
  have "find (\<lambda>p. pi_device_id p \<noteq> our \<and> vip_of p = ip) (map (peer_view now) rows) = Some (peer_view now r)"
  proof (rule find_Some_unique)
    show "peer_view now r \<in> set (map (peer_view now) rows)" using r(1) by simp
    show "pi_device_id (peer_view now r) \<noteq> our \<and> vip_of (peer_view now r) = ip"
      using r vip_of_view [of r now ip] by auto
    fix y assume y: "y \<in> set (map (peer_view now) rows)" "pi_device_id y \<noteq> our \<and> vip_of y = ip"
    then obtain x where x: "x \<in> set rows" "y = peer_view now x" by auto
    with valid vip_of_view [of x now ip] y(2) have "row_ipv4 x = row_ipv4 r" using r(4) by metis
    with inj_onD [OF assms(2)] x r(1) show "y = peer_view now r" by metis
  qed
  with r show ?lhs by simp
qed

lemma connect_rows:
  fixes rows :: "device_row list"
  assumes valid: "\<forall>r\<in>set rows. \<exists>ip. row_ipv4 r = show_ipv4 ip"
    and "distinct rows" and "inj_on row_id (set rows)" and inj: "inj_on row_ipv4 (set rows)"
    and reg: "\<forall>i. reg i = (True, True)"
  shows "\<exists>route links out.
     connect_peers raddr our reg (Some (map (peer_view now) rows)) = ret (Ok (route, links), out)
     \<and> (\<forall>ip i. route ip = Some i \<longleftrightarrow>
          (\<exists>r\<in>set rows. row_id r = i \<and> i \<noteq> our \<and> row_ipv4 r = show_ipv4 ip))
     \<and> (\<forall>i. (\<exists>lk. links i = Some lk) \<longleftrightarrow> (\<exists>r\<in>set rows. row_id r = i \<and> i \<noteq> our))
     \<and> (\<forall>i lk. links i = Some lk \<longrightarrow> pm_relay (link_path lk) = client_of raddr our i)"
proof -
  let ?ps = "map (peer_view now) rows"
  have vip: "row_ipv4 x = row_ipv4 y"
    if eq: "vip_of (peer_view now x) = vip_of (peer_view now y)" and x: "x \<in> set rows" and y: "y \<in> set rows"
    for x y
  proof -
    from bspec [OF valid x] obtain a where a: "row_ipv4 x = show_ipv4 a" ..
    from bspec [OF valid y] obtain b where b: "row_ipv4 y = show_ipv4 b" ..
    from eq a b show ?thesis by (simp add: vip_of_def)
  qed
  have p1: "\<forall>p\<in>set ?ps. parse_ipv4 (pi_ipv4 p) \<noteq> None" using valid by fastforce
  have p2: "distinct (map pi_device_id ?ps)" using assms(2,3) by (simp add: distinct_map o_def)
  have "inj_on (\<lambda>r. vip_of (peer_view now r)) (set rows)"
    by (rule inj_onI) (use vip inj_onD [OF inj] in blast)
  then have p3: "distinct (map vip_of ?ps)" using assms(2) by (simp add: distinct_map o_def)
  obtain route links out where c:
      "connect_loop raddr our reg ?ps (Map.empty, Map.empty) = ret (Ok (route, links), out)"
      "\<And>ip. route ip = (case find (\<lambda>p. pi_device_id p \<noteq> our \<and> vip_of p = ip) ?ps of
              Some p \<Rightarrow> Some (pi_device_id p) | None \<Rightarrow> None)"
      "\<And>i. links i = (case find (\<lambda>p. pi_device_id p = i \<and> i \<noteq> our) ?ps of
              Some p \<Rightarrow> Some (link_of p (vip_of p) (client_of raddr our i)) | None \<Rightarrow> None)"
    using connect_loop_ok [OF p1 p2 p3 reg, of raddr our Map.empty Map.empty] by auto
  have R: "route ip = Some i \<longleftrightarrow> (\<exists>r\<in>set rows. row_id r = i \<and> i \<noteq> our \<and> row_ipv4 r = show_ipv4 ip)" for ip i
    unfolding c(2) by (rule route_of_rows [OF valid inj])
  have L: "(\<exists>lk. links i = Some lk) \<longleftrightarrow> (\<exists>r\<in>set rows. row_id r = i \<and> i \<noteq> our)" for i
  proof -
    have "(\<exists>lk. links i = Some lk) \<longleftrightarrow> find (\<lambda>p. pi_device_id p = i \<and> i \<noteq> our) ?ps \<noteq> None"
      unfolding c(3) by (cases "find (\<lambda>p. pi_device_id p = i \<and> i \<noteq> our) ?ps") simp_all
    also have "\<dots> \<longleftrightarrow> (\<exists>p\<in>set ?ps. pi_device_id p = i \<and> i \<noteq> our)" unfolding find_None_iff by blast
    finally show ?thesis by simp
  qed
  have P: "pm_relay (link_path lk) = client_of raddr our i" if "links i = Some lk" for i lk
    using that unfolding c(3) by (auto simp: link_of_def path_new_def split: option.splits)
  have "connect_peers raddr our reg (Some ?ps) = ret (Ok (route, links), out)"
    by (simp add: connect_peers_def c(1))
  with R L P show ?thesis by blast
qed

lemma connect_approved_peers_fact:
  assumes "db_inv (tables s)" and "faults s = []"
    and "fst (run_state handle_peers s) = ret (Ok ps)" and "\<forall>i. reg i = (True, True)"
  shows "\<exists>route links out. connect_peers raddr our reg (Some ps) = ret (Ok (route, links), out)
     \<and> (\<forall>ip i. route ip = Some i \<longleftrightarrow>
          (\<exists>r\<in>set (devices (tables s)). row_status r = 1 \<and> row_id r = i \<and> i \<noteq> our \<and> row_ipv4 r = show_ipv4 ip))
     \<and> (\<forall>i. (\<exists>lk. links i = Some lk) \<longleftrightarrow>
          (\<exists>r\<in>set (devices (tables s)). row_status r = 1 \<and> row_id r = i \<and> i \<noteq> our))
     \<and> (\<forall>i lk. links i = Some lk \<longrightarrow> pm_relay (link_path lk) = client_of raddr our i)"
proof -
  let ?rows = "sort_key row_created (filter (\<lambda>r. row_status r = 1) (devices (tables s)))"
  note uniq = db_invD(1) [OF assms(1)]
  have ps: "ps = map (peer_view (now_of s)) ?rows"
    using peers_reply [OF assms(1,2)] assms(3) by (simp add: peer_view_def)
  have "\<forall>r\<in>set ?rows. \<exists>ip. row_ipv4 r = show_ipv4 ip"
    using db_invD(2) [OF assms(1)] by (auto simp: row_ok_def)
  moreover have "distinct ?rows" "inj_on row_id (set ?rows)" "inj_on row_ipv4 (set ?rows)"
    using uniq by (auto simp: unique_devices_def distinct_map inj_on_def)
  ultimately have rows: "\<exists>route links out.
     connect_peers raddr our reg (Some ps) = ret (Ok (route, links), out)
     \<and> (\<forall>ip i. route ip = Some i \<longleftrightarrow>
          (\<exists>r\<in>set ?rows. row_id r = i \<and> i \<noteq> our \<and> row_ipv4 r = show_ipv4 ip))
     \<and> (\<forall>i. (\<exists>lk. links i = Some lk) \<longleftrightarrow> (\<exists>r\<in>set ?rows. row_id r = i \<and> i \<noteq> our))
     \<and> (\<forall>i lk. links i = Some lk \<longrightarrow> pm_relay (link_path lk) = client_of raddr our i)"
    unfolding ps using assms(4) by (intro connect_rows)
  have approved: "(\<exists>r\<in>set ?rows. Q r) \<longleftrightarrow> (\<exists>r\<in>set (devices (tables s)). row_status r = 1 \<and> Q r)" for Q
    by auto
  from rows show ?thesis unfolding approved .
qed

text \<open>
  C11: The daemon's routes are the network the control service approved: from the peer list of a
  consistent store, with all relay registrations sent, the daemon routes an address exactly when
  it is the address of an Approved device other than itself, and to that device; each such
  device, and no other, gets a link through a relay client that addresses it.
\<close>

theorem connect_approved_peers:
  assumes "db_inv (tables s)" and "faults s = []"
    and "fst (run_state handle_peers s) = ret (Ok ps)" and "\<forall>i. reg i = (True, True)"
  shows "\<exists>route links out. connect_peers raddr our reg (Some ps) = ret (Ok (route, links), out)
     \<and> (\<forall>ip i. route ip = Some i \<longleftrightarrow>
          (\<exists>r\<in>set (devices (tables s)). row_status r = 1 \<and> row_id r = i \<and> i \<noteq> our \<and> row_ipv4 r = show_ipv4 ip))
     \<and> (\<forall>i. (\<exists>lk. links i = Some lk) \<longleftrightarrow>
          (\<exists>r\<in>set (devices (tables s)). row_status r = 1 \<and> row_id r = i \<and> i \<noteq> our))
     \<and> (\<forall>i lk. links i = Some lk \<longrightarrow> pm_relay (link_path lk) = client_of raddr our i)"
  using assms by (rule connect_approved_peers_fact)

theorem connect_approved_peers_witness:
  "\<exists>ps route links out. fst (run_state handle_peers two_devices) = ret (Ok ps)
     \<and> connect_peers addr_a 1 (\<lambda>_. (True, True)) (Some ps) = ret (Ok (route, links), out)
     \<and> route (ipv4_new 100 64 0 1) = Some 2 \<and> route (ipv4_new 100 64 0 0) = None"
proof -
  obtain ps where ps: "fst (run_state handle_peers two_devices) = ret (Ok ps)"
    using peers_reply [OF two_devices_ok] by blast
  obtain route links out where c:
      "connect_peers addr_a 1 (\<lambda>_. (True, True)) (Some ps) = ret (Ok (route, links), out)"
      "\<And>ip i. route ip = Some i \<longleftrightarrow> (\<exists>r\<in>set (devices (tables two_devices)).
          row_status r = 1 \<and> row_id r = i \<and> i \<noteq> 1 \<and> row_ipv4 r = show_ipv4 ip)"
    using connect_approved_peers [OF two_devices_ok ps, of "\<lambda>_. (True, True)" addr_a 1] by auto
  have "route (ipv4_new 100 64 0 1) = Some 2" "\<And>i. route (ipv4_new 100 64 0 0) \<noteq> Some i"
    by (simp_all add: c(2) show_sample_ips two_devices_def laptop_row_def phone_row_def)
  then have "route (ipv4_new 100 64 0 0) = None" by (cases "route (ipv4_new 100 64 0 0)") auto
  with ps c(1) \<open>route (ipv4_new 100 64 0 1) = Some 2\<close> show ?thesis by blast
qed

section \<open>What leaves the daemon\<close>

lemma path_send_value:
  "path_send pm p ok =
     (if length p \<le> MAX_PAYLOAD
      then ret (if ok then Ok [(relay_addr (pm_relay pm),
                   the (case encode (frame_data (our_id (pm_relay pm)) (peer_id_of (pm_relay pm)) p) of
                          Ok bs \<Rightarrow> Some bs | Err _ \<Rightarrow> None))]
                else Err (TunnelIo IoOther))
      else panic)"
proof (cases "length p \<le> MAX_PAYLOAD")
  case True
  then obtain bs where "encode (frame_data (our_id (pm_relay pm)) (peer_id_of (pm_relay pm)) p) = Ok bs"
    using encode_Ok_iff [of "frame_data (our_id (pm_relay pm)) (peer_id_of (pm_relay pm)) p"]
    by (auto simp: frame_data_def)
  with True show ?thesis by (simp add: path_send_def client_send_def)
next
  case False
  then have "client_send (pm_relay pm) p ok = panic"
    using client_send_spec [of "pm_relay pm" p ok] by simp
  with False show ?thesis by (simp add: path_send_def)
qed

lemma forward_packet_no_panic: "forward_packet s packet ok \<noteq> panic"
proof -
  have "length (take FORWARD_BUF packet) \<le> MAX_PAYLOAD"
    by (simp add: FORWARD_BUF_eq MAX_PAYLOAD_def)
  then show ?thesis
    by (simp add: forward_packet_def parse_dst_ip_value path_send_value Let_def split: option.split)
qed

text \<open>
  A packet from the TUN device goes out exactly when it is an IPv4 packet for an address the
  daemon routes to a linked peer: then one datagram goes to that peer's relay, a Data frame
  for the peer whose payload is the packet as it came from the device.
\<close>

theorem daemon_forwards:
  assumes "length packet \<le> FORWARD_BUF"
  shows "(case (if is_ipv4_packet packet then sh_ip_route s (pkt_dst_ip (packet_fields packet)) else None)
             \<bind> sh_peer_links s of
            None \<Rightarrow> forward_packet s packet True = ret []
          | Some lk \<Rightarrow>
              \<exists>bs. forward_packet s packet True = ret [(relay_addr (pm_relay (link_path lk)), bs)]
                 \<and> decode bs = ret (Ok (frame_data (our_id (pm_relay (link_path lk)))
                                   (peer_id_of (pm_relay (link_path lk))) packet)))"
proof -
  have pkt: "take FORWARD_BUF packet = packet" using assms by simp
  have small: "length packet \<le> MAX_PAYLOAD" using assms by (simp add: FORWARD_BUF_eq MAX_PAYLOAD_def)
  have send: "\<exists>bs. path_send pm packet True = ret (Ok [(relay_addr (pm_relay pm), bs)])
      \<and> decode bs = ret (Ok (frame_data (our_id (pm_relay pm)) (peer_id_of (pm_relay pm)) packet))" for pm
    using client_send_spec [of "pm_relay pm" packet True] small by (auto simp: path_send_def)
  show ?thesis
  proof (cases "(if is_ipv4_packet packet then sh_ip_route s (pkt_dst_ip (packet_fields packet)) else None)
             \<bind> sh_peer_links s")
    case None
    then show ?thesis
      by (auto simp: forward_packet_def parse_dst_ip_value pkt Let_def split: if_splits option.splits bind_splits)
  next
    case (Some lk)
    with send [of "link_path lk"] show ?thesis
      by (auto simp: forward_packet_def parse_dst_ip_value pkt Let_def bind_eq_Some_conv split: if_splits)
  qed
qed

section \<open>The daemon over time\<close>

definition link_inv :: "peer_link \<Rightarrow> bool" where
  "link_inv lk \<longleftrightarrow> current_status (link_path lk) = Relay \<and> 200 \<le> p2p_retry_ms lk \<and> p2p_retry_ms lk \<le> 30000"

definition daemon_inv :: "(shared_state \<times> datagram list) panics \<Rightarrow> bool" where
  "daemon_inv st \<longleftrightarrow> (case st of
      None \<Rightarrow> False
    | Some (s, _) \<Rightarrow> \<forall>i lk. sh_peer_links s i = Some lk \<longrightarrow> link_inv lk)"

lemma link_of_inv: "link_inv (link_of p vip relay)"
  by (simp add: link_inv_def link_of_def path_new_def current_status_def)

lemma attempt_p2p_inv: "link_inv lk \<Longrightarrow> link_inv (fst (attempt_p2p addrs sock lk))"
  by (auto simp: attempt_p2p_def link_inv_def split: option.split prod.split)

lemma connect_loop_links:
  assumes "\<forall>i lk. links i = Some lk \<longrightarrow> link_inv lk"
  shows "\<exists>r out. connect_loop raddr our reg ps (route, links) = ret (r, out)
     \<and> (\<forall>route' links'. r = Ok (route', links') \<longrightarrow> (\<forall>i lk. links' i = Some lk \<longrightarrow> link_inv lk))"
  using assms
proof (induction ps arbitrary: route links)
  case (Cons p ps)
  let ?i = "pi_device_id p"
  show ?case
  proof (cases "?i = our \<or> parse_ipv4 (pi_ipv4 p) = None")
    case True
    then show ?thesis using Cons.IH [OF Cons.prems, of route] by auto
  next
    case False
    then obtain vip where vip: "parse_ipv4 (pi_ipv4 p) = Some vip" by auto
    obtain r where r: "client_register (fst (reg ?i)) (snd (reg ?i)) raddr our ?i = ret r"
      using client_register_no_panic by (metis not_None_eq)
    show ?thesis
    proof (cases r)
      case (Inl e)
      with False vip r show ?thesis by simp
    next
      case (Inr ro)
      obtain relay out where ro: "ro = (relay, out)" by fastforce
      have "\<forall>i lk. (links(?i \<mapsto> link_of p vip relay)) i = Some lk \<longrightarrow> link_inv lk"
        using Cons.prems link_of_inv by auto
      from Cons.IH [OF this, of "route(vip \<mapsto> ?i)"] obtain r' out' where
          "connect_loop raddr our reg ps (route(vip \<mapsto> ?i), links(?i \<mapsto> link_of p vip relay)) = ret (r', out')"
          "\<forall>route' links'. r' = Ok (route', links') \<longrightarrow> (\<forall>i lk. links' i = Some lk \<longrightarrow> link_inv lk)"
        by blast
      with False vip r Inr ro show ?thesis by (simp del: fun_upd_apply)
    qed
  qed
qed simp

lemma connect_peers_links:
  "\<exists>r out. connect_peers raddr our reg answer = ret (r, out)
     \<and> (\<forall>route' links'. r = Ok (route', links') \<longrightarrow> (\<forall>i lk. links' i = Some lk \<longrightarrow> link_inv lk))"
proof (cases answer)
  case None
  then show ?thesis by (simp add: connect_peers_def)
next
  case (Some ps)
  have "\<forall>i lk. (Map.empty :: uuid \<rightharpoonup> peer_link) i = Some lk \<longrightarrow> link_inv lk" by simp
  from connect_loop_links [OF this, of raddr our reg ps Map.empty] Some show ?thesis
    by (simp add: connect_peers_def)
qed

interpretation daemon_system: step_system daemon_step daemon_inv
proof
  fix st e
  assume inv: "daemon_inv st"
  then obtain s out where st: "st = ret (s, out)" and links: "\<forall>i lk. sh_peer_links s i = Some lk \<longrightarrow> link_inv lk"
    by (auto simp: daemon_inv_def split: option.splits)
  show "daemon_inv (daemon_step st e)"
  proof (cases e)
    case (TunPacket packet ok)
    obtain o' where "forward_packet s packet ok = ret o'"
      using forward_packet_no_panic by (metis not_None_eq)
    with TunPacket st links show ?thesis by (simp add: daemon_inv_def)
  next
    case (Refresh raddr reg answer addrs socks)
    obtain r o' where r: "connect_peers raddr (sh_device_id s) reg answer = ret (r, o')"
        "\<forall>route' links'. r = Ok (route', links') \<longrightarrow> (\<forall>i lk. links' i = Some lk \<longrightarrow> link_inv lk)"
      using connect_peers_links by blast
    show ?thesis
    proof (cases r)
      case (Inl e')
      with Refresh r(1) st links show ?thesis by (simp add: daemon_inv_def)
    next
      case (Inr rl)
      obtain route links' where rl: "rl = (route, links')" by fastforce
      with r(2) Inr have "\<forall>i lk. links' i = Some lk \<longrightarrow> link_inv lk" by simp
      with Refresh r(1) st Inr rl show ?thesis
        by (auto simp: daemon_inv_def attempt_p2p_for_all_def attempt_p2p_inv)
    qed
  qed
qed

text \<open>
  However long the daemon runs, whatever its peers, the control service and the network do:
  it does not panic, no link ever leaves the relay (the hole punching of
  \<open>attempt_p2p_for_all\<close> never makes a path direct, even when it succeeds), every peer is
  reported as \<open>relay\<close>, and the retry interval stays between 200 and 30000 milliseconds.
\<close>

theorem daemon_never_direct:
  assumes "\<forall>i. sh_peer_links s i = None"
  shows "\<exists>s' out. foldl daemon_step (ret (s, [])) es = ret (s', out)
     \<and> (\<forall>i lk. sh_peer_links s' i = Some lk \<longrightarrow>
           sp_path (status_peer_of lk) = ''relay'' \<and> 200 \<le> p2p_retry_ms lk \<and> p2p_retry_ms lk \<le> 30000)"
proof -
  have "daemon_inv (ret (s, []))" using assms by (simp add: daemon_inv_def)
  then have "daemon_inv (foldl daemon_step (ret (s, [])) es)" by (rule daemon_system.run_inv)
  then show ?thesis
    by (auto simp: daemon_inv_def link_inv_def status_peer_of_def path_text_def split: option.splits)
qed

theorem daemon_never_direct_witness:
  "\<exists>s' out. foldl daemon_step (ret (\<lparr>sh_device_id = 1, sh_virtual_ip = 5, sh_hostname = ''a'', sh_started_at = 0,
       sh_ip_route = Map.empty, sh_peer_links = Map.empty\<rparr>, []))
     [Refresh raddr (\<lambda>_. (True, True)) (Some [peer_view 9 phone_row]) (\<lambda>_. [raddr]) (\<lambda>_. Some (\<lambda>_. PunchReceived [1] raddr)),
      TunPacket [0x45] True] = ret (s', out)"
  using daemon_never_direct [of "\<lparr>sh_device_id = 1, sh_virtual_ip = 5, sh_hostname = ''a'', sh_started_at = 0,
       sh_ip_route = Map.empty, sh_peer_links = Map.empty\<rparr>"
     "[Refresh raddr (\<lambda>_. (True, True)) (Some [peer_view 9 phone_row]) (\<lambda>_. [raddr]) (\<lambda>_. Some (\<lambda>_. PunchReceived [1] raddr)),
      TunPacket [0x45] True]"]
  by (auto simp del: foldl_Cons daemon_step.simps)

definition sample_packet :: bytes where
  "sample_packet = [0x45] @ replicate 15 0 @ [100, 64, 0, 1]"

definition sample_state :: shared_state where
  "sample_state = \<lparr>sh_device_id = 1, sh_virtual_ip = ipv4_new 100 64 0 0, sh_hostname = ''laptop'', sh_started_at = 0,
     sh_ip_route = [ipv4_new 100 64 0 1 \<mapsto> 2],
     sh_peer_links = [2 \<mapsto> link_of (peer_view 9 phone_row) (ipv4_new 100 64 0 1)
                            (client_of (SocketAddr (V4 0) 33478) 1 2)]\<rparr>"

theorem daemon_forwards_witness:
  "\<exists>bs. forward_packet sample_state sample_packet True = ret [(SocketAddr (V4 0) 33478, bs)]
     \<and> decode bs = ret (Ok (frame_data 1 2 sample_packet))"
proof -
  have "length sample_packet \<le> FORWARD_BUF" by (simp add: sample_packet_def FORWARD_BUF_eq)
  moreover have "is_ipv4_packet sample_packet" by (simp add: is_ipv4_packet_def sample_packet_def)
  moreover have "pkt_dst_ip (packet_fields sample_packet) = ipv4_new 100 64 0 1"
    by (simp add: packet_fields_def sample_packet_def ipv4_new_def)
  ultimately show ?thesis
    using daemon_forwards [of sample_packet sample_state]
    by (simp add: sample_state_def link_of_def path_new_def client_of_def)
qed

end
