(* ===== verification/Daemon_Run.thy ===== *)
theory Daemon_Run
  imports Text_Format Stun Daemon
begin

text \<open>
  The daemon as a running program, \<open>apps/daemon/src/main.rs\<close>: \<open>main\<close> from the registration to the
  shared state, the saved configuration, candidate discovery and exchange, the forwarding task
  on the TUN device, the periodic task with its relay pool, and the diagnostics. The clock, the
  network and the device enter as outcomes. The text of HTTP statuses and of errors, which other
  crates produce, is part of these outcomes.
\<close>

section \<open>Candidates\<close>

definition discover_candidates ::
  "(ipv6 \<Rightarrow> u16 \<Rightarrow> string) \<Rightarrow> bool \<Rightarrow> stun_error + socket_addr \<Rightarrow> socket_addr option \<Rightarrow> string list" where
  "discover_candidates show6 bound discovered local =
     (if bound
      then (case discovered of Ok addr \<Rightarrow> [show_socket show6 addr] | Err _ \<Rightarrow> [])
           @ (case local of Some addr \<Rightarrow> [show_socket show6 addr] | None \<Rightarrow> [])
      else [])"

text \<open>The request that is posted, if any; its answer is ignored.\<close>

definition publish_candidates :: "uuid \<Rightarrow> string list \<Rightarrow> request option" where
  "publish_candidates i cs = (if cs = [] then None else Some (PublishCandidatesReq i cs))"

text \<open>The answer: none, a body that is not a candidate list, or the list.\<close>

definition get_peer_candidates ::
  "(string \<Rightarrow> (ipv6 \<times> u16) option) \<Rightarrow> string list option option \<Rightarrow> socket_addr list" where
  "get_peer_candidates parse6 resp =
     (case resp of
        Some (Some cs) \<Rightarrow> List.map_filter (parse_socket parse6) cs
      | _ \<Rightarrow> [])"

section \<open>Starting\<close>

record daemon_args =
  da_control_url :: string
  da_stun_server :: socket_addr
  da_relay_servers :: "socket_addr list"
  da_hostname :: string
  da_tun_name :: string

record daemon_config =
  cfg_device_id :: uuid
  cfg_public_key_hex :: string
  cfg_virtual_ip :: string
  cfg_control_url :: string
  cfg_stun_server :: string
  cfg_relay_servers :: "string list"
  cfg_hostname :: string

definition config_of ::
  "(ipv6 \<Rightarrow> u16 \<Rightarrow> string) \<Rightarrow> daemon_args \<Rightarrow> bytes \<Rightarrow> uuid \<Rightarrow> ipv4 \<Rightarrow> daemon_config" where
  "config_of show6 args pubkey own_id own_ip =
     \<lparr>cfg_device_id = own_id, cfg_public_key_hex = hex_encode pubkey, cfg_virtual_ip = show_ipv4 own_ip,
      cfg_control_url = da_control_url args, cfg_stun_server = show_socket show6 (da_stun_server args),
      cfg_relay_servers = map (show_socket show6) (da_relay_servers args), cfg_hostname = da_hostname args\<rparr>"

text \<open>
  \<open>save\<close> and \<open>load\<close>: the file and the text of a configuration are arguments (\<open>serde_json\<close>);
  \<open>None\<close> stands for a value that cannot be printed and for a file that is not there.
\<close>

definition config_save ::
  "(daemon_config \<Rightarrow> string option) \<Rightarrow> bool \<Rightarrow> daemon_config \<Rightarrow> string option \<Rightarrow> string option" where
  "config_save to_json write_ok cfg file =
     (case to_json cfg of Some json \<Rightarrow> (if write_ok then Some json else file) | None \<Rightarrow> file)"

definition config_load :: "(string \<Rightarrow> daemon_config option) \<Rightarrow> string option \<Rightarrow> daemon_config option" where
  "config_load from_json file = do { data \<leftarrow> file; from_json data }"

record 'd startup_net =
  sn_registration :: "(uuid \<times> string) option"
  sn_peers :: "peer_info list option"
  sn_registers :: "uuid \<Rightarrow> bool \<times> bool"
  sn_tun :: "tun2_call list \<Rightarrow> string + 'd"
  sn_candidates :: "uuid \<Rightarrow> socket_addr list"
  sn_punch :: "uuid \<Rightarrow> (nat \<Rightarrow> punch_event) option"
  sn_now :: nat

datatype main_error = RegistrationFailed | BadVirtualIp | PeerSync connect_error | TunFailed tun_error

text \<open>The task of the status interface: not yet run, serving, or ended by a panic.\<close>

datatype api_task = ApiSpawned | ApiListening | ApiPanicked

record 'd daemon =
  dm_shared :: shared_state
  dm_pool :: relay_pool
  dm_tun :: "'d tun_device"
  dm_api :: api_task

text \<open>
  \<open>main\<close> up to the shared state: its result, the configuration it saves and the registrations it
  sends to the relay. The status of the registration is only logged.
\<close>

definition daemon_start ::
  "(ipv6 \<Rightarrow> u16 \<Rightarrow> string) \<Rightarrow> daemon_args \<Rightarrow> 'k key_pair \<Rightarrow> 'd startup_net
     \<Rightarrow> ((main_error + 'd daemon) \<times> daemon_config option \<times> datagram list) panics" where
  "daemon_start show6 args keypair net =
     (case sn_registration net of
        None \<Rightarrow> ret (Err RegistrationFailed, None, [])
      | Some (own_id, address) \<Rightarrow>
          (case parse_ipv4 address of
             None \<Rightarrow> ret (Err BadVirtualIp, None, [])
           | Some own_ip \<Rightarrow> do {
               let cfg = config_of show6 args (public_key_bytes keypair) own_id own_ip;
               pool \<leftarrow> pool_new (da_relay_servers args);
               raddr \<leftarrow> active_addr pool;
               (r, out) \<leftarrow> connect_peers raddr own_id (sn_registers net) (sn_peers net);
               case r of
                 Err e \<Rightarrow> ret (Err (PeerSync e), Some cfg, out)
               | Ok (route, links) \<Rightarrow>
                   (case tun_create (sn_tun net)
                           (with_name (da_tun_name args) (tun_new own_ip (ipv4_new 255 255 255 0))) of
                      Err e \<Rightarrow> ret (Err (TunFailed e), Some cfg, out)
                    | Ok tun \<Rightarrow>
                        ret (Ok \<lparr>dm_shared = \<lparr>sh_device_id = own_id, sh_virtual_ip = own_ip,
                                   sh_hostname = da_hostname args, sh_started_at = sn_now net,
                                   sh_ip_route = route,
                                   sh_peer_links = attempt_p2p_for_all (sn_candidates net) (sn_punch net) links\<rparr>,
                                 dm_pool = pool, dm_tun = tun, dm_api = ApiSpawned\<rparr>, Some cfg, out)) }))"

section \<open>The tasks\<close>

text \<open>
  A packet the TUN device delivers (\<open>None\<close> an error) and whether the relay socket takes it, or a
  tick of the periodic task: what the probes meet, the answer of the control service, the
  registrations, and the attempts at hole punching. The heartbeat and the publication of
  candidates have no effect on this state. \<open>ApiBind\<close> is the first step of the task of the status
  interface, which unwraps the result of binding its port; a panic ends this task alone.
\<close>

datatype run_event =
    FromTun "bytes option" bool
  | Tick "nat \<Rightarrow> nat \<times> probe_outcome" "uuid \<Rightarrow> bool \<times> bool" "peer_info list option"
      "uuid \<Rightarrow> socket_addr list" "uuid \<Rightarrow> (nat \<Rightarrow> punch_event) option"
  | ApiBind bool

definition api_bind :: "bool \<Rightarrow> unit panics" where
  "api_bind bound = (if bound then ret () else panic)"

definition api_start :: "bool \<Rightarrow> api_task \<Rightarrow> api_task" where
  "api_start bound task =
     (case task of
        ApiSpawned \<Rightarrow> (case api_bind bound of panic \<Rightarrow> ApiPanicked | Some _ \<Rightarrow> ApiListening)
      | _ \<Rightarrow> task)"

definition forward_task :: "'d daemon \<Rightarrow> bytes option \<Rightarrow> bool \<Rightarrow> datagram list panics" where
  "forward_task d packet send_ok =
     (case tun_recv (dm_tun d) (replicate (unat (tun_mtu (dm_tun d))) 0) packet of
        (Err _, _) \<Rightarrow> ret []
      | (Ok n, buf) \<Rightarrow> forward_packet (dm_shared d) (take n buf) send_ok)"

definition periodic_tick ::
  "(nat \<Rightarrow> nat \<times> probe_outcome) \<Rightarrow> (uuid \<Rightarrow> bool \<times> bool) \<Rightarrow> peer_info list option
     \<Rightarrow> (uuid \<Rightarrow> socket_addr list) \<Rightarrow> (uuid \<Rightarrow> (nat \<Rightarrow> punch_event) option) \<Rightarrow> 'd daemon
     \<Rightarrow> ('d daemon \<times> datagram list) panics" where
  "periodic_tick probes reg answer addrs socks d = do {
     let pool = probe_all probes (dm_pool d);
     raddr \<leftarrow> active_addr pool;
     (s, out) \<leftarrow> daemon_step (ret (dm_shared d, [])) (Refresh raddr reg answer addrs socks);
     ret (d\<lparr>dm_shared := s, dm_pool := pool\<rparr>, out) }"

fun run_step ::
  "('d daemon \<times> datagram list) panics \<Rightarrow> run_event \<Rightarrow> ('d daemon \<times> datagram list) panics" where
  "run_step st (FromTun packet send_ok) = do {
     (d, out) \<leftarrow> st;
     o' \<leftarrow> forward_task d packet send_ok;
     ret (d, out @ o') }"
| "run_step st (Tick probes reg answer addrs socks) = do {
     (d, out) \<leftarrow> st;
     (d', o') \<leftarrow> periodic_tick probes reg answer addrs socks d;
     ret (d', out @ o') }"
| "run_step st (ApiBind bound) = do {
     (d, out) \<leftarrow> st;
     ret (d\<lparr>dm_api := api_start bound (dm_api d)\<rparr>, out) }"

section \<open>Diagnostics\<close>

record check_result =
  ck_status :: string
  ck_detail :: string
  ck_latency_ms :: "nat option"

definition check :: "string \<Rightarrow> string \<Rightarrow> nat option \<Rightarrow> check_result" where
  "check st detail ms = \<lparr>ck_status = st, ck_detail = detail, ck_latency_ms = ms\<rparr>"

text \<open>An HTTP answer: its code, the code's text and the milliseconds it took; or the error's text.\<close>

datatype http_outcome = HttpAnswer nat string nat | HttpError string

definition check_http :: "http_outcome \<Rightarrow> check_result" where
  "check_http r =
     (case r of
        HttpAnswer code text ms \<Rightarrow>
          (if 200 \<le> code \<and> code < 300 then check ''ok'' (''HTTP '' @ text) (Some ms)
           else check ''warn'' (''HTTP '' @ text) None)
      | HttpError e \<Rightarrow> check ''error'' e None)"

datatype stun_outcome = StunFails string | StunAddr socket_addr nat

definition check_stun ::
  "(ipv6 \<Rightarrow> u16 \<Rightarrow> string) \<Rightarrow> (socket_addr \<Rightarrow> stun_outcome) \<Rightarrow> socket_addr option \<Rightarrow> check_result" where
  "check_stun show6 stun server =
     (case server of
        None \<Rightarrow> check ''warn'' ''not configured'' None
      | Some a \<Rightarrow>
          (case stun a of
             StunAddr addr ms \<Rightarrow> check ''ok'' (''public: '' @ show_socket show6 addr) (Some ms)
           | StunFails e \<Rightarrow> check ''error'' e None))"

datatype udp_outcome = UdpFails string | UdpTimeout | UdpAnswer nat socket_addr nat

definition check_udp ::
  "(ipv6 \<Rightarrow> u16 \<Rightarrow> string) \<Rightarrow> (socket_addr \<Rightarrow> bytes \<Rightarrow> udp_outcome) \<Rightarrow> socket_addr option \<Rightarrow> bytes
     \<Rightarrow> check_result" where
  "check_udp show6 udp server probe =
     (case server of
        None \<Rightarrow> check ''warn'' ''not configured'' None
      | Some a \<Rightarrow>
          (case udp a probe of
             UdpAnswer n from ms \<Rightarrow>
               check ''ok'' (''response '' @ show_nat n @ ''B from '' @ show_socket show6 from) (Some ms)
           | UdpFails e \<Rightarrow> check ''error'' e None
           | UdpTimeout \<Rightarrow> check ''warn'' ''timeout (no response)'' None))"

definition relay_check_bytes :: bytes where
  "relay_check_bytes = [0x52, 0x45, 0x4C, 0x41, 0x59, 0x5F, 0x43, 0x48, 0x45, 0x43, 0x4B]"

record peer_diag =
  pd_hostname :: string
  pd_virtual_ip :: string
  pd_path :: string
  pd_reachable :: bool

definition peer_diag_of :: "peer_link \<Rightarrow> peer_diag" where
  "peer_diag_of lk =
     \<lparr>pd_hostname = link_hostname lk, pd_virtual_ip = show_ipv4 (link_vip lk),
      pd_path = path_text (current_status (link_path lk)),
      pd_reachable = (current_status (link_path lk) \<noteq> Probing)\<rparr>"

record diagnostics_response =
  dr_daemon :: check_result
  dr_control :: check_result
  dr_stun :: check_result
  dr_relay :: check_result
  dr_tun :: check_result
  dr_peers :: "peer_diag list"

text \<open>\<open>values\<close> are the links in the order of the hash map, \<open>config\<close> the loaded configuration.\<close>

definition handle_diagnostics ::
  "(ipv6 \<Rightarrow> u16 \<Rightarrow> string) \<Rightarrow> (string \<Rightarrow> (ipv6 \<times> u16) option) \<Rightarrow> (string \<Rightarrow> http_outcome)
     \<Rightarrow> (socket_addr \<Rightarrow> stun_outcome) \<Rightarrow> (socket_addr \<Rightarrow> bytes \<Rightarrow> udp_outcome) \<Rightarrow> daemon_config option
     \<Rightarrow> shared_state \<Rightarrow> peer_link list \<Rightarrow> nat \<Rightarrow> diagnostics_response" where
  "handle_diagnostics show6 parse6 http stun udp config s values now =
     \<lparr>dr_daemon = check ''ok'' (''uptime '' @ show_nat (now - sh_started_at s) @ ''s'') None,
      dr_control = check_http (http ((case config of Some c \<Rightarrow> cfg_control_url c | None \<Rightarrow> []) @ ''/api/v1/health'')),
      dr_stun = check_stun show6 stun (config \<bind> (\<lambda>c. parse_socket parse6 (cfg_stun_server c))),
      dr_relay = check_udp show6 udp
        (config \<bind> (\<lambda>c. case cfg_relay_servers c of [] \<Rightarrow> None | a # _ \<Rightarrow> parse_socket parse6 a)) relay_check_bytes,
      dr_tun = check ''ok'' (''VIP: '' @ show_ipv4 (sh_virtual_ip s)) None,
      dr_peers = map peer_diag_of values\<rparr>"

definition handle_shutdown :: "shared_state \<Rightarrow> string \<times> shared_state" where
  "handle_shutdown s = (''shutdown initiated'', s)"

section \<open>Where the datagrams go\<close>

lemma client_register_addr:
  "client_register b ok raddr our i = ret (Ok (relay, out)) \<Longrightarrow>
     relay_addr relay = raddr \<and> fst ` set out \<subseteq> {raddr}"
  by (auto simp: client_register_def split: if_splits sum.splits)

lemma connect_loop_relay:
  "connect_loop raddr our reg ps (route, links) = ret (r, out) \<Longrightarrow>
     fst ` set out \<subseteq> {raddr}
     \<and> (\<forall>route' links' i lk. r = Ok (route', links') \<longrightarrow> links' i = Some lk \<longrightarrow>
          links i = Some lk \<or> relay_addr (pm_relay (link_path lk)) = raddr)"
proof (induction ps arbitrary: route links r out)
  case (Cons p ps)
  let ?i = "pi_device_id p"
  show ?case
  proof (cases "?i = our")
    case True
    with Cons show ?thesis by simp
  next
    case other: False
    show ?thesis
    proof (cases "parse_ipv4 (pi_ipv4 p)")
      case None
      with Cons.prems other show ?thesis by auto
    next
      case (Some vip)
      obtain c where c: "client_register (fst (reg ?i)) (snd (reg ?i)) raddr our ?i = ret c"
        using client_register_no_panic by (metis not_None_eq)
      show ?thesis
      proof (cases c)
        case (Inl e)
        with Cons.prems other Some c show ?thesis by auto
      next
        case (Inr ro)
        obtain relay o1 where ro: "ro = (relay, o1)" by fastforce
        have a: "relay_addr relay = raddr" "fst ` set o1 \<subseteq> {raddr}"
          using client_register_addr c Inr ro by blast+
        let ?links = "links(?i \<mapsto> link_of p vip relay)"
        obtain o2 where l: "connect_loop raddr our reg ps (route(vip \<mapsto> ?i), ?links) = ret (r, o2)"
            "out = o1 @ o2"
          using Cons.prems other Some c Inr ro by (auto simp: bind_eq_Some_conv)
        have new: "relay_addr (pm_relay (link_path (link_of p vip relay))) = raddr"
          using a(1) by (simp add: link_of_def path_new_def)
        from Cons.IH [OF l(1)] l(2) a(2) new show ?thesis
          by (auto simp: fun_upd_apply split: if_splits) (metis option.inject)+
      qed
    qed
  qed
qed auto

lemma connect_peers_relay:
  assumes "connect_peers raddr our reg answer = ret (r, out)"
  shows "fst ` set out \<subseteq> {raddr}"
    and "r = Ok (route, links) \<Longrightarrow> links i = Some lk \<Longrightarrow> relay_addr (pm_relay (link_path lk)) = raddr"
  using assms connect_loop_relay [of raddr our reg _ Map.empty Map.empty r out]
  by (auto simp: connect_peers_def split: option.splits)

lemma attempt_p2p_relay [simp]: "link_path (fst (attempt_p2p addrs sock lk)) = link_path lk"
  by (auto simp: attempt_p2p_def split: option.split prod.split)

lemma forward_packet_relay:
  assumes "forward_packet s packet ok = ret out"
    and "\<forall>i lk. sh_peer_links s i = Some lk \<longrightarrow> relay_addr (pm_relay (link_path lk)) \<in> R"
  shows "fst ` set out \<subseteq> R"
  using assms
  by (auto simp: forward_packet_def parse_dst_ip_value path_send_value Let_def split: if_splits option.splits)

section \<open>The daemon in operation\<close>

definition run_inv :: "socket_addr list \<Rightarrow> ('d daemon \<times> datagram list) panics \<Rightarrow> bool" where
  "run_inv relays st \<longleftrightarrow>
     (case st of
        None \<Rightarrow> False
      | Some (d, out) \<Rightarrow>
          pool_inv relays (ret (dm_pool d)) \<and> tun_mtu (dm_tun d) = 1500
          \<and> (\<forall>i lk. sh_peer_links (dm_shared d) i = Some lk \<longrightarrow>
                link_inv lk \<and> relay_addr (pm_relay (link_path lk)) \<in> set relays)
          \<and> fst ` set out \<subseteq> set relays)"

lemma pool_inv_probe: "pool_inv relays (ret p) \<Longrightarrow> pool_inv relays (ret (probe_all net p))"
  using pool_system.step_inv [of relays "ret p" "Probe net"] by simp

lemma pool_inv_active: "pool_inv relays (ret p) \<Longrightarrow> \<exists>a. active_addr p = ret a \<and> a \<in> set relays"
  by (auto simp: pool_inv_def active_addr_def)

lemma forward_task_ok:
  assumes "\<forall>i lk. sh_peer_links (dm_shared d) i = Some lk \<longrightarrow> relay_addr (pm_relay (link_path lk)) \<in> R"
  shows "\<exists>o'. forward_task d packet ok = ret o' \<and> fst ` set o' \<subseteq> R"
proof -
  have "\<exists>o'. forward_packet (dm_shared d) p ok = ret o' \<and> fst ` set o' \<subseteq> R" for p
    using forward_packet_no_panic [of "dm_shared d" p ok] forward_packet_relay [OF _ assms] by blast
  then show ?thesis by (auto simp: forward_task_def split: prod.split sum.split)
qed

lemma periodic_tick_ok:
  assumes pool: "pool_inv relays (ret (dm_pool d))" and mtu: "tun_mtu (dm_tun d) = 1500"
    and links: "\<forall>i lk. sh_peer_links (dm_shared d) i = Some lk \<longrightarrow>
        link_inv lk \<and> relay_addr (pm_relay (link_path lk)) \<in> set relays"
  shows "\<exists>d' o'. periodic_tick probes reg answer addrs socks d = ret (d', o')
     \<and> run_inv relays (ret (d', o'))"
proof -
  let ?pool = "probe_all probes (dm_pool d)"
  obtain a where a: "active_addr ?pool = ret a" "a \<in> set relays"
    using pool_inv_active [OF pool_inv_probe [OF pool]] by blast
  obtain r o' where r: "connect_peers a (sh_device_id (dm_shared d)) reg answer = ret (r, o')"
      "\<And>route' links' i lk. r = Ok (route', links') \<Longrightarrow> links' i = Some lk \<Longrightarrow> link_inv lk"
    using connect_peers_links by blast
  have out: "fst ` set o' \<subseteq> set relays" using connect_peers_relay(1) [OF r(1)] a(2) by auto
  show ?thesis
  proof (cases r)
    case (Inl e)
    with a r(1) out pool_inv_probe [OF pool] mtu links show ?thesis
      by (simp add: periodic_tick_def run_inv_def Let_def)
  next
    case (Inr rl)
    obtain route lks where rl: "rl = (route, lks)" by fastforce
    have "link_inv (fst (attempt_p2p x y lk)) \<and> relay_addr (pm_relay (link_path lk)) \<in> set relays"
      if "lks i = Some lk" for i lk x y
      using attempt_p2p_inv r(2) connect_peers_relay(2) [OF r(1)] Inr rl that a(2) by metis
    with a r(1) Inr rl out pool_inv_probe [OF pool] mtu show ?thesis
      by (auto simp: periodic_tick_def run_inv_def Let_def attempt_p2p_for_all_def)
  qed
qed

interpretation run_system: step_system run_step "run_inv relays"
proof
  fix st :: "('d daemon \<times> datagram list) panics" and e
  assume inv: "run_inv relays st"
  then obtain d out where st: "st = ret (d, out)" and pool: "pool_inv relays (ret (dm_pool d))"
      and mtu: "tun_mtu (dm_tun d) = 1500"
      and links: "\<forall>i lk. sh_peer_links (dm_shared d) i = Some lk \<longrightarrow>
        link_inv lk \<and> relay_addr (pm_relay (link_path lk)) \<in> set relays"
      and out: "fst ` set out \<subseteq> set relays"
    by (auto simp: run_inv_def split: option.splits)
  show "run_inv relays (run_step st e)"
  proof (cases e)
    case (FromTun packet ok)
    from forward_task_ok [of d "set relays" packet ok] links obtain o' where
        "forward_task d packet ok = ret o'" "fst ` set o' \<subseteq> set relays" by blast
    with FromTun st pool mtu links out show ?thesis by (auto simp: run_inv_def)
  next
    case (Tick probes reg answer addrs socks)
    from periodic_tick_ok [OF pool mtu links] obtain d' o' where
        t: "periodic_tick probes reg answer addrs socks d = ret (d', o')" "run_inv relays (ret (d', o'))"
      by blast
    with Tick st out show ?thesis by (auto simp: run_inv_def)
  next
    case (ApiBind bound)
    with inv st show ?thesis by (simp add: run_inv_def)
  qed
qed

lemma pool_new_inv: "relays \<noteq> [] \<Longrightarrow> \<exists>pool. pool_new relays = ret pool \<and> pool_inv relays (ret pool)
     \<and> active_addr pool = ret (hd relays)"
  by (auto simp: pool_new_def pool_inv_def active_addr_def relay_server_new_def o_def hd_conv_nth)

lemma daemon_start_fact:
  assumes "sn_registration net = Some (i, address)" and "parse_ipv4 address = Some ip"
  shows "(da_relay_servers args = [] \<longrightarrow> daemon_start show6 args keypair net = panic)
     \<and> (da_relay_servers args \<noteq> [] \<longrightarrow>
          (\<exists>r out. daemon_start show6 args keypair net
                     = ret (r, Some (config_of show6 args (public_key_bytes keypair) i ip), out)
             \<and> fst ` set out \<subseteq> {hd (da_relay_servers args)}
             \<and> (\<forall>d. r = Ok d \<longrightarrow>
                   run_inv (da_relay_servers args) (ret (d, out))
                   \<and> sh_device_id (dm_shared d) = i \<and> sh_virtual_ip (dm_shared d) = ip
                   \<and> tun_address (dm_tun d) = ip \<and> tun_netmask (dm_tun d) = ipv4_new 255 255 255 0
                   \<and> tun_mtu (dm_tun d) = 1500)))"
proof (intro conjI impI)
  assume "da_relay_servers args = []"
  with assms show "daemon_start show6 args keypair net = panic"
    by (simp add: daemon_start_def pool_new_def Let_def)
next
  let ?relays = "da_relay_servers args"
  let ?cfg = "config_of show6 args (public_key_bytes keypair) i ip"
  assume ne: "?relays \<noteq> []"
  then obtain pool where pool: "pool_new ?relays = ret pool" "pool_inv ?relays (ret pool)"
      "active_addr pool = ret (hd ?relays)" using pool_new_inv by blast
  obtain r out where r: "connect_peers (hd ?relays) i (sn_registers net) (sn_peers net) = ret (r, out)"
      "\<And>route' links' j lk. r = Ok (route', links') \<Longrightarrow> links' j = Some lk \<Longrightarrow> link_inv lk"
    using connect_peers_links by blast
  note out = connect_peers_relay(1) [OF r(1)]
  show "\<exists>r out. daemon_start show6 args keypair net = ret (r, Some ?cfg, out)
      \<and> fst ` set out \<subseteq> {hd ?relays}
      \<and> (\<forall>d. r = Ok d \<longrightarrow>
            run_inv ?relays (ret (d, out)) \<and> sh_device_id (dm_shared d) = i \<and> sh_virtual_ip (dm_shared d) = ip
            \<and> tun_address (dm_tun d) = ip \<and> tun_netmask (dm_tun d) = ipv4_new 255 255 255 0
            \<and> tun_mtu (dm_tun d) = 1500)"
  proof (cases r)
    case (Inl e)
    with assms pool r(1) out show ?thesis by (simp add: daemon_start_def Let_def)
  next
    case (Inr rl)
    obtain route lks where rl: "rl = (route, lks)" by fastforce
    show ?thesis
    proof (cases "tun_create (sn_tun net) (with_name (da_tun_name args) (tun_new ip (ipv4_new 255 255 255 0)))")
      case (Inl e)
      with assms pool r(1) out Inr rl show ?thesis by (simp add: daemon_start_def Let_def)
    next
      case tun: (Inr tun)
      have "link_inv (fst (attempt_p2p x y lk)) \<and> relay_addr (pm_relay (link_path lk)) \<in> set ?relays"
        if "lks j = Some lk" for j lk x y
        using attempt_p2p_inv r(2) connect_peers_relay(2) [OF r(1)] Inr rl that ne by (metis hd_in_set)
      with assms pool r(1) out Inr rl tun device_of_new [OF tun] ne show ?thesis
        by (auto simp: daemon_start_def Let_def run_inv_def attempt_p2p_for_all_def dest: hd_in_set)
    qed
  qed
qed

text \<open>
  C28: With a valid registration, starting without a relay address always panics (the pool
  asserts that there is one). With one it never does: it stops with an error of the peer list or
  the device, or runs with the id and the address it was given, an interface of MTU 1500 with
  that address, always in a network of 256 addresses, and the configuration it saved says what
  it was started with; what it sent so far went to the first relay.
\<close>

theorem daemon_start_spec:
  assumes "sn_registration net = Some (i, show_ipv4 ip)"
  shows "(da_relay_servers args = [] \<longrightarrow> daemon_start show6 args keypair net = panic)
     \<and> (da_relay_servers args \<noteq> [] \<longrightarrow>
          (\<exists>r out. daemon_start show6 args keypair net
                     = ret (r, Some (config_of show6 args (public_key_bytes keypair) i ip), out)
             \<and> fst ` set out \<subseteq> {hd (da_relay_servers args)}
             \<and> (\<forall>d. r = Ok d \<longrightarrow>
                   run_inv (da_relay_servers args) (ret (d, out))
                   \<and> sh_device_id (dm_shared d) = i \<and> sh_virtual_ip (dm_shared d) = ip
                   \<and> tun_address (dm_tun d) = ip \<and> tun_netmask (dm_tun d) = ipv4_new 255 255 255 0
                   \<and> tun_mtu (dm_tun d) = 1500)))"
  using daemon_start_fact [OF assms parse_show_ipv4] .

definition sample_args :: "socket_addr list \<Rightarrow> daemon_args" where
  "sample_args relays = \<lparr>da_control_url = ''http://c'', da_stun_server = addr_c, da_relay_servers = relays,
     da_hostname = ''laptop'', da_tun_name = ''connectalso''\<rparr>"

definition sample_net :: "unit startup_net" where
  "sample_net = \<lparr>sn_registration = Some (1, show_ipv4 (ipv4_new 100 64 0 0)), sn_peers = Some [peer_view 9 phone_row],
     sn_registers = (\<lambda>_. (True, True)), sn_tun = (\<lambda>_. Ok ()), sn_candidates = (\<lambda>_. []), sn_punch = (\<lambda>_. None),
     sn_now = 0\<rparr>"

definition sample_keys :: "nat key_pair" where
  "sample_keys = generate (\<lambda>n. replicate 32 (of_nat n)) 7"

lemma sample_registration: "sn_registration sample_net = Some (1, show_ipv4 (ipv4_new 100 64 0 0))"
  and sample_net_rest: "sn_peers sample_net = Some [peer_view 9 phone_row]"
    "sn_registers sample_net = (\<lambda>_. (True, True))" "sn_tun sample_net = (\<lambda>_. Ok ())"
  by (simp_all add: sample_net_def)

lemma sample_start: "\<exists>d cfg out. daemon_start (\<lambda>_ _. []) (sample_args [addr_a]) sample_keys sample_net = ret (Ok d, cfg, out)"
proof -
  have "parse_ipv4 (row_ipv4 phone_row) \<noteq> None"
    by (simp add: phone_row_def flip: show_sample_ips)
  then obtain vip where vip: "parse_ipv4 (row_ipv4 phone_row) = Some vip" by auto
  obtain out where reg: "client_register True True addr_a 1 (row_id phone_row) = ret (Ok (client_of addr_a 1 (row_id phone_row), out))"
    using client_register_ok by blast
  have "row_id phone_row \<noteq> 1" by (simp add: phone_row_def)
  with reg vip show ?thesis
    by (simp add: daemon_start_def sample_registration sample_net_rest sample_args_def pool_new_def active_addr_def
        connect_peers_def relay_server_new_def tun_create_def Let_def)
qed

lemma sample_links_finite:
  assumes "daemon_start (\<lambda>_ _. []) (sample_args [addr_a]) sample_keys sample_net = ret (Ok d, cfg, out)"
  shows "finite (dom (sh_peer_links (dm_shared d)))"
proof -
  obtain vip where vip: "parse_ipv4 (row_ipv4 phone_row) = Some vip"
    using parse_show_ipv4 by (auto simp: phone_row_def simp flip: show_sample_ips)
  have "row_id phone_row \<noteq> 1" by (simp add: phone_row_def)
  with assms vip show ?thesis
    by (auto simp: daemon_start_def sample_registration sample_net_rest sample_args_def pool_new_def active_addr_def
        connect_peers_def relay_server_new_def tun_create_def Let_def bind_eq_Some_conv attempt_p2p_for_all_def
        dom_def split: sum.splits if_splits)
qed

theorem daemon_start_spec_witness:
  "daemon_start (\<lambda>_ _. []) (sample_args []) sample_keys sample_net = panic
   \<and> (\<exists>d cfg out. daemon_start (\<lambda>_ _. []) (sample_args [addr_a]) sample_keys sample_net = ret (Ok d, cfg, out)
        \<and> tun_address (dm_tun d) = ipv4_new 100 64 0 0)"
  using daemon_start_spec [OF sample_registration, of "sample_args []" "\<lambda>_ _. []" sample_keys]
    daemon_start_spec [OF sample_registration, of "sample_args [addr_a]" "\<lambda>_ _. []" sample_keys] sample_start
  by (auto simp: sample_args_def)

lemma daemon_start_run_inv:
  assumes "daemon_start show6 args keypair net = ret (Ok d, cfg, out)"
  shows "run_inv (da_relay_servers args) (ret (d, out))"
proof -
  obtain i address ip where reg: "sn_registration net = Some (i, address)" "parse_ipv4 address = Some ip"
    using assms by (auto simp: daemon_start_def split: option.splits)
  have ne: "da_relay_servers args \<noteq> []"
    using assms reg by (auto simp: daemon_start_def pool_new_def Let_def)
  from daemon_start_fact [OF reg, of args show6 keypair] assms ne
  show ?thesis by auto
qed

text \<open>How binding the port of the status interface ended, if its task has run.\<close>

definition api_after :: "run_event list \<Rightarrow> api_task" where
  "api_after es =
     (case List.map_filter (\<lambda>e. case e of ApiBind bound \<Rightarrow> Some bound | _ \<Rightarrow> None) es of
        [] \<Rightarrow> ApiSpawned
      | bound # _ \<Rightarrow> (if bound then ApiListening else ApiPanicked))"

lemma foldl_panic [simp]: "foldl run_step panic es = panic"
proof (induction es)
  case (Cons e es)
  then show ?case by (cases e) simp_all
qed simp

lemma daemon_start_api:
  assumes "daemon_start show6 args keypair net = ret (Ok d, cfg, out)"
  shows "dm_api d = ApiSpawned"
proof -
  obtain i address ip where reg: "sn_registration net = Some (i, address)" "parse_ipv4 address = Some ip"
    using assms by (auto simp: daemon_start_def split: option.splits)
  obtain pool raddr r o' where
      run: "pool_new (da_relay_servers args) = ret pool" "active_addr pool = ret raddr"
      "connect_peers raddr i (sn_registers net) (sn_peers net) = ret (r, o')"
    using assms reg by (auto simp: daemon_start_def Let_def bind_eq_Some_conv)
  show ?thesis
  proof (cases r)
    case (Inl e)
    with assms reg run show ?thesis by (simp add: daemon_start_def Let_def)
  next
    case (Inr rl)
    with assms reg run show ?thesis
      by (cases "tun_create (sn_tun net) (with_name (da_tun_name args) (tun_new ip (ipv4_new 255 255 255 0)))")
         (auto simp: daemon_start_def Let_def split: prod.splits)
  qed
qed

lemma run_api:
  assumes "foldl run_step (ret (d, out)) es = ret (d', out')"
  shows "dm_api d' = (if dm_api d = ApiSpawned then api_after es else dm_api d)"
  using assms
proof (induction es arbitrary: d out)
  case Nil
  then show ?case by (simp add: api_after_def List.map_filter_simps)
next
  case (Cons e es)
  then obtain d1 out1 where step: "run_step (ret (d, out)) e = ret (d1, out1)"
    by (cases "run_step (ret (d, out)) e") auto
  with Cons.prems have IH: "dm_api d' = (if dm_api d1 = ApiSpawned then api_after es else dm_api d1)"
    by (intro Cons.IH [of d1 out1]) simp
  show ?case
  proof (cases e)
    case (ApiBind bound)
    with step IH show ?thesis
      by (cases "dm_api d") (auto simp: api_start_def api_bind_def api_after_def List.map_filter_simps)
  qed (use step IH in \<open>auto simp: api_after_def List.map_filter_simps periodic_tick_def bind_eq_Some_conv Let_def\<close>)
qed

text \<open>
  C14: After the start no packet from the device, no answer or failure of the control service, no
  outcome of probes, registrations or hole punching makes the forwarding task or the periodic task
  of a daemon panic, and all the daemon ever sends for its tunnel goes to the relays it was started
  with. The task of the status interface panics exactly if its port cannot be bound; the daemon
  goes on without the interface.
\<close>

theorem daemon_talks_to_relays_only:
  assumes "daemon_start show6 args keypair net = ret (Ok d, cfg, out)"
  shows "\<exists>d' out'. foldl run_step (ret (d, out)) es = ret (d', out')
     \<and> fst ` set out' \<subseteq> set (da_relay_servers args)
     \<and> (\<forall>i lk. sh_peer_links (dm_shared d') i = Some lk \<longrightarrow>
           relay_addr (pm_relay (link_path lk)) \<in> set (da_relay_servers args))
     \<and> dm_api d' = api_after es"
proof -
  from daemon_start_run_inv [OF assms]
  have "run_inv (da_relay_servers args) (foldl run_step (ret (d, out)) es)"
    by (rule run_system.run_inv)
  moreover note daemon_start_api [OF assms]
  ultimately show ?thesis using run_api [of d out es] by (auto simp: run_inv_def split: option.splits)
qed

theorem daemon_talks_to_relays_only_witness:
  "\<exists>d cfg out d' out'. daemon_start (\<lambda>_ _. []) (sample_args [addr_a]) sample_keys sample_net = ret (Ok d, cfg, out)
     \<and> foldl run_step (ret (d, out)) [ApiBind False, FromTun (Some (replicate 40 0)) True, Tick (\<lambda>_. (0, NoAnswer)) (\<lambda>_. (True, False)) None (\<lambda>_. []) (\<lambda>_. None)]
         = ret (d', out') \<and> fst ` set out' \<subseteq> {addr_a} \<and> dm_api d' = ApiPanicked"
proof -
  obtain d cfg out where d: "daemon_start (\<lambda>_ _. []) (sample_args [addr_a]) sample_keys sample_net = ret (Ok d, cfg, out)"
    using sample_start by blast
  let ?es = "[ApiBind False, FromTun (Some (replicate 40 0)) True,
      Tick (\<lambda>_. (0, NoAnswer)) (\<lambda>_. (True, False)) None (\<lambda>_. []) (\<lambda>_. None)]"
  have "api_after ?es = ApiPanicked" by (simp add: api_after_def List.map_filter_simps)
  with daemon_talks_to_relays_only [OF d, of ?es] obtain d' out' where
      "foldl run_step (ret (d, out)) ?es = ret (d', out')" "fst ` set out' \<subseteq> {addr_a}" "dm_api d' = ApiPanicked"
    by (auto simp: sample_args_def simp del: foldl_Cons)
  with d show ?thesis by blast
qed

section \<open>Candidates through the control service\<close>

definition published :: "uuid \<Rightarrow> db \<Rightarrow> string set" where
  "published i d = cand_address ` {c \<in> set (candidates d). cand_id c = i}"

definition cand_key :: "candidate_row \<Rightarrow> uuid \<times> string" where
  "cand_key c = (cand_id c, cand_address c)"

lemma published_keys: "a \<in> published i d \<longleftrightarrow> (i, a) \<in> set (map cand_key (candidates d))"
  by (auto simp: published_def cand_key_def)

lemma update_where_keys: "map cand_key (update_where P (cand_updated_update f) cs) = map cand_key cs"
  by (simp add: update_where_def cand_key_def)

lemma upsert_keys:
  "set (map cand_key (candidates (snd (exec_stmt (UpsertCandidate i a now) d))))
     = insert (i, a) (set (map cand_key (candidates d)))"
proof (cases "\<exists>c\<in>set (candidates d). cand_id c = i \<and> cand_address c = a")
  case True
  then have "(i, a) \<in> set (map cand_key (candidates d))" by (auto simp: cand_key_def image_iff)
  with True show ?thesis by (simp add: Let_def update_where_keys insert_absorb del: set_map)
next
  case False
  then show ?thesis by (auto simp: Let_def cand_key_def)
qed

lemma upsert_published:
  "published j (snd (exec_stmt (UpsertCandidate i a now) d)) = published j d \<union> (if i = j then {a} else {})"
  by (auto simp: published_keys upsert_keys simp del: exec_stmt.simps set_map)

lemma publish_run:
  assumes "faults s = []"
  shows "\<exists>s1. run_state (handle_publish_candidates i cs) s = (Ok200, s1) \<and> faults s1 = []
     \<and> (\<forall>j. published j (tables s1) = published j (tables s) \<union> (if i = j then set cs else {}))"
  using assms
proof (induction cs arbitrary: s)
  case (Cons a cs)
  let ?now = "case times s of [] \<Rightarrow> 0 | t # _ \<Rightarrow> t"
  let ?s = "s\<lparr>times := tl (times s), tables := snd (exec_stmt (UpsertCandidate i a ?now) (tables s))\<rparr>"
  have one: "run_state (upsert_candidate i a) s = (Ok 1, ?s)"
    using Cons.prems by (simp add: upsert_candidate_def run_unix_now run_execute_ok Let_def)
  from Cons.IH [of ?s] Cons.prems obtain s1 where s1:
      "run_state (handle_publish_candidates i cs) ?s = (Ok200, s1)" "faults s1 = []"
      "\<forall>j. published j (tables s1) = published j (tables ?s) \<union> (if i = j then set cs else {})"
    by auto
  have "run_state (handle_publish_candidates i (a # cs)) s = (Ok200, s1)"
    by (simp add: one s1(1) del: exec_stmt.simps)
  with s1 show ?case by (auto simp: upsert_published simp del: exec_stmt.simps)
qed simp

lemma get_candidates_run:
  assumes "faults s = []"
  shows "\<exists>out. run_state (handle_get_candidates i) s = (Ok (i, out), s) \<and> set out = published i (tables s)"
  using assms by (auto simp: handle_get_candidates_def get_candidates_def run_query_ok published_def)

text \<open>
  What one daemon publishes, the other daemons try: after device \<open>i\<close> posted the candidates
  it discovered, the control service answers a query for \<open>i\<close> with a list from
  which the asking daemon reads the address that STUN reported, and nothing but addresses
  published for \<open>i\<close>.
\<close>

theorem candidates_reach_peers:
  assumes "faults s = []"
    and "publish_candidates i (discover_candidates show6 True (Ok (SocketAddr (V4 ip) port)) local) = Some req"
  shows "\<exists>s1 out. run_state (serve app req) s = (StatusR Ok200, s1)
     \<and> run_state (serve app (GetCandidatesReq i)) s1 = (CandidatesR i out, s1)
     \<and> SocketAddr (V4 ip) port \<in> set (get_peer_candidates parse6 (Some (Some out)))
     \<and> (\<forall>a\<in>set (get_peer_candidates parse6 (Some (Some out))). \<exists>t\<in>published i (tables s1). parse_socket parse6 t = Some a)"
proof -
  let ?cs = "discover_candidates show6 True (Ok (SocketAddr (V4 ip) port)) local"
  have req: "req = PublishCandidatesReq i ?cs" using assms(2) by (simp add: publish_candidates_def split: if_splits)
  obtain s1 where s1: "run_state (handle_publish_candidates i ?cs) s = (Ok200, s1)" "faults s1 = []"
      "\<forall>j. published j (tables s1) = published j (tables s) \<union> (if i = j then set ?cs else {})"
    using publish_run [OF assms(1)] by blast
  obtain out where out: "run_state (handle_get_candidates i) s1 = (Ok (i, out), s1)" "set out = published i (tables s1)"
    using get_candidates_run [OF s1(2)] by blast
  have "show_socket show6 (SocketAddr (V4 ip) port) \<in> set out"
    using s1(3) out(2) by (simp add: discover_candidates_def)
  then have "SocketAddr (V4 ip) port \<in> set (get_peer_candidates parse6 (Some (Some out)))"
    using parse_show_socket_v4 [of parse6 show6 ip port]
    by (force simp: get_peer_candidates_def List.map_filter_def image_iff)
  moreover have "\<forall>a\<in>set (get_peer_candidates parse6 (Some (Some out))). \<exists>t\<in>published i (tables s1). parse_socket parse6 t = Some a"
    using out(2) by (auto simp: get_peer_candidates_def List.map_filter_def)
  moreover have "run_state (serve app req) s = (StatusR Ok200, s1)" by (simp add: req s1(1))
  moreover have "run_state (serve app (GetCandidatesReq i)) s1 = (CandidatesR i out, s1)"
    by (simp add: out(1) reply_def)
  ultimately show ?thesis by blast
qed

theorem candidates_reach_peers_witness:
  "\<exists>s1 out. run_state (serve sample_app (PublishCandidatesReq 3 [show_socket (\<lambda>_ _. []) (SocketAddr (V4 9) 7)])) sample_env
        = (StatusR Ok200, s1)
     \<and> run_state (serve sample_app (GetCandidatesReq 3)) s1 = (CandidatesR 3 out, s1)
     \<and> SocketAddr (V4 9) 7 \<in> set (get_peer_candidates (\<lambda>_. None) (Some (Some out)))"
proof -
  have "publish_candidates 3 (discover_candidates (\<lambda>_ _. []) True (Ok (SocketAddr (V4 9) 7)) None)
      = Some (PublishCandidatesReq 3 [show_socket (\<lambda>_ _. []) (SocketAddr (V4 9) 7)])"
    by (simp add: publish_candidates_def discover_candidates_def)
  from candidates_reach_peers [OF sample_env_ok(2) this, of sample_app "\<lambda>_. None"] show ?thesis by blast
qed

section \<open>An approved device is reachable after one tick\<close>

lemma forward_task_whole:
  assumes "tun_mtu (dm_tun d) = 1500" and "length packet \<le> 1500"
  shows "forward_task d (Some packet) ok = forward_packet (dm_shared d) packet ok"
  using assms by (simp add: forward_task_def tun_recv_def tun_mtu_def Let_def)

text \<open>
  C15: Progress: at the first tick after a device was approved, if the control service answers and
  the registrations can be sent, a running daemon learns the device; from then on a packet for
  its address leaves at once, as one Data frame for the device, to one of the relays.
\<close>

theorem approved_device_reachable:
  assumes "daemon_start show6 args keypair net = ret (Ok d0, cfg, out0)"
    and "foldl run_step (ret (d0, out0)) es = ret (d, out)"
    and "db_inv (tables s)" and "faults s = []" and "fst (run_state handle_peers s) = ret (Ok ps)"
    and "r \<in> set (devices (tables s))" and "row_status r = 1" and "row_ipv4 r = show_ipv4 ip"
    and "row_id r \<noteq> sh_device_id (dm_shared d)"
    and "is_ipv4_packet packet" and "pkt_dst_ip (packet_fields packet) = ip" and "length packet \<le> 1500"
  shows "\<exists>d' out' relay bs.
     run_step (ret (d, out)) (Tick probes (\<lambda>_. (True, True)) (Some ps) addrs socks) = ret (d', out')
     \<and> run_step (ret (d', out')) (FromTun (Some packet) True) = ret (d', out' @ [(relay, bs)])
     \<and> relay \<in> set (da_relay_servers args)
     \<and> decode bs = ret (Ok (frame_data (sh_device_id (dm_shared d)) (row_id r) packet))"
proof -
  let ?our = "sh_device_id (dm_shared d)" and ?relays = "da_relay_servers args"
  have inv: "run_inv ?relays (ret (d, out))"
    using run_system.run_inv [OF daemon_start_run_inv [OF assms(1)], of es] assms(2) by simp
  then have pool: "pool_inv ?relays (ret (dm_pool d))" and mtu: "tun_mtu (dm_tun d) = 1500"
    by (simp_all add: run_inv_def)
  obtain a where a: "active_addr (probe_all probes (dm_pool d)) = ret a" "a \<in> set ?relays"
    using pool_inv_active [OF pool_inv_probe [OF pool]] by blast
  obtain route links o' where c: "connect_peers a ?our (\<lambda>_. (True, True)) (Some ps) = ret (Ok (route, links), o')"
      "\<forall>ip i. route ip = Some i \<longleftrightarrow> (\<exists>r\<in>set (devices (tables s)).
          row_status r = 1 \<and> row_id r = i \<and> i \<noteq> ?our \<and> row_ipv4 r = show_ipv4 ip)"
      "\<forall>i. (\<exists>lk. links i = Some lk) \<longleftrightarrow> (\<exists>r\<in>set (devices (tables s)). row_status r = 1 \<and> row_id r = i \<and> i \<noteq> ?our)"
      "\<forall>i lk. links i = Some lk \<longrightarrow> pm_relay (link_path lk) = client_of a ?our i"
    using connect_approved_peers_fact [OF assms(3-5), of "\<lambda>_. (True, True)" a ?our] by auto
  have route: "route ip = Some (row_id r)" using c(2) assms(6-9) by blast
  obtain lk where lk: "links (row_id r) = Some lk" using c(3) assms(6,7,9) by blast
  let ?links = "attempt_p2p_for_all addrs socks links"
  let ?s = "(dm_shared d)\<lparr>sh_ip_route := route, sh_peer_links := ?links\<rparr>"
  let ?d = "d\<lparr>dm_shared := ?s, dm_pool := probe_all probes (dm_pool d)\<rparr>"
  have tick: "run_step (ret (d, out)) (Tick probes (\<lambda>_. (True, True)) (Some ps) addrs socks) = ret (?d, out @ o')"
    using a(1) c(1) by (simp add: periodic_tick_def Let_def)
  obtain lk' where lk': "?links (row_id r) = Some lk'" "pm_relay (link_path lk') = client_of a ?our (row_id r)"
    using lk c(4) by (simp add: attempt_p2p_for_all_def)
  have "length packet \<le> FORWARD_BUF" using assms(12) by (simp add: FORWARD_BUF_eq)
  from daemon_forwards [OF this, of ?s] obtain bs where
      "forward_packet ?s packet True = ret [(a, bs)]"
      "decode bs = ret (Ok (frame_data ?our (row_id r) packet))"
    using lk' route assms(10,11) by (auto simp: client_of_def)
  moreover have "forward_task ?d (Some packet) True = forward_packet ?s packet True"
    using forward_task_whole [of ?d packet True] mtu assms(12) by simp
  ultimately have "run_step (ret (?d, out @ o')) (FromTun (Some packet) True) = ret (?d, (out @ o') @ [(a, bs)])"
      "decode bs = ret (Ok (frame_data ?our (row_id r) packet))" by simp_all
  with tick a(2) show ?thesis by blast
qed

theorem approved_device_reachable_witness:
  "\<exists>(d0 :: unit daemon) cfg out0 ps d' out' bs.
     daemon_start (\<lambda>_ _. []) (sample_args [addr_a]) sample_keys sample_net = ret (Ok d0, cfg, out0)
     \<and> fst (run_state handle_peers two_devices) = ret (Ok ps)
     \<and> run_step (ret (d0, out0)) (Tick (\<lambda>_. (0, NoAnswer)) (\<lambda>_. (True, True)) (Some ps) (\<lambda>_. []) (\<lambda>_. None)) = ret (d', out')
     \<and> run_step (ret (d', out')) (FromTun (Some sample_packet) True) = ret (d', out' @ [(addr_a, bs)])
     \<and> decode bs = ret (Ok (frame_data 1 2 sample_packet))"
proof -
  obtain d0 cfg out0 where d0: "daemon_start (\<lambda>_ _. []) (sample_args [addr_a]) sample_keys sample_net = ret (Ok d0, cfg, out0)"
    using sample_start by blast
  obtain ps where ps: "fst (run_state handle_peers two_devices) = ret (Ok ps)"
    using peers_reply [OF two_devices_ok] by blast
  have i: "sh_device_id (dm_shared d0) = 1"
    using daemon_start_fact [OF sample_registration parse_show_ipv4, of "sample_args [addr_a]" "\<lambda>_ _. []" sample_keys] d0
    by (auto simp: sample_args_def)
  have run: "foldl run_step (ret (d0, out0)) [] = ret (d0, out0)" by simp
  have row: "phone_row \<in> set (devices (tables two_devices))" "row_status phone_row = 1"
      "row_ipv4 phone_row = show_ipv4 (ipv4_new 100 64 0 1)" "row_id phone_row \<noteq> sh_device_id (dm_shared d0)"
    by (simp_all add: two_devices_def phone_row_def show_sample_ips i)
  have pkt: "is_ipv4_packet sample_packet" "pkt_dst_ip (packet_fields sample_packet) = ipv4_new 100 64 0 1"
      "length sample_packet \<le> 1500"
    by (simp_all add: is_ipv4_packet_def sample_packet_def packet_fields_def ipv4_new_def)
  from approved_device_reachable [OF d0 run two_devices_ok ps row pkt, of "\<lambda>_. (0, NoAnswer)" "\<lambda>_. []" "\<lambda>_. None"]
  obtain d' out' relay bs where
      "run_step (ret (d0, out0)) (Tick (\<lambda>_. (0, NoAnswer)) (\<lambda>_. (True, True)) (Some ps) (\<lambda>_. []) (\<lambda>_. None)) = ret (d', out')"
      "run_step (ret (d', out')) (FromTun (Some sample_packet) True) = ret (d', out' @ [(relay, bs)])"
      "relay \<in> set (da_relay_servers (sample_args [addr_a]))"
      "decode bs = ret (Ok (frame_data (sh_device_id (dm_shared d0)) (row_id phone_row) sample_packet))"
    by blast
  moreover from this have "relay = addr_a" by (simp add: sample_args_def)
  ultimately show ?thesis using d0 ps i by (auto simp: phone_row_def simp del: run_step.simps)
qed

end
