(* ===== verification/Keep_Alive.thy ===== *)
theory Keep_Alive
  imports Daemon_Run
begin

text \<open>
  What the periodic task of the daemon (\<open>apps/daemon/src/main.rs\<close>) does for its device at the
  control service (\<open>services/control/src/main.rs\<close>): the requests of one tick, and what they and
  the purge between two ticks do to the store.
\<close>

section \<open>The requests of the daemon\<close>

text \<open>After the registration \<open>main\<close> publishes its candidates and asks for the peers.\<close>

definition startup_requests :: "uuid \<Rightarrow> string list \<Rightarrow> request list" where
  "startup_requests own_id cs = (case publish_candidates own_id cs of None \<Rightarrow> [] | Some req \<Rightarrow> [req]) @ [PeersReq]"

text \<open>
  Each tick begins with a heartbeat; then it does the same. The queries for the candidates of the
  peers that follow are left out: they only read the store.
\<close>

definition tick_requests :: "uuid \<Rightarrow> string list \<Rightarrow> request list" where
  "tick_requests own_id cs = HeartbeatReq own_id # startup_requests own_id cs"

section \<open>One request at a time\<close>

definition drop_times :: "nat \<Rightarrow> env \<Rightarrow> env" where
  "drop_times n s = s\<lparr>times := drop n (times s)\<rparr>"

text \<open>The device, its address and its pool row, at a store without failures.\<close>

definition holds_address :: "device_row \<Rightarrow> env \<Rightarrow> bool" where
  "holds_address r s \<longleftrightarrow> db_inv (tables s) \<and> faults s = []
     \<and> r \<in> set (devices (tables s)) \<and> (\<exists>p\<in>set (ip_pool (tables s)). ip_text p = row_ipv4 r)"

lemma serve_inv: "db_inv (tables s) \<Longrightarrow> db_inv (tables (snd (run_state (serve app req) s)))"
  using safe_serve [of app req] leads_inv by (auto simp: safe_def)

lemma heartbeat_run:
  assumes "holds_address r s"
  shows "run_state (serve app (HeartbeatReq (row_id r))) s =
     (HeartbeatR True, s\<lparr>times := tl (times s), tables := (tables s)\<lparr>devices :=
        update_where (\<lambda>x. row_id x = row_id r) (row_seen_update (\<lambda>_. now_of s)) (devices (tables s))\<rparr>\<rparr>)"
proof -
  have "unique_devices (update_where (\<lambda>x. row_id x = row_id r) (row_seen_update (\<lambda>_. now_of s)) (devices (tables s)))"
    using assms by (simp add: holds_address_def unique_devices_def update_where_same db_inv_def)
  moreover have "0 < count_where (\<lambda>x. row_id x = row_id r) (devices (tables s))"
    using assms by (auto simp: holds_address_def count_where_pos)
  ultimately show ?thesis using assms
    by (simp add: holds_address_def handle_heartbeat_def heartbeat_def run_unix_now now_of_def [symmetric]
        run_execute_ok Let_def commit_devices_def affected_def or_false_def)
qed

lemma heartbeat_holds:
  assumes "holds_address r s"
  shows "holds_address (r\<lparr>row_seen := now_of s\<rparr>) (snd (run_state (serve app (HeartbeatReq (row_id r))) s))"
  using assms serve_inv [of s app "HeartbeatReq (row_id r)"] unfolding holds_address_def
  by (auto simp: heartbeat_run [OF assms] in_update_where simp del: serve.simps)

lemma publish_keeps:
  assumes "faults s = []"
  shows "\<exists>cands. snd (run_state (handle_publish_candidates i cs) s)
     = (drop_times (length cs) s)\<lparr>tables := (tables s)\<lparr>candidates := cands\<rparr>\<rparr>"
  using assms
proof (induction cs arbitrary: s)
  case Nil
  show ?case by (rule exI [of _ "candidates (tables s)"]) (simp add: drop_times_def)
next
  case (Cons a cs)
  obtain cands where one: "run_state (upsert_candidate i a) s =
      (Ok 1, s\<lparr>times := tl (times s), tables := (tables s)\<lparr>candidates := cands\<rparr>\<rparr>)"
    using Cons.prems by (simp add: upsert_candidate_def run_unix_now run_execute_ok Let_def)
  from Cons.IH [of "s\<lparr>times := tl (times s), tables := (tables s)\<lparr>candidates := cands\<rparr>\<rparr>"] Cons.prems
  show ?case by (simp add: one drop_times_def drop_Suc)
qed

lemma peers_keeps:
  assumes "db_inv (tables s)" and "faults s = []"
  shows "snd (run_state (serve app PeersReq) s) = drop_times 1 s"
  using assms
  by (simp add: handle_peers_def list_approved_def run_query_ok records_by_created run_unix_now drop_times_def drop_Suc)

lemma holds_drop_times [simp]: "holds_address r (drop_times n s) = holds_address r s"
  by (simp add: holds_address_def drop_times_def)

lemma publish_holds:
  assumes "holds_address r s"
  shows "\<exists>s'. snd (run_state (serve app (PublishCandidatesReq i cs)) s) = s'
     \<and> holds_address r s' \<and> times s' = drop (length cs) (times s)"
proof -
  obtain cands where c: "snd (run_state (handle_publish_candidates i cs) s)
      = (drop_times (length cs) s)\<lparr>tables := (tables s)\<lparr>candidates := cands\<rparr>\<rparr>"
    using publish_keeps [of s] assms unfolding holds_address_def by blast
  moreover have "snd (run_state (serve app (PublishCandidatesReq i cs)) s) = snd (run_state (handle_publish_candidates i cs) s)"
    by (simp split: prod.split)
  moreover have "db_inv (tables (snd (run_state (serve app (PublishCandidatesReq i cs)) s)))"
    using assms serve_inv by (simp add: holds_address_def del: serve.simps)
  ultimately show ?thesis using assms by (simp add: holds_address_def drop_times_def del: serve.simps)
qed

lemma purge_holds:
  assumes "holds_address r s" and "now_of s - stale_timeout app \<le> row_seen r"
  shows "holds_address r (snd (run_state (serve app PurgeTick) s))"
    and "times (snd (run_state (serve app PurgeTick) s)) = tl (times s)"
proof -
  have inv: "db_inv (tables s)" "faults s = []" and r: "r \<in> set (devices (tables s))"
    using assms(1) by (simp_all add: holds_address_def)
  have run: "snd (run_state (serve app PurgeTick) s) = snd (run_state (purge_stale (stale_timeout app)) s)"
    by (simp split: prod.split)
  have rest: "faults (snd (run_state (purge_stale (stale_timeout app)) s)) = []
      \<and> times (snd (run_state (purge_stale (stale_timeout app)) s)) = tl (times s)"
    using inv(2) by (simp add: purge_stale_def run_unix_now run_execute_ok free_ips_def Let_def)
  have "row_ipv4 x \<noteq> row_ipv4 r" if "x \<in> set (devices (tables s))" "row_seen x < now_of s - stale_timeout app" for x
    using db_invD(1) [OF inv(1)] that r assms(2) unfolding unique_devices_def
    by (metis distinct_map inj_onD leD)
  then show "holds_address r (snd (run_state (serve app PurgeTick) s))"
    using assms serve_inv [OF inv(1), of app PurgeTick] rest unfolding holds_address_def run purge_spec [OF inv refl]
    by force
  show "times (snd (run_state (serve app PurgeTick) s)) = tl (times s)" using rest unfolding run by (rule conjunct2)
qed

section \<open>A device whose daemon ticks is kept\<close>

lemma serve_all_state:
  "snd (run_state (serve_all app (req # reqs)) s) = snd (run_state (serve_all app reqs) (snd (run_state (serve app req) s)))"
  by (simp split: prod.split del: serve.simps)

lemma serve_all_append:
  "snd (run_state (serve_all app (reqs @ reqs')) s) = snd (run_state (serve_all app reqs') (snd (run_state (serve_all app reqs) s)))"
proof (induction reqs arbitrary: s)
  case (Cons req reqs)
  then show ?case by (simp only: append_Cons serve_all_state)
qed simp

lemma startup_holds:
  assumes "holds_address r s"
  shows "holds_address r (snd (run_state (serve_all app (startup_requests i cs)) s))
     \<and> times (snd (run_state (serve_all app (startup_requests i cs)) s)) = drop (Suc (length cs)) (times s)"
proof -
  have peers: "snd (run_state (serve_all app [PeersReq]) t) = drop_times 1 t" if "holds_address r t" for t
    using that peers_keeps by (simp add: holds_address_def serve_all_state del: serve.simps serve_all.simps(2))
  show ?thesis
  proof (cases "cs = []")
    case True
    with assms peers [OF assms] show ?thesis
      by (simp add: startup_requests_def publish_candidates_def del: serve_all.simps) (simp add: drop_times_def)
  next
    case False
    obtain s' where s': "snd (run_state (serve app (PublishCandidatesReq i cs)) s) = s'"
        "holds_address r s'" "times s' = drop (length cs) (times s)"
      using publish_holds [OF assms] by blast
    with False peers [OF s'(2)] show ?thesis
      by (simp add: startup_requests_def publish_candidates_def serve_all_state del: serve_all.simps serve.simps)
         (simp add: drop_times_def)
  qed
qed

lemma round_holds:
  assumes "holds_address r s" and "times s = h # c @ p # rest" and "length c = Suc (length cs)"
    and "p - stale_timeout app \<le> h"
  shows "\<exists>s'. snd (run_state (serve_all app (tick_requests (row_id r) cs @ [PurgeTick])) s) = s'
     \<and> holds_address (r\<lparr>row_seen := h\<rparr>) s' \<and> times s' = rest"
proof -
  let ?s1 = "snd (run_state (serve app (HeartbeatReq (row_id r))) s)"
  let ?s2 = "snd (run_state (serve_all app (startup_requests (row_id r) cs)) ?s1)"
  let ?r = "r\<lparr>row_seen := h\<rparr>"
  have s1: "holds_address ?r ?s1" "times ?s1 = c @ p # rest"
    using heartbeat_holds [OF assms(1), of app] assms(2)
    by (simp_all add: now_of_def heartbeat_run [OF assms(1)] del: serve.simps)
  then have s2: "holds_address ?r ?s2" "times ?s2 = p # rest"
    using startup_holds [OF s1(1), of app "row_id r" cs] assms(3) by simp_all
  have "snd (run_state (serve_all app (tick_requests (row_id r) cs @ [PurgeTick])) s)
      = snd (run_state (serve_all app [PurgeTick]) ?s2)"
    unfolding tick_requests_def by (simp only: append_Cons serve_all_append serve_all_state)
  also have "\<dots> = snd (run_state (serve app PurgeTick) ?s2)" by (simp add: serve_all_state del: serve_all.simps(2) serve.simps)
  finally show ?thesis
    using purge_holds [OF s2(1), of app] assms(4) s2(2) by (simp add: now_of_def del: serve.simps)
qed

text \<open>
  C23: A device whose daemon ticks is kept: however many rounds of the requests of a tick and a
  purge there are, as long as in each round the purge's clock is at most the timeout ahead of
  the heartbeat's, the device stays registered with its key, status and address, its address
  stays accounted for in the pool, and it was last seen at its last heartbeat. The clock of each
  round is read for the heartbeat, the candidates, the peer list and the purge.
\<close>

theorem ticking_device_is_kept:
  assumes "db_inv (tables s)" and "faults s = []" and "r \<in> set (devices (tables s))"
    and "\<exists>p\<in>set (ip_pool (tables s)). ip_text p = row_ipv4 r"
    and "times s = concat (map (\<lambda>(h, c, p). h # c @ [p]) rounds)"
    and "\<forall>(h, c, p)\<in>set rounds. length c = Suc (length cs) \<and> p - stale_timeout app \<le> h"
  shows "let d = tables (snd (run_state
             (serve_all app (concat (map (\<lambda>_. tick_requests (row_id r) cs @ [PurgeTick]) rounds))) s))
     in r\<lparr>row_seen := last (row_seen r # map fst rounds)\<rparr> \<in> set (devices d)
        \<and> (\<exists>p\<in>set (ip_pool d). ip_text p = row_ipv4 r)"
proof -
  have "holds_address (r\<lparr>row_seen := last (row_seen r # map fst rounds)\<rparr>)
      (snd (run_state (serve_all app (concat (map (\<lambda>_. tick_requests (row_id r) cs @ [PurgeTick]) rounds))) s))"
    if "holds_address r s" "times s = concat (map (\<lambda>(h, c, p). h # c @ [p]) rounds)"
      "\<forall>(h, c, p)\<in>set rounds. length c = Suc (length cs) \<and> p - stale_timeout app \<le> h" for r s
    using that
  proof (induction rounds arbitrary: r s)
    case (Cons x rounds)
    obtain h c p where x: "x = (h, c, p)" by (cases x)
    let ?r = "r\<lparr>row_seen := h\<rparr>"
    from round_holds [OF Cons.prems(1), of h c p "concat (map (\<lambda>(h, c, p). h # c @ [p]) rounds)" cs app] Cons.prems(2,3) x
    obtain s' where s': "snd (run_state (serve_all app (tick_requests (row_id r) cs @ [PurgeTick])) s) = s'"
        "holds_address ?r s'" "times s' = concat (map (\<lambda>(h, c, p). h # c @ [p]) rounds)"
      by auto
    have "holds_address (?r\<lparr>row_seen := last (row_seen ?r # map fst rounds)\<rparr>)
        (snd (run_state (serve_all app (concat (map (\<lambda>_. tick_requests (row_id ?r) cs @ [PurgeTick]) rounds))) s'))"
      using Cons.IH [OF s'(2,3)] Cons.prems(3) by simp
    then show ?case
      by (simp add: x serve_all_append flip: s'(1) append_assoc)
  qed simp
  from this [of r s] assms show ?thesis by (simp add: holds_address_def Let_def del: last.simps)
qed

theorem ticking_device_is_kept_witness:
  "let d = tables (snd (run_state (serve_all sample_app
       ([HeartbeatReq 1, PeersReq, PurgeTick] @ [HeartbeatReq 1, PeersReq, PurgeTick]))
       (two_devices\<lparr>times := [2000, 2000, 2200, 2300, 2300, 2500]\<rparr>)))
   in laptop_row\<lparr>row_seen := 2300\<rparr> \<in> set (devices d) \<and> (\<exists>p\<in>set (ip_pool d). ip_text p = ''100.64.0.0'')"
proof -
  let ?s = "two_devices\<lparr>times := [2000, 2000, 2200, 2300, 2300, 2500]\<rparr>"
  have s: "db_inv (tables ?s)" "faults ?s = []" "laptop_row \<in> set (devices (tables ?s))"
      "\<exists>p\<in>set (ip_pool (tables ?s)). ip_text p = row_ipv4 laptop_row"
    using two_devices_ok by (simp_all add: two_devices_def laptop_row_def)
  have t: "times ?s = concat (map (\<lambda>(h, c, p). h # c @ [p]) [(2000, [2000], 2200), (2300, [2300], 2500)])" by simp
  have c: "\<forall>(h, c, p)\<in>set [(2000, [2000], 2200), (2300, [2300], 2500)].
      length c = Suc (length ([] :: string list)) \<and> p - stale_timeout sample_app \<le> (h :: int)"
    by (simp add: sample_app_def)
  from ticking_device_is_kept [OF s t c] show ?thesis
    by (simp add: tick_requests_def startup_requests_def publish_candidates_def laptop_row_def del: serve_all.simps)
qed

end
