(* ===== verification/Mobile_Ffi.thy ===== *)
theory Mobile_Ffi
  imports Text_Format Dns Mobile_Engine
begin

text \<open>
  \<open>apps/mobile/src/ffi.rs\<close>: the C interface of the mobile engine. A pointer is an option
  (\<open>None\<close> is null); a call yields the bytes it writes to the caller's buffer and the number it
  returns, with the casts of the source. The global engine is passed in and out; the text a
  socket address is parsed from may be an IPv6 one, whose parser is an argument.
\<close>

section \<open>Strings and numbers of the interface\<close>

text \<open>\<open>as i32\<close>\<close>

definition as_i32 :: "nat \<Rightarrow> int" where
  "as_i32 n = sint (of_nat n :: 32 word)"

text \<open>The bytes before the terminating zero; what is not UTF-8 reads as the empty string.\<close>

definition cstr_to_str :: "bytes option \<Rightarrow> string" where
  "cstr_to_str ptr =
     (case ptr of None \<Rightarrow> [] | Some bs \<Rightarrow> (if utf8_valid bs then map (\<lambda>b. char_of (unat b)) bs else []))"

definition c_string :: "string \<Rightarrow> bytes" where
  "c_string s = map of_char s @ [0]"

section \<open>The calls\<close>

definition connectalso_init ::
  "(string \<Rightarrow> (ipv6 \<times> u16) option) \<Rightarrow> bytes option \<Rightarrow> (uuid \<times> string) option \<Rightarrow> registrations
     \<Rightarrow> peer_info list option \<Rightarrow> nat \<Rightarrow> tunnel_engine option
     \<Rightarrow> (int \<times> tunnel_engine option \<times> datagram list) panics" where
  "connectalso_init parse6 relay_server answer reg plist now engine =
     (case parse_socket parse6 (cstr_to_str relay_server) of
        None \<Rightarrow> ret (-1, engine, [])
      | Some addr \<Rightarrow> do {
          (r, engine', out) \<leftarrow> engine_init answer reg plist addr now engine;
          ret (case r of Ok _ \<Rightarrow> 0 | Err _ \<Rightarrow> -1, engine', out) })"

definition copy_out :: "bytes \<Rightarrow> nat \<Rightarrow> bytes \<times> int" where
  "copy_out data out_buf_len = (let len = min (length data) out_buf_len in (take len data, as_i32 len))"

definition connectalso_send_packet ::
  "bytes option \<Rightarrow> bool \<Rightarrow> nat \<Rightarrow> (uuid \<Rightarrow> bool) \<Rightarrow> nat \<Rightarrow> tunnel_engine option
     \<Rightarrow> ((bytes \<times> int) \<times> tunnel_engine option \<times> datagram list) panics" where
  "connectalso_send_packet packet null_out out_buf_len send_ok now engine =
     (case packet of
        None \<Rightarrow> ret (([], -1), engine, [])
      | Some data \<Rightarrow>
          (if null_out then ret (([], -1), engine, [])
           else do {
             (r, engine', out) \<leftarrow> engine_send_packet send_ok now data engine;
             ret (case r of Ok result \<Rightarrow> copy_out result out_buf_len | Err _ \<Rightarrow> ([], -1), engine', out) }))"

definition connectalso_recv_packet ::
  "bool \<Rightarrow> nat \<Rightarrow> (uuid \<Rightarrow> (io_error + bytes) list) \<Rightarrow> tunnel_engine option \<Rightarrow> (bytes \<times> int) panics" where
  "connectalso_recv_packet null_out out_buf_len inbox engine =
     (if null_out then ret ([], -1)
      else do {
        r \<leftarrow> engine_recv_packet inbox engine;
        ret (case r of Ok data \<Rightarrow> copy_out data out_buf_len | Err _ \<Rightarrow> ([], 0)) })"

text \<open>\<open>timed_out\<close>: the timer fires before the engine has polled its peers.\<close>

definition connectalso_recv_packet_timeout ::
  "bool \<Rightarrow> nat \<Rightarrow> bool \<Rightarrow> (uuid \<Rightarrow> (io_error + bytes) list) \<Rightarrow> tunnel_engine option \<Rightarrow> (bytes \<times> int) panics" where
  "connectalso_recv_packet_timeout null_out out_buf_len timed_out inbox engine =
     (if null_out then ret ([], -1)
      else if timed_out then ret ([], 0)
      else do {
        r \<leftarrow> engine_recv_packet inbox engine;
        ret (case r of Ok data \<Rightarrow> copy_out data out_buf_len | Err _ \<Rightarrow> ([], 0)) })"

definition connectalso_shutdown :: "tunnel_engine option \<Rightarrow> tunnel_engine option" where
  "connectalso_shutdown engine = engine"

definition connectalso_reconnect ::
  "registrations \<Rightarrow> (uuid \<Rightarrow> bool) \<Rightarrow> peer_info list option \<Rightarrow> tunnel_engine option
     \<Rightarrow> (int \<times> tunnel_engine option \<times> datagram list) panics" where
  "connectalso_reconnect reg send_ok answer engine = do {
     (r, engine', out) \<leftarrow> engine_reconnect reg send_ok answer engine;
     ret (case r of Ok _ \<Rightarrow> 0 | Err _ \<Rightarrow> -1, engine', out) }"

definition connectalso_get_virtual_ip :: "bool \<Rightarrow> nat \<Rightarrow> tunnel_engine option \<Rightarrow> bytes \<times> int" where
  "connectalso_get_virtual_ip null_out out_len engine =
     (if null_out then ([], -1)
      else (case engine of
              None \<Rightarrow> ([], -1)
            | Some e \<Rightarrow>
                (let bytes = c_string (show_ipv4 (en_our_ip e));
                     len = min (length bytes) out_len
                 in (take len bytes, as_i32 (length bytes - 1)))))"

section \<open>Buffers\<close>

lemma as_i32_small: "n < 2 ^ 31 \<Longrightarrow> as_i32 n = int n"
  by (simp add: as_i32_def signed_of_nat signed_take_bit_int_eq_self)

lemma copy_out_bounds:
  "copy_out data n = (written, k) \<Longrightarrow> length written \<le> n \<and> written = take n data
     \<and> (n < 2 ^ 31 \<longrightarrow> k = int (length written))"
  by (auto simp: copy_out_def Let_def as_i32_small min_def)

lemma length_show_ipv4: "length (show_ipv4 ip) \<le> 15"
proof -
  obtain a b c d where o: "ipv4_octets ip = [a, b, c, d]" by (rule ipv4_octets_cases)
  have "length (show_nat (unat (w :: u8))) \<le> 3" for w
    using unat_bound [of w] by (simp add: length_show_nat_255)
  from this [of a] this [of b] this [of c] this [of d] show ?thesis
    by (simp add: show_ipv4_def o)
qed

lemma of_char_less_256: "(of_char c :: nat) < 256"
  by (cases c) (simp split: bool.splits)

lemma of_char_u8_nonzero:
  assumes "46 \<le> (of_char c :: nat)" "(of_char c :: nat) < 256"
  shows "(of_char c :: u8) \<noteq> 0"
proof -
  have "(of_char c :: u8) = of_nat (of_char c)" by (cases c) (simp split: bool.splits)
  moreover have "unat (of_nat (of_char c) :: u8) = of_char c"
    using assms(2) by (simp add: unat_of_nat)
  ultimately show ?thesis using assms(1) by auto
qed

text \<open>
  The address of the device is written with its terminating zero exactly when the caller's
  buffer has room for both. Otherwise the call still returns the full length, and the bytes it
  wrote are not a terminated string.
\<close>

theorem virtual_ip_buffer:
  "(case connectalso_get_virtual_ip False out_len (Some e) of
      (written, result) \<Rightarrow>
        result = int (length (show_ipv4 (en_our_ip e)))
        \<and> length written \<le> out_len
        \<and> (if length (show_ipv4 (en_our_ip e)) < out_len
           then written = c_string (show_ipv4 (en_our_ip e))
           else written = map of_char (take out_len (show_ipv4 (en_our_ip e))) \<and> 0 \<notin> set written))"
proof -
  have "(of_char c :: u8) \<noteq> 0" if "c \<in> set (show_ipv4 ip)" for c ip
  proof -
    have "c = CHR ''.'' \<or> is_digit c" using show_ipv4_chars [of c ip] that by blast
    then have "46 \<le> (of_char c :: nat)" by (auto simp: is_digit_def)
    moreover have "(of_char c :: nat) < 256" by (rule of_char_less_256)
    ultimately show ?thesis by (rule of_char_u8_nonzero)
  qed
  then have nz: "0 \<notin> set (map of_char (take n (show_ipv4 ip)) :: bytes)" for n ip
    by (auto dest: in_set_takeD)
  show ?thesis
    using nz [of out_len "en_our_ip e"] as_i32_small [of "length (show_ipv4 (en_our_ip e))"]
      length_show_ipv4 [of "en_our_ip e"]
    by (auto simp: connectalso_get_virtual_ip_def c_string_def Let_def min_def take_map not_less)
qed

section \<open>Sending a packet\<close>

lemma mobile_parse_dst_ip:
  "Mobile_Engine.parse_dst_ip packet =
     ret (if is_ipv4_packet packet then Some (pkt_dst_ip (packet_fields packet)) else None)"
proof (cases "length packet < 20")
  case True
  then show ?thesis by (simp add: Mobile_Engine.parse_dst_ip_def is_ipv4_packet_def)
next
  case False
  then have "packet \<noteq> []" by auto
  with False show ?thesis
    by (simp add: Mobile_Engine.parse_dst_ip_def is_ipv4_packet_def packet_fields_def Let_def ipv4_new_take_dst)
qed

lemma send_to_peer_inner_cases:
  "send_to_peer_inner send_ok e packet dst =
     (case find (\<lambda>(_, p). ps_vip p = dst) (en_peers e) of
        None \<Rightarrow> ret (Err (NoRoute dst), [])
      | Some (i, p) \<Rightarrow>
          (if length packet \<le> MAX_PAYLOAD
           then ret (if send_ok i then Ok () else Err SendFailed, delivery send_ok e (packet, dst))
           else panic))"
proof (cases "find (\<lambda>(_, p). ps_vip p = dst) (en_peers e)")
  case None
  then show ?thesis by (simp add: send_to_peer_inner_def)
next
  case (Some ip)
  obtain i p where ip: "ip = (i, p)" by fastforce
  show ?thesis
  proof (cases "length packet \<le> MAX_PAYLOAD")
    case True
    then obtain bs where "encode (frame_data (our_id (ps_relay p)) (peer_id_of (ps_relay p)) packet) = Ok bs"
      using encode_Ok_iff [of "frame_data (our_id (ps_relay p)) (peer_id_of (ps_relay p)) packet"]
      by (auto simp: frame_data_def)
    with True Some ip show ?thesis by (simp add: send_to_peer_inner_def delivery_def client_send_def)
  next
    case False
    then have "client_send (ps_relay p) packet ok = panic" for ok
      using client_send_spec [of "ps_relay p" packet ok] by simp
    with False Some ip show ?thesis by (simp add: send_to_peer_inner_def)
  qed
qed

text \<open>
  What sending a packet through the C interface does, on every branch: what is not an IPv4
  packet is refused; a packet for the device itself comes back in the buffer, cut to it; while
  the engine reconnects every packet is reported as sent; for an unknown address the call fails;
  for a peer it emits one datagram, or panics if the packet is longer than 2048 bytes.
\<close>

theorem send_packet_spec:
  "connectalso_send_packet (Some data) False n send_ok now (Some e) =
     (let dst = pkt_dst_ip (packet_fields data); e' = mark_traffic now e
      in if \<not> is_ipv4_packet data then ret (([], -1), Some e, [])
         else if dst = en_our_ip e then ret (copy_out data n, Some e, [])
         else if en_state e = Reconnecting
         then ret (([], 0), Some (if length (en_queue e) < 256 then e'\<lparr>en_queue := en_queue e @ [(data, dst)]\<rparr> else e'), [])
         else (case find (\<lambda>(_, p). ps_vip p = dst) (en_peers e) of
                 None \<Rightarrow> ret (([], -1), Some e', [])
               | Some (i, p) \<Rightarrow>
                   (if length data \<le> MAX_PAYLOAD
                    then ret (([], if send_ok i then 0 else -1), Some e', delivery send_ok e' (data, dst))
                    else panic)))"
proof (cases "is_ipv4_packet data \<and> pkt_dst_ip (packet_fields data) \<noteq> en_our_ip e \<and> en_state e \<noteq> Reconnecting")
  case True
  then show ?thesis
    by (auto simp: connectalso_send_packet_def engine_send_packet_def mobile_parse_dst_ip send_to_peer_def
        send_to_peer_inner_cases copy_out_def as_i32_def Let_def split: option.splits prod.splits)
next
  case False
  then show ?thesis
    by (auto simp: connectalso_send_packet_def engine_send_packet_def mobile_parse_dst_ip send_to_peer_def
        copy_out_def as_i32_def MAX_QUEUED_PACKETS_def Let_def)
qed

end
