(* ===== verification/Mobile_Android.thy ===== *)
theory Mobile_Android
  imports Mobile_Ffi
begin

text \<open>
  \<open>apps/mobile/src/android.rs\<close>: the Java interface of the mobile engine, one definition per
  exported function. A Java object is an option (\<open>None\<close> is null, or an object the JNI cannot
  read); whether the JNI can build a result is an argument. The environment holds the exception
  that the call leaves for Java, as the prefix of its message and the error that completes it.

  The file runs the engine's futures on \<open>engine::RUNTIME\<close>, a \<open>OnceLock\<close> that is never filled; as the
  text stands it does not compile for Android. The calls are read as running on the runtime that the
  lock is declared to hold, the way \<open>ffi.rs\<close> runs them on its own.
\<close>

section \<open>The environment\<close>

datatype jni_error = BadRelay | Unreadable | NoArray | EngineFailed engine_error

record jni_env =
  can_throw :: bool
  pending :: "(string \<times> jni_error) option"

definition jstring_to_str :: "string option \<Rightarrow> string" where
  "jstring_to_str s = (case s of Some t \<Rightarrow> t | None \<Rightarrow> [])"

definition throw :: "string \<Rightarrow> jni_error \<Rightarrow> jni_env \<Rightarrow> jni_env" where
  "throw msg e env = (if can_throw env then env\<lparr>pending := Some (msg, e)\<rparr> else env)"

section \<open>The calls\<close>

definition RustBridge_init ::
  "(string \<Rightarrow> (ipv6 \<times> u16) option) \<Rightarrow> string option \<Rightarrow> (uuid \<times> string) option \<Rightarrow> registrations
     \<Rightarrow> peer_info list option \<Rightarrow> nat \<Rightarrow> tunnel_engine option \<Rightarrow> jni_env
     \<Rightarrow> (bool \<times> jni_env \<times> tunnel_engine option \<times> datagram list) panics" where
  "RustBridge_init parse6 relay_server answer reg plist now engine env =
     (case parse_socket parse6 (jstring_to_str relay_server) of
        None \<Rightarrow> ret (False, throw ''invalid relay: '' BadRelay env, engine, [])
      | Some addr \<Rightarrow> do {
          (r, engine', out) \<leftarrow> engine_init answer reg plist addr now engine;
          ret (case r of
                 Ok _ \<Rightarrow> (True, env, engine', out)
               | Err e \<Rightarrow> (False, throw ''init failed: '' (EngineFailed e) env, engine', out)) })"

text \<open>A placeholder in the source: it only logs.\<close>

definition RustBridge_protectSocket :: "int \<Rightarrow> tunnel_engine option \<Rightarrow> tunnel_engine option" where
  "RustBridge_protectSocket fd engine = engine"

definition RustBridge_sendPacket ::
  "bytes option \<Rightarrow> bool \<Rightarrow> (uuid \<Rightarrow> bool) \<Rightarrow> nat \<Rightarrow> tunnel_engine option \<Rightarrow> jni_env
     \<Rightarrow> (bytes option \<times> jni_env \<times> tunnel_engine option \<times> datagram list) panics" where
  "RustBridge_sendPacket packet array_ok send_ok now engine env =
     (case packet of
        None \<Rightarrow> ret (None, throw ''bad input: '' Unreadable env, engine, [])
      | Some data \<Rightarrow> do {
          (r, engine', out) \<leftarrow> engine_send_packet send_ok now data engine;
          ret (case r of
                 Ok result \<Rightarrow>
                   (if array_ok then (Some result, env, engine', out)
                    else (None, throw ''output error: '' NoArray env, engine', out))
               | Err e \<Rightarrow> (None, throw ''send failed: '' (EngineFailed e) env, engine', out)) })"

definition RustBridge_recvPacket ::
  "bool \<Rightarrow> (uuid \<Rightarrow> (io_error + bytes) list) \<Rightarrow> tunnel_engine option \<Rightarrow> jni_env
     \<Rightarrow> (bytes option \<times> jni_env) panics" where
  "RustBridge_recvPacket array_ok inbox engine env = do {
     r \<leftarrow> engine_recv_packet inbox engine;
     ret (case r of
            Ok data \<Rightarrow>
              (if array_ok then (Some data, env) else (None, throw ''output error: '' NoArray env))
          | Err _ \<Rightarrow> (None, env)) }"

text \<open>\<open>Handle::block_on\<close> panics on a thread that already runs a future of the runtime.\<close>

definition handle_block_on :: "bool \<Rightarrow> 'a \<Rightarrow> 'a panics" where
  "handle_block_on inside_runtime x = (if inside_runtime then panic else ret x)"

definition RustBridge_getVirtualIP :: "bool \<Rightarrow> tunnel_engine option \<Rightarrow> string option panics" where
  "RustBridge_getVirtualIP string_ok engine = do {
     r \<leftarrow> (case engine of
             None \<Rightarrow> ret (Err ())
           | Some arc \<Rightarrow> do {
               e \<leftarrow> handle_block_on True arc;
               ret (Ok (show_ipv4 (en_our_ip e))) });
     ret (case r of Ok ip \<Rightarrow> (if string_ok then Some ip else None) | Err _ \<Rightarrow> None) }"

text \<open>It only logs: the engine stays.\<close>

definition RustBridge_shutdown :: "tunnel_engine option \<Rightarrow> tunnel_engine option" where
  "RustBridge_shutdown engine = engine"

definition RustBridge_reconnect ::
  "registrations \<Rightarrow> (uuid \<Rightarrow> bool) \<Rightarrow> peer_info list option \<Rightarrow> tunnel_engine option
     \<Rightarrow> (bool \<times> tunnel_engine option \<times> datagram list) panics" where
  "RustBridge_reconnect reg send_ok answer engine = do {
     (r, engine', out) \<leftarrow> engine_reconnect reg send_ok answer engine;
     ret (case r of Ok _ \<Rightarrow> True | Err _ \<Rightarrow> False, engine', out) }"

section \<open>The two interfaces of the engine\<close>

text \<open>What a Java result is in the C interface: null is the error, a flag the status.\<close>

definition c_status :: "bool \<Rightarrow> int" where
  "c_status ok = (if ok then 0 else -1)"

definition c_result :: "nat \<Rightarrow> int \<Rightarrow> bytes option \<Rightarrow> bytes \<times> int" where
  "c_result n null r = (case r of Some data \<Rightarrow> copy_out data n | None \<Rightarrow> ([], null))"

text \<open>
  Under this reading the Java calls to start, send, receive, reconnect and shut down do what the C
  calls do when the buffers are not null and the JNI can build the arrays: the same engine afterwards,
  the same datagrams and panics, with \<open>true\<close> for 0, an array for bytes in the buffer, and null for an
  error (of a send) or for no data (of a receive). The call for the address differs, see below.
\<close>

theorem android_matches_c:
  "connectalso_init parse6 (Some relay) answer reg plist now engine =
     do { (ok, _, engine', out) \<leftarrow> RustBridge_init parse6 (Some (cstr_to_str (Some relay))) answer reg plist now engine env;
          ret (c_status ok, engine', out) }
   \<and> connectalso_send_packet packet False n send_ok now engine =
     do { (r, _, engine', out) \<leftarrow> RustBridge_sendPacket packet True send_ok now engine env;
          ret (c_result n (-1) r, engine', out) }
   \<and> connectalso_recv_packet False n inbox engine =
     do { (r, _) \<leftarrow> RustBridge_recvPacket True inbox engine env; ret (c_result n 0 r) }
   \<and> connectalso_reconnect reg send_ok plist engine =
     do { (ok, engine', out) \<leftarrow> RustBridge_reconnect reg send_ok plist engine;
          ret (c_status ok, engine', out) }
   \<and> connectalso_shutdown engine = RustBridge_shutdown engine"
proof (intro conjI)
  show "connectalso_init parse6 (Some relay) answer reg plist now engine =
     do { (ok, _, engine', out) \<leftarrow> RustBridge_init parse6 (Some (cstr_to_str (Some relay))) answer reg plist now engine env;
          ret (c_status ok, engine', out) }"
    by (auto simp: connectalso_init_def RustBridge_init_def jstring_to_str_def c_status_def
        split: option.split sum.split intro!: Option.bind_cong)
  show "connectalso_send_packet packet False n send_ok now engine =
     do { (r, _, engine', out) \<leftarrow> RustBridge_sendPacket packet True send_ok now engine env;
          ret (c_result n (-1) r, engine', out) }"
    by (auto simp: connectalso_send_packet_def RustBridge_sendPacket_def c_result_def
        split: option.split sum.split intro!: Option.bind_cong)
  show "connectalso_recv_packet False n inbox engine =
     do { (r, _) \<leftarrow> RustBridge_recvPacket True inbox engine env; ret (c_result n 0 r) }"
    by (auto simp: connectalso_recv_packet_def RustBridge_recvPacket_def c_result_def
        split: option.split sum.split intro!: Option.bind_cong)
  show "connectalso_reconnect reg send_ok plist engine =
     do { (ok, engine', out) \<leftarrow> RustBridge_reconnect reg send_ok plist engine;
          ret (c_status ok, engine', out) }"
    by (auto simp: connectalso_reconnect_def RustBridge_reconnect_def c_status_def
        split: option.split sum.split intro!: Option.bind_cong)
  show "connectalso_shutdown engine = RustBridge_shutdown engine"
    by (simp add: connectalso_shutdown_def RustBridge_shutdown_def)
qed

text \<open>
  The address of the device is never read through the Java interface: before the engine is there
  the call gives null, afterwards it panics, since it blocks on the inner lock from within the
  runtime. The C interface gives the address.
\<close>

theorem android_never_shows_address:
  "RustBridge_getVirtualIP string_ok engine = (case engine of None \<Rightarrow> ret None | Some _ \<Rightarrow> panic)"
  by (simp add: RustBridge_getVirtualIP_def handle_block_on_def split: option.split)

text \<open>
  Exceptions and null: when the JNI can throw, sending gives null exactly when it leaves an exception,
  initialising gives false exactly then; receiving with nothing to read gives null and no
  exception.
\<close>

lemma android_send_exception:
  assumes "can_throw env" and "pending env = None"
    and "RustBridge_sendPacket packet array_ok send_ok now engine env = ret (r, env', engine', out)"
  shows "r = None \<longleftrightarrow> pending env' \<noteq> None"
proof (cases packet)
  case None
  with assms show ?thesis by (auto simp: RustBridge_sendPacket_def throw_def)
next
  case (Some data)
  with assms(3) obtain r0 e0 o0 where "engine_send_packet send_ok now data engine = ret (r0, e0, o0)"
    by (auto simp: RustBridge_sendPacket_def bind_eq_Some_conv)
  with Some assms show ?thesis
    by (cases r0) (auto simp: RustBridge_sendPacket_def throw_def split: if_splits)
qed

lemma android_init_exception:
  assumes "can_throw env" and "pending env = None"
    and "RustBridge_init parse6 relay answer reg plist now engine env = ret (ok, env', engine', out)"
  shows "ok \<longleftrightarrow> pending env' = None"
proof (cases "parse_socket parse6 (jstring_to_str relay)")
  case None
  with assms show ?thesis by (auto simp: RustBridge_init_def throw_def)
next
  case (Some addr)
  with assms(3) obtain r0 e0 o0 where "engine_init answer reg plist addr now engine = ret (r0, e0, o0)"
    by (auto simp: RustBridge_init_def bind_eq_Some_conv)
  with Some assms show ?thesis by (cases r0) (auto simp: RustBridge_init_def throw_def)
qed

end
