(* ===== verification/Cli.thy ===== *)
theory Cli
  imports Text_Format Daemon Control_Backup
begin

text \<open>
  \<open>apps/cli/src/main.rs\<close>, the command-line client. A command yields its result and the lines it
  prints (the arguments of \<open>println!\<close>); a panic, which only slicing can cause, loses the output.
  The HTTP exchange is an argument: no answer, or a status code and the decoded body, where
  \<open>None\<close> is a body that is not the JSON expected. Fields the source reads with
  \<open>as_bool\<close>, \<open>as_str\<close> and \<open>as_array\<close> are options.
\<close>

section \<open>Formatting\<close>

definition fmt_duration :: "nat \<Rightarrow> string" where
  "fmt_duration secs =
     (let h = secs div 3600; m = (secs mod 3600) div 60; s = secs mod 60
      in if h > 0 then show_nat h @ ''h '' @ show_nat m @ ''m '' @ show_nat s @ ''s''
         else if m > 0 then show_nat m @ ''m '' @ show_nat s @ ''s''
         else show_nat s @ ''s'')"

definition tick_icon :: string where "tick_icon = [CHR 0xE2, CHR 0x9C, CHR 0x93]"
definition cross_icon :: string where "cross_icon = [CHR 0xE2, CHR 0x9C, CHR 0x97]"
definition warn_icon :: string where "warn_icon = [CHR 0xE2, CHR 0x9A, CHR 0xA0]"
definition box_rule :: string where "box_rule = [CHR 0xE2, CHR 0x94, CHR 0x80]"
definition em_dash :: string where "em_dash = [CHR 0xE2, CHR 0x80, CHR 0x94]"
definition apostrophe :: string where "apostrophe = [CHR 0x27]"
definition newline :: string where "newline = [CHR 0x0A]"

definition status_icon :: "string \<Rightarrow> string" where
  "status_icon st =
     (if st = ''ok'' then tick_icon else if st = ''warn'' then warn_icon
      else if st = ''error'' then cross_icon else ''?'')"

section \<open>Replies\<close>

datatype 'a http_reply = HttpNone | HttpStatus nat "'a option"

definition is_success :: "nat \<Rightarrow> bool" where "is_success code \<longleftrightarrow> 200 \<le> code \<and> code < 300"
definition is_server_error :: "nat \<Rightarrow> bool" where "is_server_error code \<longleftrightarrow> 500 \<le> code \<and> code < 600"

datatype cli_error = RequestFailed | BadJson | StdinFailed

type_synonym cli_output = "(cli_error + unit) \<times> string list"

record cli_peer =
  cp_device_id :: string
  cp_virtual_ip :: string
  cp_hostname :: string
  cp_path :: string

record cli_status =
  cs_device_id :: string
  cs_virtual_ip :: string
  cs_hostname :: string
  cs_uptime_secs :: nat
  cs_peer_count :: nat
  cs_peers :: "cli_peer list"

record cli_check =
  cc_status :: string
  cc_detail :: string
  cc_latency_ms :: "nat option"

record cli_peer_diag =
  cd_hostname :: string
  cd_virtual_ip :: string
  cd_path :: string
  cd_reachable :: bool

record cli_diagnostics =
  di_daemon :: cli_check
  di_control :: cli_check
  di_stun :: cli_check
  di_relay :: cli_check
  di_tun :: cli_check
  di_peers :: "cli_peer_diag list"

section \<open>Commands to the daemon\<close>

definition peer_row :: "bool \<Rightarrow> cli_peer \<Rightarrow> string panics" where
  "peer_row verbose p =
     (if verbose then do {
        i \<leftarrow> str_prefix (cp_device_id p) (min (length (cp_device_id p)) 16);
        ret (''  '' @ pad_right 16 i @ ''  '' @ pad_right 16 (cp_virtual_ip p) @ ''  ''
             @ pad_right 10 (cp_path p) @ ''  '' @ cp_hostname p) }
      else do {
        i \<leftarrow> str_prefix (cp_device_id p) (min (length (cp_device_id p)) 20);
        ret (''  '' @ pad_right 20 i @ ''  '' @ pad_right 16 (cp_virtual_ip p) @ ''  '' @ cp_hostname p) })"

definition peer_header :: "bool \<Rightarrow> string list" where
  "peer_header verbose =
     (if verbose
      then [''  '' @ pad_right 16 ''PEER'' @ ''  '' @ pad_right 16 ''VIRTUAL IP'' @ ''  ''
              @ pad_right 10 ''PATH'' @ ''  HOSTNAME'', ''  '' @ replicate 64 (CHR ''-'')]
      else [''  '' @ pad_right 20 ''PEER'' @ ''  '' @ pad_right 16 ''VIRTUAL IP'' @ ''  HOSTNAME'',
            ''  '' @ replicate 58 (CHR ''-'')])"

definition not_running :: string where
  "not_running = ''Daemon not running. Use: connectalso start''"

definition cmd_status :: "cli_status http_reply \<Rightarrow> bool \<Rightarrow> cli_output panics" where
  "cmd_status resp verbose =
     (case resp of
        HttpNone \<Rightarrow> ret (Ok (), [not_running])
      | HttpStatus code body \<Rightarrow>
          (if is_success code
           then (case body of
                   None \<Rightarrow> ret (Err BadJson, [])
                 | Some s \<Rightarrow> do {
                     rows \<leftarrow> map_panics (peer_row verbose) (cs_peers s);
                     ret (Ok (),
                       [''ConnectAlso Daemon'',
                        ''  Device ID : '' @ cs_device_id s,
                        ''  Virtual IP: '' @ cs_virtual_ip s,
                        ''  Hostname  : '' @ cs_hostname s,
                        ''  Uptime    : '' @ fmt_duration (cs_uptime_secs s),
                        ''  Peers     : '' @ show_nat (cs_peer_count s)]
                       @ (if cs_peers s = [] then [] else [''''] @ peer_header verbose @ rows)) })
           else if is_server_error code then ret (Ok (), [''Daemon error.''])
           else ret (Ok (), [not_running])))"

definition check_line :: "string \<times> cli_check \<Rightarrow> string" where
  "check_line nc =
     (case nc of (name, check) \<Rightarrow>
        ''  '' @ status_icon (cc_status check) @ '' '' @ name @ '': '' @ cc_detail check
        @ (case cc_latency_ms check of None \<Rightarrow> [] | Some ms \<Rightarrow> '' ('' @ show_nat ms @ ''ms)''))"

definition diag_peer_line :: "cli_peer_diag \<Rightarrow> string" where
  "diag_peer_line p =
     ''    '' @ (if cd_reachable p then tick_icon else cross_icon) @ '' '' @ pad_right 12 (cd_hostname p)
     @ ''  '' @ pad_right 16 (cd_virtual_ip p) @ ''  path='' @ cd_path p"

definition diag_checks :: "cli_diagnostics \<Rightarrow> (string \<times> cli_check) list" where
  "diag_checks d =
     [(''Daemon '', di_daemon d), (''Control'', di_control d), (''STUN   '', di_stun d),
      (''Relay  '', di_relay d), (''TUN    '', di_tun d)]"

definition all_passed :: string where "all_passed = newline @ ''All checks passed.''"

definition cmd_diag :: "cli_diagnostics http_reply \<Rightarrow> cli_output" where
  "cmd_diag resp =
     (case resp of
        HttpNone \<Rightarrow> (Ok (), [not_running])
      | HttpStatus code body \<Rightarrow>
          (if is_success code
           then (case body of
                   None \<Rightarrow> (Err BadJson, [])
                 | Some d \<Rightarrow>
                     (Ok (),
                      [''ConnectAlso Diagnostics'', concat (replicate 52 box_rule)]
                      @ map check_line (diag_checks d)
                      @ (if di_peers d = [] then [] else ['''', ''  Peers:''] @ map diag_peer_line (di_peers d))
                      @ (if list_all (\<lambda>(_, c). cc_status c = ''ok'') (diag_checks d) then [all_passed] else [])))
           else (Ok (), [not_running])))"

text \<open>
  \<open>cmd_start\<close>: the lines of standard output and of standard error, and the arguments of the
  process it spawns; \<open>child\<close> is the process id if there is such a program.
\<close>

definition start_args :: "(ipv6 \<Rightarrow> u16 \<Rightarrow> string) \<Rightarrow> string \<Rightarrow> socket_addr \<Rightarrow> socket_addr \<Rightarrow> string \<Rightarrow> string list" where
  "start_args show6 control_url stun_server relay_server hostname =
     [''--control-url'', control_url, ''--stun-server'', show_socket show6 stun_server,
      ''--relay-server'', show_socket show6 relay_server, ''--hostname'', hostname]"

definition cmd_start ::
  "(ipv6 \<Rightarrow> u16 \<Rightarrow> string) \<Rightarrow> string \<Rightarrow> socket_addr \<Rightarrow> socket_addr \<Rightarrow> string \<Rightarrow> bool \<Rightarrow> nat option
     \<Rightarrow> string list \<times> string list \<times> string list option" where
  "cmd_start show6 control_url stun_server relay_server hostname already_running child =
     (let banner = [''ConnectAlso Desktop Alpha'', ''  Control : '' @ control_url,
                    ''  STUN    : '' @ show_socket show6 stun_server,
                    ''  Relay   : '' @ show_socket show6 relay_server, ''  Host    : '' @ hostname]
      in if already_running then (banner @ [newline @ ''Daemon already running.''], [], None)
         else (case child of
                 Some pid \<Rightarrow>
                   (banner @ [''Daemon started (PID: '' @ show_nat pid @ '').''], [],
                    Some (start_args show6 control_url stun_server relay_server hostname))
               | None \<Rightarrow>
                   (banner,
                    [apostrophe @ ''connectalso-daemon'' @ apostrophe @ '' not found. Run:'',
                     ''  cargo run -p connectalso-daemon -- --control-url '' @ control_url
                       @ '' --hostname '' @ hostname], None)))"

definition cmd_stop :: "unit http_reply \<Rightarrow> cli_output" where
  "cmd_stop resp =
     (case resp of
        HttpStatus code _ \<Rightarrow>
          (if is_success code then (Ok (), [''Shutdown requested.'']) else (Ok (), [''Daemon not running.'']))
      | HttpNone \<Rightarrow> (Ok (), [''Daemon not running.'']))"

section \<open>Commands to the control service\<close>

text \<open>\<open>send().await?.json().await?\<close>: the status code is not looked at.\<close>

definition json_body :: "'a http_reply \<Rightarrow> cli_error + 'a" where
  "json_body resp =
     (case resp of
        HttpNone \<Rightarrow> Err RequestFailed
      | HttpStatus _ None \<Rightarrow> Err BadJson
      | HttpStatus _ (Some x) \<Rightarrow> Ok x)"

definition or_dash :: "string option \<Rightarrow> string" where
  "or_dash x = (case x of None \<Rightarrow> ''-'' | Some s \<Rightarrow> s)"

definition is_true :: "bool option \<Rightarrow> bool" where
  "is_true x \<longleftrightarrow> x = Some True"

record json_device =
  js_device_id :: "string option"
  js_hostname :: "string option"
  js_ipv4 :: "string option"
  js_status :: "string option"

definition unwrap_list :: "'a list option \<Rightarrow> 'a list" where
  "unwrap_list x = (case x of None \<Rightarrow> [] | Some xs \<Rightarrow> xs)"

definition pending_line :: "json_device \<Rightarrow> string" where
  "pending_line d = ''  '' @ or_dash (js_device_id d) @ ''  '' @ or_dash (js_hostname d) @ ''  '' @ or_dash (js_ipv4 d)"

definition cmd_admin_pending :: "json_device list option http_reply \<Rightarrow> cli_output" where
  "cmd_admin_pending resp =
     (case json_body resp of
        Err e \<Rightarrow> (Err e, [])
      | Ok body \<Rightarrow>
          (let pending = unwrap_list body
           in if pending = [] then (Ok (), [''No pending devices.''])
              else (Ok (), [''Pending devices ('' @ show_nat (length pending) @ '')''] @ map pending_line pending
                      @ [newline @ ''Approve: connectalso admin approve <device_id>''])))"

definition cmd_admin_approve :: "string \<Rightarrow> bool option http_reply \<Rightarrow> cli_output" where
  "cmd_admin_approve device_id resp =
     (case json_body resp of
        Err e \<Rightarrow> (Err e, [])
      | Ok approved \<Rightarrow>
          (Ok (), [if is_true approved then ''Device '' @ device_id @ '' approved.''
                   else ''Approval failed '' @ em_dash @ '' device not found or already approved.'']))"

definition cmd_admin_revoke :: "string \<Rightarrow> bool option http_reply \<Rightarrow> cli_output" where
  "cmd_admin_revoke device_id resp =
     (case json_body resp of
        Err e \<Rightarrow> (Err e, [])
      | Ok revoked \<Rightarrow>
          (Ok (), [if is_true revoked then ''Device '' @ device_id @ '' revoked.'' else ''Revocation failed.'']))"

definition admin_peer_line :: "json_device \<Rightarrow> string" where
  "admin_peer_line d =
     ''  '' @ pad_right 38 (or_dash (js_device_id d)) @ ''  '' @ pad_right 16 (or_dash (js_ipv4 d)) @ ''  ''
     @ pad_right 12 (or_dash (js_status d)) @ ''  '' @ or_dash (js_hostname d)"

definition cmd_admin_peers :: "json_device list option http_reply \<Rightarrow> cli_output" where
  "cmd_admin_peers resp =
     (case json_body resp of
        Err e \<Rightarrow> (Err e, [])
      | Ok body \<Rightarrow>
          (let ps = unwrap_list body
           in (Ok (), [''All devices ('' @ show_nat (length ps) @ '')'',
                       ''  '' @ pad_right 38 ''DEVICE ID'' @ ''  '' @ pad_right 16 ''IP'' @ ''  ''
                       @ pad_right 12 ''STATUS'' @ ''  HOSTNAME''] @ map admin_peer_line ps)))"

definition cmd_backup :: "(bool option \<times> string option) http_reply \<Rightarrow> cli_output" where
  "cmd_backup resp =
     (case json_body resp of
        Err e \<Rightarrow> (Err e, [])
      | Ok (success, path) \<Rightarrow>
          (Ok (), [if is_true success then ''Backup created: '' @ or_dash path else ''Backup failed.'']))"

text \<open>
  The confirmation of \<open>cmd_restore\<close>: the line as Unicode scalar values, trimmed of white space;
  \<open>y\<close> and \<open>Y\<close> are the strings whose lower case is \<open>y\<close>. The request is sent only after it.
\<close>

definition white_space :: "nat \<Rightarrow> bool" where
  "white_space c \<longleftrightarrow> (9 \<le> c \<and> c \<le> 13) \<or> c = 0x20 \<or> c = 0x85 \<or> c = 0xA0 \<or> c = 0x1680
     \<or> (0x2000 \<le> c \<and> c \<le> 0x200A) \<or> c = 0x2028 \<or> c = 0x2029 \<or> c = 0x202F \<or> c = 0x205F \<or> c = 0x3000"

definition trim :: "nat list \<Rightarrow> nat list" where
  "trim s = rev (dropWhile white_space (rev (dropWhile white_space s)))"

definition confirmed :: "nat list \<Rightarrow> bool" where
  "confirmed input \<longleftrightarrow> trim input \<in> {[121], [89]}"

definition restore_prompt :: "string list" where
  "restore_prompt = [''Warning: this will overwrite the current database.'', ''Continue? [y/N]'']"

definition cmd_restore :: "nat list option \<Rightarrow> bool option http_reply \<Rightarrow> cli_output \<times> bool" where
  "cmd_restore line resp =
     (case line of
        None \<Rightarrow> ((Err StdinFailed, restore_prompt), False)
      | Some input \<Rightarrow>
          (if \<not> confirmed input then ((Ok (), restore_prompt), False)
           else (case json_body resp of
                   Err e \<Rightarrow> ((Err e, restore_prompt), True)
                 | Ok success \<Rightarrow>
                     ((Ok (), restore_prompt @ [if is_true success then ''Database restored from backup.''
                                                else ''Restore failed.'']), True))))"

section \<open>Durations\<close>

text \<open>The reader of the text: what a number with its unit stands for, summed over the parts.\<close>

definition part_seconds :: "string \<Rightarrow> nat" where
  "part_seconds t =
     dec_val (butlast t) * (if last t = CHR ''h'' then 3600 else if last t = CHR ''m'' then 60 else 1)"

definition duration_of_text :: "string \<Rightarrow> nat" where
  "duration_of_text t = sum_list (map part_seconds (split_on (CHR '' '') t))"

lemma part_seconds_unit [simp]:
  "part_seconds (show_nat n @ ''h'') = n * 3600" "part_seconds (show_nat n @ ''m'') = n * 60"
  "part_seconds (show_nat n @ ''s'') = n"
  by (simp_all add: part_seconds_def butlast_append)

lemma space_not_in [simp]: "CHR '' '' \<notin> set (show_nat n)"
  by (rule not_digit_show_nat) (simp add: is_digit_def)

lemma split_part:
  "u \<noteq> CHR '' '' \<Longrightarrow> split_on (CHR '' '') (show_nat n @ u # CHR '' '' # rest) = (show_nat n @ [u]) # split_on (CHR '' '') rest"
  using split_on_append [of "CHR '' ''" "show_nat n @ [u]" rest] by simp

lemma split_last_part:
  "u \<noteq> CHR '' '' \<Longrightarrow> split_on (CHR '' '') (show_nat n @ [u]) = [show_nat n @ [u]]"
  by (rule split_on_no_sep) simp

text \<open>
  A printed duration reads back as the number of seconds, and of its parts only the first can
  be larger than 59; hours are printed only if there are any, and minutes only then or if there
  are any.
\<close>

theorem fmt_duration_roundtrip:
  "duration_of_text (fmt_duration n) = n
   \<and> (\<exists>h m s. m < 60 \<and> s < 60 \<and> n = 3600 * h + 60 * m + s
        \<and> fmt_duration n = (if h = 0 then [] else show_nat h @ ''h '')
             @ (if h = 0 \<and> m = 0 then [] else show_nat m @ ''m '') @ show_nat s @ ''s'')"
proof
  have n: "n = 3600 * (n div 3600) + 60 * (n mod 3600 div 60) + n mod 60"
  proof -
    have "n mod 3600 mod 60 = n mod 60" by (rule mod_mod_cancel) simp
    then have "n mod 3600 = 60 * (n mod 3600 div 60) + n mod 60"
      using mult_div_mod_eq [of 60 "n mod 3600"] by simp
    moreover have "n = 3600 * (n div 3600) + n mod 3600" by simp
    ultimately show ?thesis by linarith
  qed
  show "duration_of_text (fmt_duration n) = n"
    using n by (auto simp: fmt_duration_def duration_of_text_def Let_def split_part split_last_part)
  have "n mod 3600 div 60 < 60" "n mod 60 < 60" by (simp_all add: less_mult_imp_div_less)
  moreover have "fmt_duration n = (if n div 3600 = 0 then [] else show_nat (n div 3600) @ ''h '')
      @ (if n div 3600 = 0 \<and> n mod 3600 div 60 = 0 then [] else show_nat (n mod 3600 div 60) @ ''m '')
      @ show_nat (n mod 60) @ ''s''"
    by (simp add: fmt_duration_def Let_def)
  ultimately show "\<exists>h m s. m < 60 \<and> s < 60 \<and> n = 3600 * h + 60 * m + s
        \<and> fmt_duration n = (if h = 0 then [] else show_nat h @ ''h '')
             @ (if h = 0 \<and> m = 0 then [] else show_nat m @ ''m '') @ show_nat s @ ''s''"
    using n by blast
qed

section \<open>The status command\<close>

definition shown_width :: "bool \<Rightarrow> nat" where
  "shown_width verbose = (if verbose then 16 else 20)"

lemma peer_row_panics:
  "peer_row verbose p = panic \<longleftrightarrow>
     \<not> is_char_boundary (cp_device_id p) (min (length (cp_device_id p)) (shown_width verbose))"
  by (auto simp: peer_row_def str_prefix_def shown_width_def)

lemma cmd_status_panics:
  "cmd_status resp verbose = panic \<longleftrightarrow>
     (\<exists>code s p. resp = HttpStatus code (Some s) \<and> is_success code \<and> p \<in> set (cs_peers s)
        \<and> \<not> is_char_boundary (cp_device_id p) (min (length (cp_device_id p)) (shown_width verbose)))"
  by (auto simp: cmd_status_def map_panics_None peer_row_panics bind_eq_None_conv split: http_reply.splits option.splits)

lemma boundary_ascii: "is_ascii t \<Longrightarrow> is_char_boundary t (min (length t) n)"
  using str_prefix_ascii [of t "min (length t) n"] by (auto simp: str_prefix_def split: if_splits)

section \<open>Diagnostics\<close>

lemma cmd_diag_passed:
  "all_passed \<in> set (snd (cmd_diag (HttpStatus 200 (Some d)))) \<longleftrightarrow>
     (\<forall>c\<in>snd ` set (diag_checks d). cc_status c = ''ok'')"
proof -
  have "all_passed \<noteq> check_line nc" "all_passed \<noteq> diag_peer_line p" for nc p
    by (auto simp: all_passed_def newline_def check_line_def diag_peer_line_def split: prod.split)
  moreover have "concat (replicate 52 box_rule) \<noteq> all_passed"
    by (simp add: box_rule_def all_passed_def newline_def numeral_eq_Suc)
  ultimately show ?thesis
    by (auto simp: cmd_diag_def is_success_def list_all_iff all_passed_def newline_def)
qed

section \<open>Restoring needs a confirmation\<close>

lemma trim_spaces:
  assumes "\<forall>c\<in>set a \<union> set b. white_space c" and "xs \<noteq> []" "\<not> white_space (hd xs)" "\<not> white_space (last xs)"
  shows "trim (a @ xs @ b) = xs"
proof -
  have "dropWhile white_space (a @ xs @ b) = xs @ b"
    using assms by (cases xs) (simp_all add: dropWhile_append2)
  moreover have "dropWhile white_space (rev (xs @ b)) = rev xs"
  proof (cases xs rule: rev_cases)
    case (snoc ys y)
    have "dropWhile white_space (rev b @ y # rev ys) = dropWhile white_space (y # rev ys)"
      using assms(1) by (intro dropWhile_append2) auto
    with snoc assms(4) show ?thesis by simp
  qed (use assms(2) in simp)
  ultimately show ?thesis by (simp add: trim_def)
qed

end
