(* ===== verification/Control_Client.thy ===== *)
theory Control_Client
  imports Control_Http Keep_Alive Mobile_Engine Cli
begin

text \<open>
  The requests that the daemon, the mobile engine and the command line send to the control
  service, and what they read in its replies: the structs they declare for it (\<open>apps/daemon/src/main.rs\<close>,
  \<open>apps/mobile/src/engine.rs\<close>), and the generic values of \<open>apps/cli/src/main.rs\<close>. A request has the
  path that follows the base URL. A reply is none if the exchange failed.
\<close>

section \<open>Requests\<close>

definition get_request :: "string \<Rightarrow> http_request" where
  "get_request path = \<lparr>hq_method = GET, hq_path = path, hq_body = Empty\<rparr>"

definition post_json :: "string \<Rightarrow> json \<Rightarrow> http_request" where
  "post_json path j = \<lparr>hq_method = POST, hq_path = path, hq_body = Content j\<rparr>"

text \<open>The daemon's.\<close>

definition daemon_register_json :: "bytes \<Rightarrow> string \<Rightarrow> json" where
  "daemon_register_json pk host = JObj [(''public_key'', json_key pk), (''hostname'', JStr host)]"

definition daemon_register_request :: "bytes \<Rightarrow> string \<Rightarrow> http_request" where
  "daemon_register_request pk host = post_json ''/api/v1/register'' (daemon_register_json pk host)"

definition daemon_peers_request :: http_request where
  "daemon_peers_request = get_request ''/api/v1/peers''"

definition candidate_publish_json :: "(uuid \<Rightarrow> string) \<Rightarrow> uuid \<Rightarrow> string list \<Rightarrow> json" where
  "candidate_publish_json show_id i cs = JObj [(''device_id'', JStr (show_id i)), (''candidates'', json_strings cs)]"

definition daemon_publish_request :: "(uuid \<Rightarrow> string) \<Rightarrow> uuid \<Rightarrow> string list \<Rightarrow> http_request option" where
  "daemon_publish_request show_id i cs =
     (if cs = [] then None else Some (post_json ''/api/v1/candidates'' (candidate_publish_json show_id i cs)))"

definition daemon_candidates_request :: "(uuid \<Rightarrow> string) \<Rightarrow> uuid \<Rightarrow> http_request" where
  "daemon_candidates_request show_id i = get_request (''/api/v1/candidates/'' @ show_id i)"

definition daemon_heartbeat_request :: "(uuid \<Rightarrow> string) \<Rightarrow> uuid \<Rightarrow> http_request" where
  "daemon_heartbeat_request show_id i =
     post_json ''/api/v1/heartbeat'' (JObj [(''device_id'', JStr (show_id i))])"

text \<open>The mobile engine's.\<close>

definition mobile_register_request :: "bytes \<Rightarrow> string \<Rightarrow> http_request" where
  "mobile_register_request pk host =
     post_json ''/api/v1/register'' (JObj [(''public_key'', json_key pk), (''hostname'', JStr host)])"

definition mobile_heartbeat_request :: "(uuid \<Rightarrow> string) \<Rightarrow> uuid \<Rightarrow> http_request" where
  "mobile_heartbeat_request show_id i =
     post_json ''/api/v1/heartbeat'' (JObj [(''device_id'', JStr (show_id i))])"

definition mobile_peers_request :: http_request where
  "mobile_peers_request = get_request ''/api/v1/peers''"

section \<open>What the clients read\<close>

text \<open>\<open>json()\<close> of a reply; the status code is not looked at.\<close>

definition body_json :: "(json \<Rightarrow> 'a option) \<Rightarrow> body \<Rightarrow> 'a option" where
  "body_json dec b = (case b of Content j \<Rightarrow> dec j | _ \<Rightarrow> None)"

definition sent_json :: "(json \<Rightarrow> 'a option) \<Rightarrow> http_response option \<Rightarrow> 'a option" where
  "sent_json dec resp = (case resp of None \<Rightarrow> None | Some (_, b) \<Rightarrow> body_json dec b)"

definition default_status :: string where "default_status = ''approved''"

definition daemon_register_response_of :: "(string \<Rightarrow> uuid option) \<Rightarrow> json \<Rightarrow> register_response option" where
  "daemon_register_response_of parse_id j = do {
     ss \<leftarrow> slots [''device_id'', ''ipv4'', ''network'', ''status''] j;
     case ss of
       [i, a, n, st] \<Rightarrow> do {
         i' \<leftarrow> required (as_id parse_id) i; a' \<leftarrow> required as_string a;
         n' \<leftarrow> defaulted [] as_string n; st' \<leftarrow> defaulted default_status as_string st;
         Some \<lparr>reg_device_id = i', reg_ipv4 = a', reg_network = n', reg_status = st'\<rparr> }
     | _ \<Rightarrow> None }"

definition daemon_registration :: "(string \<Rightarrow> uuid option) \<Rightarrow> http_response option \<Rightarrow> (uuid \<times> string) option" where
  "daemon_registration parse_id resp =
     map_option (\<lambda>r. (reg_device_id r, reg_ipv4 r)) (sent_json (daemon_register_response_of parse_id) resp)"

definition daemon_peer_info_of :: "(string \<Rightarrow> uuid option) \<Rightarrow> json \<Rightarrow> peer_info option" where
  "daemon_peer_info_of parse_id j = do {
     ss \<leftarrow> slots [''device_id'', ''ipv4'', ''public_key'', ''hostname'', ''last_seen_secs''] j;
     case ss of
       [i, a, k, h, l] \<Rightarrow> do {
         i' \<leftarrow> required (as_id parse_id) i; a' \<leftarrow> required as_string a; k' \<leftarrow> required as_key k;
         h' \<leftarrow> required as_string h; l' \<leftarrow> required as_i64 l;
         Some \<lparr>pi_device_id = i', pi_ipv4 = a', pi_public_key = k', pi_hostname = h', pi_last_seen_secs = l'\<rparr> }
     | _ \<Rightarrow> None }"

definition peers_response_of :: "(json \<Rightarrow> peer_info option) \<Rightarrow> json \<Rightarrow> peer_info list option" where
  "peers_response_of peer_of j = do {
     ss \<leftarrow> slots [''peers''] j;
     case ss of [ps] \<Rightarrow> required (as_list peer_of) ps | _ \<Rightarrow> None }"

definition daemon_peers :: "(string \<Rightarrow> uuid option) \<Rightarrow> http_response option \<Rightarrow> peer_info list option" where
  "daemon_peers parse_id = sent_json (peers_response_of (daemon_peer_info_of parse_id))"

definition candidate_list_of :: "(string \<Rightarrow> uuid option) \<Rightarrow> json \<Rightarrow> string list option" where
  "candidate_list_of parse_id j = do {
     ss \<leftarrow> slots [''device_id'', ''candidates''] j;
     case ss of
       [i, cs] \<Rightarrow> do { _ \<leftarrow> required (as_id parse_id) i; required (as_list as_string) cs }
     | _ \<Rightarrow> None }"

definition daemon_candidates :: "(string \<Rightarrow> uuid option) \<Rightarrow> http_response option \<Rightarrow> string list option option" where
  "daemon_candidates parse_id resp =
     (case resp of None \<Rightarrow> None | Some (_, b) \<Rightarrow> Some (body_json (candidate_list_of parse_id) b))"

text \<open>
  The mobile engine: no network in the registration and an empty status by default; its peers
  have no \<open>last_seen_secs\<close>, which is 0 here.
\<close>

definition mobile_register_response_of :: "(string \<Rightarrow> uuid option) \<Rightarrow> json \<Rightarrow> (uuid \<times> string \<times> string) option" where
  "mobile_register_response_of parse_id j = do {
     ss \<leftarrow> slots [''device_id'', ''ipv4'', ''status''] j;
     case ss of
       [i, a, st] \<Rightarrow> do {
         i' \<leftarrow> required (as_id parse_id) i; a' \<leftarrow> required as_string a; st' \<leftarrow> defaulted [] as_string st;
         Some (i', a', st') }
     | _ \<Rightarrow> None }"

definition mobile_registration :: "(string \<Rightarrow> uuid option) \<Rightarrow> http_response option \<Rightarrow> (uuid \<times> string) option" where
  "mobile_registration parse_id resp =
     map_option (\<lambda>(i, a, _). (i, a)) (sent_json (mobile_register_response_of parse_id) resp)"

definition mobile_peer_info_of :: "(string \<Rightarrow> uuid option) \<Rightarrow> json \<Rightarrow> peer_info option" where
  "mobile_peer_info_of parse_id j = do {
     ss \<leftarrow> slots [''device_id'', ''ipv4'', ''public_key'', ''hostname''] j;
     case ss of
       [i, a, k, h] \<Rightarrow> do {
         i' \<leftarrow> required (as_id parse_id) i; a' \<leftarrow> required as_string a; k' \<leftarrow> required as_key k;
         h' \<leftarrow> required as_string h;
         Some \<lparr>pi_device_id = i', pi_ipv4 = a', pi_public_key = k', pi_hostname = h', pi_last_seen_secs = 0\<rparr> }
     | _ \<Rightarrow> None }"

definition mobile_peers :: "(string \<Rightarrow> uuid option) \<Rightarrow> http_response option \<Rightarrow> peer_info list option" where
  "mobile_peers parse_id = sent_json (peers_response_of (mobile_peer_info_of parse_id))"

section \<open>The encodings agree\<close>

definition peer_fits :: "(uuid \<Rightarrow> string) \<Rightarrow> (string \<Rightarrow> uuid option) \<Rightarrow> peer_info \<Rightarrow> bool" where
  "peer_fits show_id parse_id p \<longleftrightarrow> uuid_text_ok show_id parse_id \<and> length (pi_public_key p) = 32
     \<and> i64_min \<le> pi_last_seen_secs p \<and> pi_last_seen_secs p \<le> i64_max"

lemma as_id_show [json]: "uuid_text_ok show_id parse_id \<Longrightarrow> as_id parse_id (JStr (show_id i)) = Some i"
  by (simp add: as_id_def uuid_text_ok_def)

interpretation daemon_peer: json_codec "peer_info_json show_id" "daemon_peer_info_of parse_id" "\<lambda>p. p" "peer_fits show_id parse_id"
  by unfold_locales
     (simp add: peer_info_json_def daemon_peer_info_of_def peer_fits_def slots_object as_id_show as_i64_JInt)

interpretation mobile_peer: json_codec "peer_info_json show_id" "mobile_peer_info_of parse_id"
  "\<lambda>p. p\<lparr>pi_last_seen_secs := 0\<rparr>" "peer_fits show_id parse_id"
  by unfold_locales
     (simp add: peer_info_json_def mobile_peer_info_of_def peer_fits_def slots_object as_id_show)

interpretation daemon_reg: json_codec "register_response_json show_id" "daemon_register_response_of parse_id" "\<lambda>r. r"
  "\<lambda>_. uuid_text_ok show_id parse_id"
  by unfold_locales
     (simp add: register_response_json_def daemon_register_response_of_def slots_object as_id_show)

interpretation mobile_reg: json_codec "register_response_json show_id" "mobile_register_response_of parse_id"
  "\<lambda>r. (reg_device_id r, reg_ipv4 r, reg_status r)" "\<lambda>_. uuid_text_ok show_id parse_id"
  by unfold_locales
     (simp add: register_response_json_def mobile_register_response_of_def slots_object as_id_show)

section \<open>Every request reaches its handler\<close>

lemma uuid_textD:
  assumes "uuid_text_ok show_id parse_id"
  shows "parse_id (show_id i) = Some i" and "show_id i \<noteq> []" and "CHR ''/'' \<notin> set (show_id i)"
    and "show_id i \<noteq> ''pending''"
  using assms by (simp_all add: uuid_text_ok_def)

lemma with_json_Content [json]:
  "with_json dec (Content j) f = (case dec j of None \<Rightarrow> Reject (422, Plain) | Some x \<Rightarrow> f x)"
  by (simp add: with_json_def)

lemma register_request_of_json [json]:
  "register_request_of (JObj [(''public_key'', json_key pk), (''hostname'', JStr host)]) =
     (if length pk = 32 then Some (pk, host) else None)"
  by (simp add: register_request_of_def slots_object)

lemma heartbeat_request_of_json [json]:
  "uuid_text_ok show_id parse_id \<Longrightarrow> heartbeat_request_of parse_id (JObj [(''device_id'', JStr (show_id i))]) = Some i"
  by (simp add: heartbeat_request_of_def slots_object as_id_show)

lemma candidate_publish_request_of_json [json]:
  "uuid_text_ok show_id parse_id \<Longrightarrow>
     candidate_publish_request_of parse_id (candidate_publish_json show_id i cs) = Some (i, cs)"
  by (simp add: candidate_publish_request_of_def candidate_publish_json_def slots_object as_id_show)

lemmas requests = daemon_register_request_def daemon_register_json_def daemon_peers_request_def daemon_candidates_request_def
  daemon_heartbeat_request_def mobile_register_request_def mobile_heartbeat_request_def
  mobile_peers_request_def get_request_def post_json_def

text \<open>Dispatching a request whose path has slash-free segments.\<close>

lemma dispatch_api_path:
  assumes "\<forall>t\<in>set segs. CHR ''/'' \<notin> set t" and "map_of (methods_at segs) m = Some e"
  shows "dispatch parse_id new_v4 \<lparr>hq_method = m, hq_path = api_path segs, hq_body = b\<rparr> = call parse_id new_v4 b e"
  using assms by (auto simp: dispatch_def route_api_path)

lemma endpoints:
  "map_of (methods_at [''register'']) POST = Some AtRegister"
  "map_of (methods_at [''peers'']) GET = Some AtPeers"
  "map_of (methods_at [''heartbeat'']) POST = Some AtHeartbeat"
  "map_of (methods_at [''candidates'']) POST = Some AtPublishCandidates"
  "map_of (methods_at [''register'', ''pending'']) GET = Some AtPending"
  "map_of (methods_at [''admin'', ''peers'']) GET = Some AtAdminPeers"
  "map_of (methods_at [''backup'']) POST = Some AtBackup"
  "map_of (methods_at [''restore'']) POST = Some AtRestore"
  "map_of (methods_at [''health'']) GET = Some AtHealth"
  by (simp_all add: methods_at_def)

lemma endpoints_param:
  "t \<noteq> [] \<Longrightarrow> map_of (methods_at [''candidates'', t]) GET = Some (AtGetCandidates t)"
  "t \<noteq> [] \<Longrightarrow> map_of (methods_at [''register'', t, ''approve'']) PUT = Some (AtApprove t)"
  "t \<noteq> [] \<Longrightarrow> map_of (methods_at [''register'', t, ''revoke'']) PUT = Some (AtRevoke t)"
  by (simp_all add: methods_at_def)

lemmas dispatched = endpoints [THEN dispatch_api_path [rotated]] endpoints_param [THEN dispatch_api_path [rotated]]

lemma dispatch_clients:
  assumes "uuid_text_ok show_id parse_id"
  shows "dispatch parse_id new_v4 (daemon_register_request pk host) =
       (if length pk = 32 then Serve (RegisterReq new_v4 pk host) else Reject (422, Plain))"
    and "dispatch parse_id new_v4 daemon_peers_request = Serve PeersReq"
    and "dispatch parse_id new_v4 (daemon_candidates_request show_id i) = Serve (GetCandidatesReq i)"
    and "dispatch parse_id new_v4 (daemon_heartbeat_request show_id i) = Serve (HeartbeatReq i)"
    and "map_option (dispatch parse_id new_v4) (daemon_publish_request show_id i cs) =
       map_option Serve (publish_candidates i cs)"
  using uuid_textD [OF assms, of i] assms unfolding requests daemon_publish_request_def api_paths
  by (simp_all add: dispatched call_def with_json_Content with_param_def publish_candidates_def
      register_request_of_json heartbeat_request_of_json candidate_publish_request_of_json)

text \<open>The mobile engine sends the same requests.\<close>

lemma mobile_requests:
  "mobile_register_request = daemon_register_request" "mobile_heartbeat_request = daemon_heartbeat_request"
  "mobile_peers_request = daemon_peers_request"
  by (simp_all add: requests fun_eq_iff)

section \<open>Every reply is read as it was meant\<close>

lemma respond_Serve:
  assumes "dispatch parse_id new_v4 hq = Serve req"
  shows "respond show_id parse_id app new_v4 luck hq sv =
     (encode_reply show_id (fst (run_state (serve app req) (sv_env sv))),
      sv\<lparr>sv_env := snd (run_state (serve app req) (sv_env sv))\<rparr>)"
  using assms by (simp add: respond_def split_beta del: serve.simps)

lemma respond_Reject:
  "dispatch parse_id new_v4 hq = Reject resp \<Longrightarrow> respond show_id parse_id app new_v4 luck hq sv = (Some resp, sv)"
  by (simp add: respond_def)

text \<open>A result of a handler as the clients take it: the value, or nothing.\<close>

definition answered :: "(http_status + 'a) panics \<Rightarrow> 'a option" where
  "answered r = (case r of Some (Ok x) \<Rightarrow> Some x | _ \<Rightarrow> None)"

lemma sent_json_reply:
  assumes "\<And>x. answered r = Some x \<Longrightarrow> sent_json dec (encode_reply show_id (f x)) = Some (g x)"
  shows "sent_json dec (encode_reply show_id (reply_panics f r)) = map_option g (answered r)"
proof (cases r)
  case (Some v)
  with assms show ?thesis
    by (cases v) (simp_all add: reply_panics_def reply_def encode_reply_def answered_def sent_json_def body_json_def)
qed (simp add: reply_panics_def encode_reply_def answered_def sent_json_def)

lemma peers_response_sent:
  assumes "as_list dec (JArr (map (peer_info_json show_id) ps)) = Some qs"
  shows "sent_json (peers_response_of dec) (encode_reply show_id (PeersR ps)) = Some qs"
  using assms
  by (simp add: sent_json_def encode_reply_def body_json_def peers_response_of_def peers_response_json_def slots_object)

lemma record_key_length: "record_of_row r = ret d \<Longrightarrow> length (dev_key d) = 32"
  by (auto simp: record_of_row_def split: if_splits)

lemma those_SomeD: "those xs = Some ys \<Longrightarrow> y \<in> set ys \<Longrightarrow> Some y \<in> set xs"
  by (induction xs arbitrary: ys) (auto split: option.splits)

text \<open>Whatever the store holds, a list of peers that is sent fits its struct.\<close>

lemma peers_fit:
  assumes "uuid_text_ok show_id parse_id" and "answered (fst (run_state handle_peers s)) = Some ps" and "p \<in> set ps"
  shows "peer_fits show_id parse_id p"
proof -
  obtain r s1 where r: "run_state list_approved s = (r, s1)" by fastforce
  with assms(2) obtain ds now s2 where ds: "r = ret (Ok ds)" and ps: "ps = map (\<lambda>d. \<lparr>pi_device_id = dev_id d, pi_ipv4 = show_ipv4 (dev_ipv4 d),
             pi_public_key = dev_key d, pi_hostname = dev_host d,
             pi_last_seen_secs = i64_saturating_sub now (dev_seen d)\<rparr>) ds"
    by (auto simp: handle_peers_def answered_def split: option.splits sum.splits prod.splits)
  have keys: "length (dev_key d) = 32" if "d \<in> set ds" for d
  proof -
    from r ds obtain rows where "those (map record_of_row rows) = Some ds"
      by (auto simp: list_approved_def records_def bind_eq_Some_conv split: sum.splits prod.splits)
    then have "Some d \<in> set (map record_of_row rows)" using that by (rule those_SomeD)
    then show ?thesis using record_key_length by auto
  qed
  show ?thesis
    using assms(1,3) keys
    by (auto simp: ps peer_fits_def i64_saturating_sub_def i64_min_def i64_max_def)
qed

lemma serve_fst:
  "length pk = 32 \<Longrightarrow> fst (run_state (serve app (RegisterReq i pk host)) s)
     = reply_panics RegisterR (fst (run_state (handle_register app i pk host) s))"
  "fst (run_state (serve app PeersReq) s) = reply_panics PeersR (fst (run_state handle_peers s))"
  "fst (run_state (serve app (GetCandidatesReq i)) s)
     = reply (\<lambda>(j, cs). CandidatesR j cs) (fst (run_state (handle_get_candidates i) s))"
  by (simp_all add: split_beta)

lemma peers_sent:
  assumes "uuid_text_ok show_id parse_id"
  shows "daemon_peers parse_id (encode_reply show_id (reply_panics PeersR (fst (run_state handle_peers s))))
       = answered (fst (run_state handle_peers s))"
    and "mobile_peers parse_id (encode_reply show_id (reply_panics PeersR (fst (run_state handle_peers s))))
       = map_option (map (pi_last_seen_secs_update (\<lambda>_. 0))) (answered (fst (run_state handle_peers s)))"
proof -
  have fit: "\<forall>p\<in>set ps. peer_fits show_id parse_id p" if "answered (fst (run_state handle_peers s)) = Some ps" for ps
    using peers_fit [OF assms that] by blast
  show "daemon_peers parse_id (encode_reply show_id (reply_panics PeersR (fst (run_state handle_peers s))))
      = answered (fst (run_state handle_peers s))"
    unfolding daemon_peers_def
    by (subst sent_json_reply [where g = "\<lambda>ps. ps"])
       (use fit in \<open>auto intro!: peers_response_sent simp: daemon_peer.dec_list option.map_ident\<close>)
  show "mobile_peers parse_id (encode_reply show_id (reply_panics PeersR (fst (run_state handle_peers s))))
      = map_option (map (pi_last_seen_secs_update (\<lambda>_. 0))) (answered (fst (run_state handle_peers s)))"
    unfolding mobile_peers_def
    by (rule sent_json_reply) (use fit in \<open>auto intro!: peers_response_sent simp: mobile_peer.dec_list\<close>)
qed

lemma registration_sent:
  assumes "uuid_text_ok show_id parse_id"
  shows "daemon_registration parse_id (encode_reply show_id (reply_panics RegisterR r))
       = map_option (\<lambda>r. (reg_device_id r, reg_ipv4 r)) (answered r)"
    and "mobile_registration parse_id (encode_reply show_id (reply_panics RegisterR r))
       = map_option (\<lambda>r. (reg_device_id r, reg_ipv4 r)) (answered r)"
proof -
  have "sent_json (daemon_register_response_of parse_id) (encode_reply show_id (reply_panics RegisterR r))
      = map_option (\<lambda>r. r) (answered r)"
    by (rule sent_json_reply)
       (simp add: encode_reply_def sent_json_def body_json_def daemon_reg.dec_enc assms)
  then show "daemon_registration parse_id (encode_reply show_id (reply_panics RegisterR r))
      = map_option (\<lambda>r. (reg_device_id r, reg_ipv4 r)) (answered r)"
    by (simp add: daemon_registration_def option.map_ident)
  have "sent_json (mobile_register_response_of parse_id) (encode_reply show_id (reply_panics RegisterR r))
      = map_option (\<lambda>r. (reg_device_id r, reg_ipv4 r, reg_status r)) (answered r)"
    by (rule sent_json_reply)
       (simp add: encode_reply_def sent_json_def body_json_def mobile_reg.dec_enc assms)
  then show "mobile_registration parse_id (encode_reply show_id (reply_panics RegisterR r))
      = map_option (\<lambda>r. (reg_device_id r, reg_ipv4 r)) (answered r)"
    by (simp add: mobile_registration_def option.map_comp comp_def)
qed

lemma candidates_sent:
  assumes "uuid_text_ok show_id parse_id"
  shows "daemon_candidates parse_id (encode_reply show_id (reply (\<lambda>(j, cs). CandidatesR j cs) r))
       = Some (case r of Err _ \<Rightarrow> None | Ok (_, cs) \<Rightarrow> Some cs)"
  by (cases r) (auto simp: reply_def encode_reply_def daemon_candidates_def body_json_def candidate_list_of_def
      candidate_list_json_def slots_object as_id_show [OF assms])

text \<open>
  C16: Over HTTP the clients read what the handlers answer: the identifier and address of a
  registration by the daemon and by the mobile engine, the list of peers (without the times for
  the mobile engine), and the candidates. A status other than 200 and a connection that was
  closed by a panic are read as no registration, no peers and no candidates.
\<close>

theorem control_wire:
  assumes "uuid_text_ok show_id parse_id" and "length pk = 32"
  shows "daemon_registration parse_id (fst (respond show_id parse_id app new_v4 luck (daemon_register_request pk host) sv))
       = map_option (\<lambda>r. (reg_device_id r, reg_ipv4 r)) (answered (fst (run_state (handle_register app new_v4 pk host) (sv_env sv))))
   \<and> mobile_registration parse_id (fst (respond show_id parse_id app new_v4 luck (mobile_register_request pk host) sv))
       = map_option (\<lambda>r. (reg_device_id r, reg_ipv4 r)) (answered (fst (run_state (handle_register app new_v4 pk host) (sv_env sv))))
   \<and> daemon_peers parse_id (fst (respond show_id parse_id app new_v4 luck daemon_peers_request sv))
       = answered (fst (run_state handle_peers (sv_env sv)))
   \<and> mobile_peers parse_id (fst (respond show_id parse_id app new_v4 luck mobile_peers_request sv))
       = map_option (map (pi_last_seen_secs_update (\<lambda>_. 0))) (answered (fst (run_state handle_peers (sv_env sv))))
   \<and> daemon_candidates parse_id (fst (respond show_id parse_id app new_v4 luck (daemon_candidates_request show_id i) sv))
       = Some (case fst (run_state (handle_get_candidates i) (sv_env sv)) of Err _ \<Rightarrow> None | Ok (_, cs) \<Rightarrow> Some cs)"
  using assms(2)
  by (simp add: mobile_requests respond_Serve dispatch_clients [OF assms(1)] serve_fst registration_sent [OF assms(1)]
      peers_sent [OF assms(1)] candidates_sent [OF assms(1)] del: serve.simps)

definition sample_server :: "nat server" where
  "sample_server = \<lparr>sv_env = sample_env, sv_files = Map.empty\<rparr>"

theorem control_wire_witness:
  "daemon_registration parse_decimal_id
     (fst (respond decimal_id parse_decimal_id sample_app 1 (CopyDone, True)
        (daemon_register_request (replicate 32 7) ''laptop'') sample_server)) = Some (1, ''100.64.0.0'')"
proof -
  let ?pk = "replicate 32 7 :: bytes"
  have fresh: "?pk \<notin> row_key ` set (devices (tables sample_env))" by (simp add: sample_env_def init_db_def)
  have "\<not> pool_full sample_app init_db" by (simp add: pool_full_def sample_app_def init_db_def)
  then have "answered (fst (run_state (handle_register sample_app 1 ?pk ''laptop'') sample_env))
      = Some \<lparr>reg_device_id = 1, reg_ipv4 = ''100.64.0.0'', reg_network = network_cidr sample_app, reg_status = ''approved''\<rparr>"
    using register_new_key_fact [OF sample_env_ok fresh, of sample_app 1 "''laptop''"] next_ip_sample
    by (simp add: Let_def sample_env_def answered_def) (simp add: init_db_def)
  moreover have "length ?pk = 32" by simp
  ultimately show ?thesis
    using control_wire [OF decimal_ids, of ?pk sample_app 1 "(CopyDone, True)" "''laptop''" sample_server]
    by (simp add: sample_server_def)
qed

end
