(* ===== verification/Desktop.thy ===== *)
theory Desktop
  imports Cli
begin

text \<open>
  \<open>apps/desktop/src/main.rs\<close>, the tray application: the status it derives from the daemon's
  reply, the icon it draws, and its polling loop. The colour of a pixel on the rim of the icon,
  computed with floating-point numbers in the source, is an argument; the distances that decide
  whether a pixel is inside, on the rim or outside are compared as squares. Menu and event loop
  belong to other crates.
\<close>

section \<open>The status\<close>

record tray_peer =
  tp_hostname :: string
  tp_virtual_ip :: string
  tp_path :: string

record tray_status =
  ts_device_id :: string
  ts_virtual_ip :: string
  ts_hostname :: string
  ts_uptime_secs :: nat
  ts_peer_count :: nat
  ts_peers :: "tray_peer list"

datatype conn_status = Connected | RelayOnly | Disconnected

definition fetch_status :: "tray_status http_reply \<Rightarrow> conn_status" where
  "fetch_status resp =
     (case resp of
        HttpNone \<Rightarrow> Disconnected
      | HttpStatus code body \<Rightarrow>
          (if is_success code
           then (case body of
                   None \<Rightarrow> Disconnected
                 | Some s \<Rightarrow>
                     (if ts_device_id s \<noteq> []
                      then (if list_ex (\<lambda>p. tp_path p = ''direct'') (ts_peers s) then Connected
                            else if ts_peer_count s > 0 then RelayOnly
                            else Disconnected)
                      else Disconnected))
           else Disconnected))"

primrec status_color :: "conn_status \<Rightarrow> bytes" where
  "status_color Connected = [0x4C, 0xAF, 0x50, 0xFF]"
| "status_color RelayOnly = [0xFF, 0x98, 0x00, 0xFF]"
| "status_color Disconnected = [0x9E, 0x9E, 0x9E, 0xFF]"

primrec fmt_status :: "conn_status \<Rightarrow> string" where
  "fmt_status Connected = ''Connected (P2P)''"
| "fmt_status RelayOnly = ''Connected (Relay)''"
| "fmt_status Disconnected = ''Disconnected''"

section \<open>The icon\<close>

text \<open>\<open>rim\<close> is the transparency of a pixel at a squared distance between 11.5 and 13 squared.\<close>

definition icon_pixel :: "(nat \<Rightarrow> u8 \<Rightarrow> u8) \<Rightarrow> bytes \<Rightarrow> nat \<Rightarrow> nat \<Rightarrow> bytes" where
  "icon_pixel rim color y x =
     (let dx = nat \<bar>int x - 16\<bar>; dy = nat \<bar>int y - 16\<bar>; d2 = dx * dx + dy * dy
      in if d2 \<le> 169
         then [color ! 0, color ! 1, color ! 2, if d2 > 132 then rim d2 (color ! 3) else color ! 3]
         else [0, 0, 0, 0])"

text \<open>\<open>Icon::from_rgba\<close> accepts four bytes per pixel; the source expects success.\<close>

definition from_rgba :: "bytes \<Rightarrow> nat \<Rightarrow> nat \<Rightarrow> bytes panics" where
  "from_rgba rgba width height = (if length rgba = width * height * 4 then ret rgba else panic)"

definition make_icon :: "(nat \<Rightarrow> u8 \<Rightarrow> u8) \<Rightarrow> bytes \<Rightarrow> bytes panics" where
  "make_icon rim color =
     from_rgba (concat (map (\<lambda>y. concat (map (icon_pixel rim color y) [0..<32])) [0..<32])) 32 32"

section \<open>Polling\<close>

text \<open>One turn of the loop on the current status and the lines it logged.\<close>

fun tray_step :: "conn_status \<times> string list \<Rightarrow> tray_status http_reply \<Rightarrow> conn_status \<times> string list" where
  "tray_step (current, logged) resp =
     (let new_status = fetch_status resp
      in if new_status \<noteq> current then (new_status, logged @ [''Status: '' @ fmt_status new_status])
         else (current, logged))"

lemma length_icon_pixel [simp]: "length (icon_pixel rim color y x) = 4"
  by (simp add: icon_pixel_def Let_def)

lemma make_icon_valid: "\<exists>rgba. make_icon rim color = ret rgba"
proof -
  have "length (concat (map f xs)) = k * length xs" if "\<And>x. length (f x) = k" for f :: "nat \<Rightarrow> bytes" and xs k
    using that by (induction xs) simp_all
  from this [of _ 4] this [of _ 128] show ?thesis
    by (simp add: make_icon_def from_rgba_def)
qed

lemma tray_step_status [simp]: "fst (tray_step st resp) = fetch_status resp"
  by (cases st) (simp add: Let_def)

text \<open>The tray shows the latest status, and logs exactly its changes.\<close>

lemma tray_current: "fst (foldl tray_step (c, l) resps) = (if resps = [] then c else fetch_status (last resps))"
  by (induction resps rule: rev_induct) simp_all

end
