(* ===== verification/Daemon_Api.thy ===== *)
theory Daemon_Api
  imports Control_Client Desktop
begin

text \<open>
  The status interface of the daemon (\<open>apps/daemon/src/main.rs\<close>): its router, the bodies of its
  replies, and the structs into which the command line (\<open>apps/cli/src/main.rs\<close>) and the tray
  (\<open>apps/desktop/src/main.rs\<close>) decode them. The views say what each of the two sees of a reply.
\<close>

section \<open>Bodies of replies\<close>

definition status_peer_json :: "status_peer \<Rightarrow> json" where
  "status_peer_json p = JObj
     [(''device_id'', JStr (sp_device_id p)), (''virtual_ip'', JStr (sp_virtual_ip p)),
      (''hostname'', JStr (sp_hostname p)), (''path'', JStr (sp_path p))]"

definition status_response_json :: "(uuid \<Rightarrow> string) \<Rightarrow> status_response \<Rightarrow> json" where
  "status_response_json show_id r = JObj
     [(''device_id'', JStr (show_id (sr_device_id r))), (''virtual_ip'', JStr (sr_virtual_ip r)),
      (''hostname'', JStr (sr_hostname r)), (''uptime_secs'', JInt (int (sr_uptime_secs r))),
      (''peer_count'', JInt (int (sr_peer_count r))), (''peers'', JArr (map status_peer_json (sr_peers r)))]"

definition shutdown_response_json :: "string \<Rightarrow> json" where
  "shutdown_response_json message = JObj [(''message'', JStr message)]"

definition check_result_json :: "check_result \<Rightarrow> json" where
  "check_result_json c = JObj
     [(''status'', JStr (ck_status c)), (''detail'', JStr (ck_detail c)),
      (''latency_ms'', json_option (\<lambda>n. JInt (int n)) (ck_latency_ms c))]"

definition peer_diag_json :: "peer_diag \<Rightarrow> json" where
  "peer_diag_json p = JObj
     [(''hostname'', JStr (pd_hostname p)), (''virtual_ip'', JStr (pd_virtual_ip p)),
      (''path'', JStr (pd_path p)), (''reachable'', JBool (pd_reachable p))]"

definition diagnostics_response_json :: "diagnostics_response \<Rightarrow> json" where
  "diagnostics_response_json r = JObj
     [(''daemon'', check_result_json (dr_daemon r)), (''control'', check_result_json (dr_control r)),
      (''stun'', check_result_json (dr_stun r)), (''relay'', check_result_json (dr_relay r)),
      (''tun'', check_result_json (dr_tun r)), (''peers'', JArr (map peer_diag_json (dr_peers r)))]"

section \<open>The router\<close>

datatype daemon_endpoint = AtStatus | AtDiagnostics | AtShutdown

definition daemon_route :: "http_method \<Rightarrow> string \<Rightarrow> daemon_endpoint routed" where
  "daemon_route m path =
     (if path = ''/status'' then (if m = GET then Found AtStatus else WrongMethod)
      else if path = ''/diagnostics'' then (if m = GET then Found AtDiagnostics else WrongMethod)
      else if path = ''/shutdown'' then (if m = POST then Found AtShutdown else WrongMethod)
      else NotRouted)"

text \<open>
  One request to a daemon in the state \<open>s\<close>, whose links are listed in \<open>links\<close>; \<open>checks\<close> are the
  diagnostics of that state. If the address of the interface cannot be bound, the task of the
  interface panics and nothing answers.
\<close>

definition daemon_respond ::
  "(uuid \<Rightarrow> string) \<Rightarrow> bool \<Rightarrow> peer_link list \<Rightarrow> nat \<Rightarrow> (shared_state \<Rightarrow> diagnostics_response) \<Rightarrow> http_request
     \<Rightarrow> shared_state \<Rightarrow> http_response option \<times> shared_state" where
  "daemon_respond show_id bound links now checks hq s =
     (if \<not> bound then (None, s)
      else (case daemon_route (hq_method hq) (hq_path hq) of
          Found AtStatus \<Rightarrow> (Some (200, Content (status_response_json show_id (handle_status s links now))), s)
        | Found AtDiagnostics \<Rightarrow> (Some (200, Content (diagnostics_response_json (checks s))), s)
        | Found AtShutdown \<Rightarrow>
            (case handle_shutdown s of
               (message, s') \<Rightarrow> (Some (200, Content (shutdown_response_json message)), s'))
        | WrongMethod \<Rightarrow> (Some (405, Empty), s)
        | NotRouted \<Rightarrow> (Some (404, Empty), s)))"

section \<open>What the command line decodes\<close>

definition cli_peer_of :: "json \<Rightarrow> cli_peer option" where
  "cli_peer_of j = do {
     ss \<leftarrow> slots [''device_id'', ''virtual_ip'', ''hostname'', ''path''] j;
     case ss of
       [i, v, h, p] \<Rightarrow> do {
         i' \<leftarrow> required as_string i; v' \<leftarrow> required as_string v; h' \<leftarrow> required as_string h;
         p' \<leftarrow> defaulted [] as_string p;
         Some \<lparr>cp_device_id = i', cp_virtual_ip = v', cp_hostname = h', cp_path = p'\<rparr> }
     | _ \<Rightarrow> None }"

definition cli_status_of :: "json \<Rightarrow> cli_status option" where
  "cli_status_of j = do {
     ss \<leftarrow> slots [''device_id'', ''virtual_ip'', ''hostname'', ''uptime_secs'', ''peer_count'', ''peers''] j;
     case ss of
       [i, v, h, u, n, ps] \<Rightarrow> do {
         i' \<leftarrow> required as_string i; v' \<leftarrow> required as_string v; h' \<leftarrow> required as_string h;
         u' \<leftarrow> required as_u64 u; n' \<leftarrow> required as_u64 n; ps' \<leftarrow> required (as_list cli_peer_of) ps;
         Some \<lparr>cs_device_id = i', cs_virtual_ip = v', cs_hostname = h', cs_uptime_secs = u',
               cs_peer_count = n', cs_peers = ps'\<rparr> }
     | _ \<Rightarrow> None }"

definition cli_check_of :: "json \<Rightarrow> cli_check option" where
  "cli_check_of j = do {
     ss \<leftarrow> slots [''status'', ''detail'', ''latency_ms''] j;
     case ss of
       [st, d, l] \<Rightarrow> do {
         st' \<leftarrow> required as_string st; d' \<leftarrow> required as_string d; l' \<leftarrow> optional as_u64 l;
         Some \<lparr>cc_status = st', cc_detail = d', cc_latency_ms = l'\<rparr> }
     | _ \<Rightarrow> None }"

definition cli_peer_diag_of :: "json \<Rightarrow> cli_peer_diag option" where
  "cli_peer_diag_of j = do {
     ss \<leftarrow> slots [''hostname'', ''virtual_ip'', ''path'', ''reachable''] j;
     case ss of
       [h, v, p, r] \<Rightarrow> do {
         h' \<leftarrow> required as_string h; v' \<leftarrow> required as_string v; p' \<leftarrow> required as_string p;
         r' \<leftarrow> required as_bool r;
         Some \<lparr>cd_hostname = h', cd_virtual_ip = v', cd_path = p', cd_reachable = r'\<rparr> }
     | _ \<Rightarrow> None }"

definition cli_diagnostics_of :: "json \<Rightarrow> cli_diagnostics option" where
  "cli_diagnostics_of j = do {
     ss \<leftarrow> slots [''daemon'', ''control'', ''stun'', ''relay'', ''tun'', ''peers''] j;
     case ss of
       [d, c, st, r, t, ps] \<Rightarrow> do {
         d' \<leftarrow> required cli_check_of d; c' \<leftarrow> required cli_check_of c; st' \<leftarrow> required cli_check_of st;
         r' \<leftarrow> required cli_check_of r; t' \<leftarrow> required cli_check_of t;
         ps' \<leftarrow> required (as_list cli_peer_diag_of) ps;
         Some \<lparr>di_daemon = d', di_control = c', di_stun = st', di_relay = r', di_tun = t', di_peers = ps'\<rparr> }
     | _ \<Rightarrow> None }"

section \<open>What the tray decodes\<close>

definition tray_peer_of :: "json \<Rightarrow> tray_peer option" where
  "tray_peer_of j = do {
     ss \<leftarrow> slots [''hostname'', ''virtual_ip'', ''path''] j;
     case ss of
       [h, v, p] \<Rightarrow> do {
         h' \<leftarrow> defaulted [] as_string h; v' \<leftarrow> defaulted [] as_string v; p' \<leftarrow> defaulted [] as_string p;
         Some \<lparr>tp_hostname = h', tp_virtual_ip = v', tp_path = p'\<rparr> }
     | _ \<Rightarrow> None }"

definition tray_status_of :: "json \<Rightarrow> tray_status option" where
  "tray_status_of j = do {
     ss \<leftarrow> slots [''device_id'', ''virtual_ip'', ''hostname'', ''uptime_secs'', ''peer_count'', ''peers''] j;
     case ss of
       [i, v, h, u, n, ps] \<Rightarrow> do {
         i' \<leftarrow> required as_string i; v' \<leftarrow> required as_string v; h' \<leftarrow> required as_string h;
         u' \<leftarrow> required as_u64 u; n' \<leftarrow> required as_u64 n; ps' \<leftarrow> defaulted [] (as_list tray_peer_of) ps;
         Some \<lparr>ts_device_id = i', ts_virtual_ip = v', ts_hostname = h', ts_uptime_secs = u',
               ts_peer_count = n', ts_peers = ps'\<rparr> }
     | _ \<Rightarrow> None }"

text \<open>A reply as \<open>reqwest\<close> gives it to the commands and to the tray.\<close>

definition http_reply_of :: "(json \<Rightarrow> 'a option) \<Rightarrow> http_response option \<Rightarrow> 'a http_reply" where
  "http_reply_of dec resp = (case resp of None \<Rightarrow> HttpNone | Some (code, b) \<Rightarrow> HttpStatus code (body_json dec b))"

definition status_request :: http_request where "status_request = get_request ''/status''"
definition diagnostics_request :: http_request where "diagnostics_request = get_request ''/diagnostics''"
definition shutdown_request :: http_request where
  "shutdown_request = \<lparr>hq_method = POST, hq_path = ''/shutdown'', hq_body = Empty\<rparr>"

section \<open>Views\<close>

definition cli_view :: "(uuid \<Rightarrow> string) \<Rightarrow> status_response \<Rightarrow> cli_status" where
  "cli_view show_id r =
     \<lparr>cs_device_id = show_id (sr_device_id r), cs_virtual_ip = sr_virtual_ip r, cs_hostname = sr_hostname r,
      cs_uptime_secs = sr_uptime_secs r, cs_peer_count = sr_peer_count r,
      cs_peers = map (\<lambda>p. \<lparr>cp_device_id = sp_device_id p, cp_virtual_ip = sp_virtual_ip p,
                           cp_hostname = sp_hostname p, cp_path = sp_path p\<rparr>) (sr_peers r)\<rparr>"

definition tray_view :: "(uuid \<Rightarrow> string) \<Rightarrow> status_response \<Rightarrow> tray_status" where
  "tray_view show_id r =
     \<lparr>ts_device_id = show_id (sr_device_id r), ts_virtual_ip = sr_virtual_ip r, ts_hostname = sr_hostname r,
      ts_uptime_secs = sr_uptime_secs r, ts_peer_count = sr_peer_count r,
      ts_peers = map (\<lambda>p. \<lparr>tp_hostname = sp_hostname p, tp_virtual_ip = sp_virtual_ip p, tp_path = sp_path p\<rparr>)
                   (sr_peers r)\<rparr>"

definition check_view :: "check_result \<Rightarrow> cli_check" where
  "check_view c = \<lparr>cc_status = ck_status c, cc_detail = ck_detail c, cc_latency_ms = ck_latency_ms c\<rparr>"

definition diagnostics_view :: "diagnostics_response \<Rightarrow> cli_diagnostics" where
  "diagnostics_view r =
     \<lparr>di_daemon = check_view (dr_daemon r), di_control = check_view (dr_control r), di_stun = check_view (dr_stun r),
      di_relay = check_view (dr_relay r), di_tun = check_view (dr_tun r),
      di_peers = map (\<lambda>p. \<lparr>cd_hostname = pd_hostname p, cd_virtual_ip = pd_virtual_ip p, cd_path = pd_path p,
                           cd_reachable = pd_reachable p\<rparr>) (dr_peers r)\<rparr>"

text \<open>Numbers that fit their integer type.\<close>

definition status_fits :: "status_response \<Rightarrow> bool" where
  "status_fits r \<longleftrightarrow> sr_uptime_secs r < 2 ^ 64 \<and> sr_peer_count r < 2 ^ 64"

definition check_fits :: "check_result \<Rightarrow> bool" where
  "check_fits c \<longleftrightarrow> (\<forall>ms. ck_latency_ms c = Some ms \<longrightarrow> ms < 2 ^ 64)"

definition diagnostics_fit :: "diagnostics_response \<Rightarrow> bool" where
  "diagnostics_fit r \<longleftrightarrow> check_fits (dr_daemon r) \<and> check_fits (dr_control r) \<and> check_fits (dr_stun r)
     \<and> check_fits (dr_relay r) \<and> check_fits (dr_tun r)"

interpretation cli_peers: json_codec status_peer_json cli_peer_of
  "\<lambda>p. \<lparr>cp_device_id = sp_device_id p, cp_virtual_ip = sp_virtual_ip p, cp_hostname = sp_hostname p, cp_path = sp_path p\<rparr>"
  "\<lambda>_. True"
  by unfold_locales (simp add: status_peer_json_def cli_peer_of_def slots_object)

interpretation tray_peers: json_codec status_peer_json tray_peer_of
  "\<lambda>p. \<lparr>tp_hostname = sp_hostname p, tp_virtual_ip = sp_virtual_ip p, tp_path = sp_path p\<rparr>" "\<lambda>_. True"
  by unfold_locales (simp add: status_peer_json_def tray_peer_of_def slots_object)

interpretation cli_status: json_codec "status_response_json show_id" cli_status_of "cli_view show_id" status_fits
  by unfold_locales
     (simp add: status_response_json_def cli_status_of_def cli_view_def status_fits_def slots_object as_u64_JInt
        cli_peers.dec_list)

interpretation tray_status: json_codec "status_response_json show_id" tray_status_of "tray_view show_id" status_fits
  by unfold_locales
     (simp add: status_response_json_def tray_status_of_def tray_view_def status_fits_def slots_object as_u64_JInt
        tray_peers.dec_list)

lemma optional_latency: "check_fits c \<Longrightarrow>
    optional as_u64 (Given (json_option (\<lambda>n. JInt (int n)) (ck_latency_ms c))) = Some (ck_latency_ms c)"
  using json_nat.dec_option [of "ck_latency_ms c"] by (simp add: check_fits_def option.map_ident)

interpretation cli_checks: json_codec check_result_json cli_check_of check_view check_fits
  by unfold_locales (simp add: check_result_json_def cli_check_of_def check_view_def slots_object optional_latency)

interpretation cli_peer_diags: json_codec peer_diag_json cli_peer_diag_of
  "\<lambda>p. \<lparr>cd_hostname = pd_hostname p, cd_virtual_ip = pd_virtual_ip p, cd_path = pd_path p, cd_reachable = pd_reachable p\<rparr>"
  "\<lambda>_. True"
  by unfold_locales (simp add: peer_diag_json_def cli_peer_diag_of_def slots_object)

interpretation cli_diagnostics: json_codec diagnostics_response_json cli_diagnostics_of diagnostics_view diagnostics_fit
  by unfold_locales
     (simp add: diagnostics_response_json_def cli_diagnostics_of_def diagnostics_view_def diagnostics_fit_def slots_object
        cli_checks.dec_enc cli_peer_diags.dec_list)

section \<open>The interface over HTTP\<close>

lemma daemon_routes:
  "daemon_route (hq_method status_request) (hq_path status_request) = Found AtStatus"
  "daemon_route (hq_method diagnostics_request) (hq_path diagnostics_request) = Found AtDiagnostics"
  "daemon_route (hq_method shutdown_request) (hq_path shutdown_request) = Found AtShutdown"
  by (simp_all add: daemon_route_def status_request_def diagnostics_request_def shutdown_request_def get_request_def)

lemma http_reply_of_content [simp]:
  "http_reply_of dec (Some (code, Content j)) = HttpStatus code (dec j)"
  "http_reply_of dec (Some (code, Empty)) = HttpStatus code None"
  "http_reply_of dec (Some (code, Plain)) = HttpStatus code None"
  "http_reply_of dec None = HttpNone"
  by (simp_all add: http_reply_of_def body_json_def)

definition idle_state :: shared_state where
  "idle_state = \<lparr>sh_device_id = 1, sh_virtual_ip = ipv4_new 100 64 0 0, sh_hostname = ''laptop'', sh_started_at = 3,
     sh_ip_route = Map.empty, sh_peer_links = Map.empty\<rparr>"

definition no_checks :: diagnostics_response where
  "no_checks = (let c = \<lparr>ck_status = ''warn'', ck_detail = ''not configured'', ck_latency_ms = None\<rparr>
     in \<lparr>dr_daemon = c, dr_control = c, dr_stun = c, dr_relay = c, dr_tun = c, dr_peers = []\<rparr>)"

text \<open>
  C29: The command line and the tray decode every status of a running daemon, and the command line
  its diagnostics, to what the daemon put there (the numbers fit 64 bits); the request to shut
  down is confirmed, the command line reports it as done, and the daemon is as it was.
\<close>

theorem status_wire:
  assumes "now - sh_started_at s < 2 ^ 64" and "length links < 2 ^ 64" and "diagnostics_fit (checks s)"
  shows "http_reply_of cli_status_of (fst (daemon_respond show_id True links now checks status_request s))
       = HttpStatus 200 (Some (cli_view show_id (handle_status s links now)))
   \<and> http_reply_of tray_status_of (fst (daemon_respond show_id True links now checks status_request s))
       = HttpStatus 200 (Some (tray_view show_id (handle_status s links now)))
   \<and> http_reply_of cli_diagnostics_of (fst (daemon_respond show_id True links now checks diagnostics_request s))
       = HttpStatus 200 (Some (diagnostics_view (checks s)))
   \<and> cmd_stop (http_reply_of (\<lambda>_. None) (fst (daemon_respond show_id True links now checks shutdown_request s)))
       = (Ok (), [''Shutdown requested.''])
   \<and> snd (daemon_respond show_id True links now checks shutdown_request s) = s"
proof -
  have "status_fits (handle_status s links now)"
    using assms(1,2) by (simp add: status_fits_def handle_status_def)
  then show ?thesis
    using assms(3)
    by (simp add: daemon_respond_def daemon_routes cli_status.dec_enc tray_status.dec_enc cli_diagnostics.dec_enc
        handle_shutdown_def cmd_stop_def is_success_def)
qed

theorem status_wire_witness:
  "http_reply_of tray_status_of (fst (daemon_respond decimal_id True [] 10 (\<lambda>_. no_checks) status_request idle_state))
     = HttpStatus 200 (Some (tray_view decimal_id (handle_status idle_state [] 10)))"
proof -
  have "10 - sh_started_at idle_state < 2 ^ 64" by (simp add: idle_state_def)
  moreover have "diagnostics_fit no_checks" by (simp add: no_checks_def Let_def diagnostics_fit_def check_fits_def)
  ultimately show ?thesis
    using status_wire [of 10 idle_state "[]" "\<lambda>_. no_checks" decimal_id] by simp
qed

section \<open>What stops the daemon\<close>

text \<open>
  The end of \<open>main\<close>: it waits for ctrl-c, cancels the tasks and returns. Until then the tasks work
  and the interface answers; a request sees the links in some order, the time and the checks of
  its moment.
\<close>

datatype life_event =
    CtrlC
  | ApiRequest http_request "peer_link list" nat "shared_state \<Rightarrow> diagnostics_response"
  | Work run_event

type_synonym 'd life = "('d daemon \<times> datagram list) panics \<times> bool"

definition life_step :: "(uuid \<Rightarrow> string) \<Rightarrow> 'd life \<Rightarrow> life_event \<Rightarrow> 'd life" where
  "life_step show_id st e = (case st of (running, stopped) \<Rightarrow>
     if stopped then st
     else (case e of
         CtrlC \<Rightarrow> (running, True)
       | Work ev \<Rightarrow> (run_step running ev, False)
       | ApiRequest hq links now checks \<Rightarrow>
           (map_option (\<lambda>(d, out). (dm_shared_update
               (\<lambda>s. snd (daemon_respond show_id (dm_api d = ApiListening) links now checks hq s)) d, out)) running,
            False)))"

definition work_of :: "life_event list \<Rightarrow> run_event list" where
  "work_of es = List.map_filter (\<lambda>e. case e of Work ev \<Rightarrow> Some ev | _ \<Rightarrow> None) es"

lemma daemon_respond_state: "snd (daemon_respond show_id bound links now checks hq s) = s"
  by (simp add: daemon_respond_def handle_shutdown_def split: routed.split daemon_endpoint.split)

lemma api_request_idle: "life_step show_id st (ApiRequest hq links now checks) = st"
proof -
  have "dm_shared_update (\<lambda>s. snd (daemon_respond show_id b links now checks hq s)) d = d" for b and d :: "'a daemon"
    by (simp add: daemon_respond_state)
  then show ?thesis by (cases st) (simp add: life_step_def map_option.id [unfolded id_def] split_beta')
qed

text \<open>
  Only ctrl-c stops a daemon: after any mixture of work and of requests to its interface
  (the request to shut down among them) it is running exactly if there was no ctrl-c, and what
  it did is what its work alone would have done.
\<close>

theorem only_ctrl_c_stops:
  "(snd (foldl (life_step show_id) (st, False) es) \<longleftrightarrow> CtrlC \<in> set es)
   \<and> (CtrlC \<notin> set es \<longrightarrow> fst (foldl (life_step show_id) (st, False) es) = foldl run_step st (work_of es))"
proof -
  have stopped: "foldl (life_step show_id) (r, True) es = (r, True)" for r :: "('a daemon \<times> datagram list) panics" and es
    by (induction es) (simp_all add: life_step_def)
  show ?thesis
  proof (induction es arbitrary: st)
    case (Cons e es)
    show ?case
    proof (cases e)
      case CtrlC
      moreover have "life_step show_id (st, False) CtrlC = (st, True)" by (simp add: life_step_def)
      ultimately show ?thesis using stopped [of st es] by simp
    next
      case (ApiRequest hq links now checks)
      then show ?thesis using Cons [of st] by (simp add: api_request_idle work_of_def List.map_filter_simps)
    next
      case (Work ev)
      then have "life_step show_id (st, False) e = (run_step st ev, False)" by (simp add: life_step_def)
      then show ?thesis using Cons [of "run_step st ev"] Work by (simp add: work_of_def List.map_filter_simps)
    qed
  qed (simp add: work_of_def List.map_filter_simps)
qed

section \<open>The tray application\<close>

definition DAEMON_URL :: string where "DAEMON_URL = ''http://127.0.0.1:9823''"

text \<open>The environment variable \<open>CONNECTALSO_DAEMON\<close>, if it is set to text.\<close>

definition tray_daemon_url :: "string option \<Rightarrow> string" where
  "tray_daemon_url env = (case env of None \<Rightarrow> DAEMON_URL | Some url \<Rightarrow> url)"

text \<open>The menu; \<open>None\<close> is a separator.\<close>

definition tray_menu :: "string option list" where
  "tray_menu = [Some ''Status: checking...'', None,
     Some (''Run '' @ apostrophe @ ''connectalso diag'' @ apostrophe @ '' in terminal''), None,
     Some ''ConnectAlso Desktop Alpha v0.1.0'', Some ''Quit'']"

datatype tray_error = MenuFailed | TrayFailed

text \<open>
  \<open>main\<close> up to some turns of its loop, one for each state of the network: what is on the tray (the
  menu and the icon), and the current status with the lines it logged. Building the menu and the
  tray icon may fail.
\<close>

definition tray_main ::
  "(nat \<Rightarrow> u8 \<Rightarrow> u8) \<Rightarrow> string option \<Rightarrow> bool \<Rightarrow> bool \<Rightarrow> (string \<Rightarrow> http_request \<Rightarrow> http_response option) list
     \<Rightarrow> (tray_error + (string option list \<times> bytes) \<times> conn_status \<times> string list) panics" where
  "tray_main rim env menu_ok built turns =
     (if \<not> menu_ok then ret (Err MenuFailed)
      else do {
        icon \<leftarrow> make_icon rim (status_color Disconnected);
        if \<not> built then ret (Err TrayFailed)
        else ret (Ok ((tray_menu, icon),
          foldl tray_step (Disconnected, [])
            (map (\<lambda>net. http_reply_of tray_status_of (net (tray_daemon_url env) status_request)) turns))) })"

text \<open>The tray never panics, and the icon stays that of a disconnected daemon, whatever the status.\<close>

theorem tray_icon_is_static:
  "\<exists>icon. make_icon rim (status_color Disconnected) = ret icon
     \<and> (\<exists>status logged. tray_main rim env True True turns = ret (Ok ((tray_menu, icon), status, logged))
          \<and> status = (if turns = [] then Disconnected
                     else fetch_status (http_reply_of tray_status_of (last turns (tray_daemon_url env) status_request))))"
proof -
  obtain icon where icon: "make_icon rim (status_color Disconnected) = ret icon" using make_icon_valid by blast
  let ?replies = "map (\<lambda>net. http_reply_of tray_status_of (net (tray_daemon_url env) status_request)) turns"
  obtain st l where r: "foldl tray_step (Disconnected, []) ?replies = (st, l)" by fastforce
  have "st = (if ?replies = [] then Disconnected else fetch_status (last ?replies))"
    using tray_current [of Disconnected "[]" ?replies] r by simp
  with icon r show ?thesis by (auto simp: tray_main_def last_map)
qed

section \<open>The saved configuration\<close>

definition daemon_config_json :: "(uuid \<Rightarrow> string) \<Rightarrow> daemon_config \<Rightarrow> json" where
  "daemon_config_json show_id c = JObj
     [(''device_id'', JStr (show_id (cfg_device_id c))), (''public_key_hex'', JStr (cfg_public_key_hex c)),
      (''virtual_ip'', JStr (cfg_virtual_ip c)), (''control_url'', JStr (cfg_control_url c)),
      (''stun_server'', JStr (cfg_stun_server c)), (''relay_servers'', json_strings (cfg_relay_servers c)),
      (''hostname'', JStr (cfg_hostname c))]"

definition daemon_config_of :: "(string \<Rightarrow> uuid option) \<Rightarrow> json \<Rightarrow> daemon_config option" where
  "daemon_config_of parse_id j = do {
     ss \<leftarrow> slots [''device_id'', ''public_key_hex'', ''virtual_ip'', ''control_url'', ''stun_server'', ''relay_servers'',
                  ''hostname''] j;
     case ss of
       [i, k, v, c, st, rs, h] \<Rightarrow> do {
         i' \<leftarrow> required (as_id parse_id) i; k' \<leftarrow> required as_string k; v' \<leftarrow> required as_string v;
         c' \<leftarrow> required as_string c; st' \<leftarrow> required as_string st;
         rs' \<leftarrow> defaulted [] (as_list as_string) rs; h' \<leftarrow> required as_string h;
         Some \<lparr>cfg_device_id = i', cfg_public_key_hex = k', cfg_virtual_ip = v', cfg_control_url = c',
               cfg_stun_server = st', cfg_relay_servers = rs', cfg_hostname = h'\<rparr> }
     | _ \<Rightarrow> None }"

interpretation saved_config: json_codec "daemon_config_json show_id" "daemon_config_of parse_id" "\<lambda>c. c"
  "\<lambda>_. uuid_text_ok show_id parse_id"
  by unfold_locales (simp add: daemon_config_json_def daemon_config_of_def slots_object as_id_show)

text \<open>
  A configuration that was written is loaded again by the diagnostics of the daemon, and so is a
  file of an older version without the relay servers, with none.
\<close>

lemma config_roundtrip:
  assumes "uuid_text_ok show_id parse_id" and "\<And>j. read_json (print_json j) = Some j"
  shows "config_load (\<lambda>t. Option.bind (read_json t) (daemon_config_of parse_id))
       (config_save (\<lambda>c. Some (print_json (daemon_config_json show_id c))) True cfg file) = Some cfg"
  using assms(2) by (simp add: config_load_def config_save_def saved_config.dec_enc [OF assms(1)])

lemma config_without_relays:
  "uuid_text_ok show_id parse_id \<Longrightarrow> daemon_config_of parse_id (JObj
     [(''device_id'', JStr (show_id i)), (''public_key_hex'', JStr k), (''virtual_ip'', JStr v), (''control_url'', JStr c),
      (''stun_server'', JStr st), (''hostname'', JStr h)])
   = Some \<lparr>cfg_device_id = i, cfg_public_key_hex = k, cfg_virtual_ip = v, cfg_control_url = c, cfg_stun_server = st,
           cfg_relay_servers = [], cfg_hostname = h\<rparr>"
  by (simp add: daemon_config_of_def slots_object as_id_show)

end
