(* ===== verification/Cli_Main.thy ===== *)
theory Cli_Main
  imports Daemon_Api
begin

text \<open>
  \<open>main\<close> of \<open>apps/cli/src/main.rs\<close>: the subcommands with their arguments, the request each sends,
  what it reads in the reply, and the dispatch. The command line itself is parsed by clap. The
  world of a command is the answer to every request at every base URL, the line on standard
  input, and the process id of a spawned daemon.
\<close>

section \<open>Subcommands\<close>

datatype admin_cmd =
    AdminPending string
  | AdminApprove string string
  | AdminRevoke string string
  | AdminPeers string

datatype cli_command =
    StatusCmd bool
  | DiagCmd
  | StartCmd string socket_addr socket_addr string
  | StopCmd
  | AdminCommand admin_cmd
  | BackupCmd string
  | RestoreCmd string

record cli_args =
  cl_daemon_url :: string
  cl_command :: cli_command

section \<open>Requests to the control service\<close>

definition put_request :: "string \<Rightarrow> http_request" where
  "put_request path = \<lparr>hq_method = PUT, hq_path = path, hq_body = Empty\<rparr>"

definition post_request :: "string \<Rightarrow> http_request" where
  "post_request path = \<lparr>hq_method = POST, hq_path = path, hq_body = Empty\<rparr>"

definition pending_request :: http_request where
  "pending_request = get_request ''/api/v1/register/pending''"

definition approve_request :: "string \<Rightarrow> http_request" where
  "approve_request device_id = put_request (''/api/v1/register/'' @ device_id @ ''/approve'')"

definition revoke_request :: "string \<Rightarrow> http_request" where
  "revoke_request device_id = put_request (''/api/v1/register/'' @ device_id @ ''/revoke'')"

definition admin_peers_request :: http_request where
  "admin_peers_request = get_request ''/api/v1/admin/peers''"

definition backup_request :: http_request where "backup_request = post_request ''/api/v1/backup''"
definition restore_request :: http_request where "restore_request = post_request ''/api/v1/restore''"

section \<open>What the commands read\<close>

text \<open>A \<open>serde_json::Value\<close> accepts every JSON body; the members may be absent.\<close>

definition json_device_of :: "json \<Rightarrow> json_device" where
  "json_device_of d =
     \<lparr>js_device_id = as_string (member d ''device_id''), js_hostname = as_string (member d ''hostname''),
      js_ipv4 = as_string (member d ''ipv4''), js_status = as_string (member d ''status'')\<rparr>"

definition device_list_of :: "string \<Rightarrow> json \<Rightarrow> json_device list option option" where
  "device_list_of key j = Some (map_option (map json_device_of) (as_array (member j key)))"

definition flag_of :: "string \<Rightarrow> json \<Rightarrow> bool option option" where
  "flag_of key j = Some (as_bool (member j key))"

definition backup_reply_of :: "json \<Rightarrow> (bool option \<times> string option) option" where
  "backup_reply_of j = Some (as_bool (member j ''success''), as_string (member j ''path''))"

section \<open>The dispatch\<close>

record cli_world =
  cw_http :: "string \<Rightarrow> http_request \<Rightarrow> http_response option"
  cw_line :: "nat list option"
  cw_spawn :: "nat option"

text \<open>The result, the lines of standard output and of standard error, and the spawned process.\<close>

record cli_outcome =
  co_result :: "cli_error + unit"
  co_stdout :: "string list"
  co_stderr :: "string list"
  co_spawned :: "string list option"

definition to_outcome :: "cli_output \<Rightarrow> cli_outcome" where
  "to_outcome r = \<lparr>co_result = fst r, co_stdout = snd r, co_stderr = [], co_spawned = None\<rparr>"

definition admin_main :: "cli_world \<Rightarrow> admin_cmd \<Rightarrow> cli_outcome" where
  "admin_main w a = (case a of
      AdminPending url \<Rightarrow>
        to_outcome (cmd_admin_pending (http_reply_of (device_list_of ''pending'') (cw_http w url pending_request)))
    | AdminApprove url i \<Rightarrow>
        to_outcome (cmd_admin_approve i (http_reply_of (flag_of ''approved'') (cw_http w url (approve_request i))))
    | AdminRevoke url i \<Rightarrow>
        to_outcome (cmd_admin_revoke i (http_reply_of (flag_of ''revoked'') (cw_http w url (revoke_request i))))
    | AdminPeers url \<Rightarrow>
        to_outcome (cmd_admin_peers (http_reply_of (device_list_of ''peers'') (cw_http w url admin_peers_request))))"

definition cli_main :: "(ipv6 \<Rightarrow> u16 \<Rightarrow> string) \<Rightarrow> cli_world \<Rightarrow> cli_args \<Rightarrow> cli_outcome panics" where
  "cli_main show6 w cli = (let daemon = cl_daemon_url cli in case cl_command cli of
      StatusCmd verbose \<Rightarrow> do {
        r \<leftarrow> cmd_status (http_reply_of cli_status_of (cw_http w daemon status_request)) verbose;
        ret (to_outcome r) }
    | DiagCmd \<Rightarrow>
        ret (to_outcome (cmd_diag (http_reply_of cli_diagnostics_of (cw_http w daemon diagnostics_request))))
    | StartCmd control_url stun_server relay_server hostname \<Rightarrow>
        (case cmd_start show6 control_url stun_server relay_server hostname
                (cw_http w ''http://127.0.0.1:9823'' status_request \<noteq> None) (cw_spawn w) of
           (out, errors, spawned) \<Rightarrow>
             ret \<lparr>co_result = Ok (), co_stdout = out, co_stderr = errors, co_spawned = spawned\<rparr>)
    | StopCmd \<Rightarrow>
        ret (to_outcome (cmd_stop (http_reply_of (\<lambda>_. None) (cw_http w daemon shutdown_request))))
    | AdminCommand a \<Rightarrow> ret (admin_main w a)
    | BackupCmd url \<Rightarrow>
        ret (to_outcome (cmd_backup (http_reply_of backup_reply_of (cw_http w url backup_request))))
    | RestoreCmd url \<Rightarrow>
        ret (to_outcome (fst (cmd_restore (cw_line w) (http_reply_of (flag_of ''success'') (cw_http w url restore_request))))))"

section \<open>The administration over HTTP\<close>

lemmas admin_requests = pending_request_def approve_request_def revoke_request_def admin_peers_request_def
  backup_request_def restore_request_def put_request_def post_request_def get_request_def

lemma dispatch_admin:
  "dispatch parse_id n pending_request = Serve PendingReq"
  "dispatch parse_id n admin_peers_request = Serve AdminPeersReq"
  "dispatch parse_id n backup_request = RunBackup" "dispatch parse_id n restore_request = RunRestore"
  unfolding admin_requests api_paths by (simp_all add: dispatched call_def)

lemma dispatch_admin_param:
  assumes "t \<noteq> []" and "CHR ''/'' \<notin> set t"
  shows "dispatch parse_id n (approve_request t) =
       (case parse_id t of None \<Rightarrow> Reject (400, Plain) | Some i \<Rightarrow> Serve (ApproveReq i))"
    and "dispatch parse_id n (revoke_request t) =
       (case parse_id t of None \<Rightarrow> Reject (400, Plain) | Some i \<Rightarrow> Serve (RevokeReq i))"
  using assms unfolding admin_requests api_paths
  by (simp_all add: dispatched call_def with_param_def comp_def)

text \<open>Text that stays one segment of a path when it is put into a URL.\<close>

definition plain_segment :: "string \<Rightarrow> bool" where
  "plain_segment t \<longleftrightarrow> t \<noteq> [] \<and> t \<noteq> ''.'' \<and> t \<noteq> ''..''
     \<and> list_all (\<lambda>c. c \<notin> {CHR ''/'', CHR ''?'', CHR ''#'', CHR ''%'', CHR 0x5C, CHR 0x09, CHR 0x0A, CHR 0x0D}) t"

lemma plain_segmentD: "plain_segment t \<Longrightarrow> t \<noteq> [] \<and> CHR ''/'' \<notin> set t"
  by (auto simp: plain_segment_def list_all_iff)

lemma encoded_flags [json]:
  "flag_of ''approved'' (approval_json show_id b i) = Some (Some b)"
  "flag_of ''revoked'' (revoke_json show_id b i) = Some (Some b)"
  "flag_of ''success'' (restore_json b) = Some (Some b)"
  "backup_reply_of (backup_json path b) = Some (Some b, Some path)"
  by (simp_all add: flag_of_def approval_json_def revoke_json_def restore_json_def backup_json_def backup_reply_of_def)

lemma run_serve_approve:
  "run_state (serve app (ApproveReq i)) s = (let ((r, j), s') = run_state (handle_approve i) s in (ApprovalR r j, s'))"
  by (simp add: split_beta Let_def)

lemma approve_over_http_fact:
  assumes "db_inv (tables (sv_env sv))" and "faults (sv_env sv) = []" and "plain_segment t"
    and "respond show_id parse_id app n luck (approve_request t) sv = (resp, sv')"
    and "cw_http w url (approve_request t) = resp"
  shows "cli_main show6 w \<lparr>cl_daemon_url = base, cl_command = AdminCommand (AdminApprove url t)\<rparr> =
     (case parse_id t of
        None \<Rightarrow> ret \<lparr>co_result = Err BadJson, co_stdout = [], co_stderr = [], co_spawned = None\<rparr>
      | Some i \<Rightarrow> ret \<lparr>co_result = Ok (),
          co_stdout = [if \<exists>r\<in>set (devices (tables (sv_env sv))). row_id r = i \<and> row_status r = 0
                       then ''Device '' @ t @ '' approved.''
                       else ''Approval failed '' @ em_dash @ '' device not found or already approved.''],
          co_stderr = [], co_spawned = None\<rparr>)
   \<and> sv' = sv\<lparr>sv_env := (sv_env sv)\<lparr>tables := (tables (sv_env sv))\<lparr>devices :=
        map (\<lambda>r. if parse_id t = Some (row_id r) \<and> row_status r = 0 then r\<lparr>row_status := 1\<rparr> else r)
          (devices (tables (sv_env sv)))\<rparr>\<rparr>\<rparr>"
proof (cases "parse_id t")
  case None
  with assms(3,4) have "resp = Some (400, Plain)" "sv' = sv"
    by (simp_all add: respond_Reject dispatch_admin_param plain_segmentD)
  with None assms(5) show ?thesis
    by (simp add: cli_main_def admin_main_def to_outcome_def cmd_admin_approve_def json_body_def)
next
  case (Some i)
  let ?s = "sv_env sv"
  let ?found = "\<exists>r\<in>set (devices (tables ?s)). row_id r = i \<and> row_status r = 0"
  have "run_state (serve app (ApproveReq i)) ?s = (ApprovalR ?found i,
      ?s\<lparr>tables := (tables ?s)\<lparr>devices := map (\<lambda>r. if row_id r = i \<and> row_status r = 0 then r\<lparr>row_status := 1\<rparr> else r)
         (devices (tables ?s))\<rparr>\<rparr>)"
    unfolding run_serve_approve approve_spec [OF assms(1,2)] by simp
  with Some assms(3,4) have "resp = Some (200, Content (approval_json show_id ?found i))"
      "sv' = sv\<lparr>sv_env := ?s\<lparr>tables := (tables ?s)\<lparr>devices :=
         map (\<lambda>r. if row_id r = i \<and> row_status r = 0 then r\<lparr>row_status := 1\<rparr> else r) (devices (tables ?s))\<rparr>\<rparr>\<rparr>"
    by (auto simp: respond_Serve dispatch_admin_param plain_segmentD encode_reply_def simp del: serve.simps)
  moreover have "(\<lambda>r. if row_id r = i \<and> row_status r = 0 then r\<lparr>row_status := 1\<rparr> else r)
      = (\<lambda>r. if parse_id t = Some (row_id r) \<and> row_status r = 0 then r\<lparr>row_status := 1\<rparr> else r)"
    using Some by auto
  ultimately show ?thesis
    using Some assms(5)
    by (simp add: cli_main_def admin_main_def to_outcome_def cmd_admin_approve_def json_body_def encoded_flags is_true_def)
qed

text \<open>
  C27: The approval command against the service: text that is not a UUID is refused with a reply
  that is not JSON, on which the command fails, and the service is as it was; for the identifier of
  a Pending device it says that the device was approved, and the device is Approved; for any other
  it reports a failure and nothing changes.
\<close>

theorem approve_over_http:
  assumes "db_inv (tables (sv_env sv))" and "faults (sv_env sv) = []" and "plain_segment t"
    and "respond show_id parse_id app n luck (approve_request t) sv = (resp, sv')"
    and "cw_http w url (approve_request t) = resp"
  shows "cli_main show6 w \<lparr>cl_daemon_url = base, cl_command = AdminCommand (AdminApprove url t)\<rparr> =
     (case parse_id t of
        None \<Rightarrow> ret \<lparr>co_result = Err BadJson, co_stdout = [], co_stderr = [], co_spawned = None\<rparr>
      | Some i \<Rightarrow> ret \<lparr>co_result = Ok (),
          co_stdout = [if \<exists>r\<in>set (devices (tables (sv_env sv))). row_id r = i \<and> row_status r = 0
                       then ''Device '' @ t @ '' approved.''
                       else ''Approval failed '' @ em_dash @ '' device not found or already approved.''],
          co_stderr = [], co_spawned = None\<rparr>)
   \<and> sv' = sv\<lparr>sv_env := (sv_env sv)\<lparr>tables := (tables (sv_env sv))\<lparr>devices :=
        map (\<lambda>r. if parse_id t = Some (row_id r) \<and> row_status r = 0 then r\<lparr>row_status := 1\<rparr> else r)
          (devices (tables (sv_env sv)))\<rparr>\<rparr>\<rparr>"
  using assms by (rule approve_over_http_fact)

definition two_devices_world :: cli_world where
  "two_devices_world = \<lparr>cw_http = \<lambda>_ hq. fst (respond decimal_id parse_decimal_id sample_app 9 (CopyDone, True) hq
       (\<lparr>sv_env = two_devices, sv_files = Map.empty\<rparr> :: nat server)), cw_line = None, cw_spawn = None\<rparr>"

theorem approve_over_http_witness:
  "cli_main (\<lambda>_ _. []) two_devices_world
     \<lparr>cl_daemon_url = ''http://127.0.0.1:9823'', cl_command = AdminCommand (AdminApprove ''http://127.0.0.1:3000'' ''laptop'')\<rparr>
   = ret \<lparr>co_result = Err BadJson, co_stdout = [], co_stderr = [], co_spawned = None\<rparr>"
proof -
  let ?sv = "\<lparr>sv_env = two_devices, sv_files = Map.empty\<rparr> :: nat server"
  have ok: "db_inv (tables (sv_env ?sv))" "faults (sv_env ?sv) = []" using two_devices_ok by simp_all
  have seg: "plain_segment ''laptop''" by code_simp
  obtain resp sv' where r: "respond decimal_id parse_decimal_id sample_app 9 (CopyDone, True) (approve_request ''laptop'') ?sv = (resp, sv')"
    by fastforce
  then have "cw_http two_devices_world ''http://127.0.0.1:3000'' (approve_request ''laptop'') = resp"
    by (simp add: two_devices_world_def)
  from approve_over_http [OF ok seg r this, of "\<lambda>_ _. []" "''http://127.0.0.1:9823''"]
  show ?thesis by (simp add: parse_decimal_id_def is_digit_def)
qed

section \<open>Lists of devices over HTTP\<close>

text \<open>
  How the two list commands end, for a list the service answered, a status without a body and a
  connection closed by a panic.
\<close>

definition list_outcome :: "('a list \<Rightarrow> string list) \<Rightarrow> (http_status + 'a list) panics \<Rightarrow> cli_outcome" where
  "list_outcome lines r = (case r of
      None \<Rightarrow> \<lparr>co_result = Err RequestFailed, co_stdout = [], co_stderr = [], co_spawned = None\<rparr>
    | Some (Err _) \<Rightarrow> \<lparr>co_result = Err BadJson, co_stdout = [], co_stderr = [], co_spawned = None\<rparr>
    | Some (Ok xs) \<Rightarrow> \<lparr>co_result = Ok (), co_stdout = lines xs, co_stderr = [], co_spawned = None\<rparr>)"

lemma pending_devices [json]:
  "device_list_of ''pending'' (pending_json show_id ps) =
     Some (Some (map (\<lambda>p. \<lparr>js_device_id = Some (show_id (pe_device_id p)), js_hostname = Some (pe_hostname p),
                           js_ipv4 = Some (pe_ipv4 p), js_status = None\<rparr>) ps))"
  by (simp add: device_list_of_def pending_json_def json_device_of_def pending_info_json_def)

lemma admin_devices [json]:
  "device_list_of ''peers'' (admin_peers_json show_id ps) =
     Some (Some (map (\<lambda>p. \<lparr>js_device_id = Some (show_id (ap_device_id p)), js_hostname = Some (ap_hostname p),
                           js_ipv4 = Some (ap_ipv4 p), js_status = Some (ap_status p)\<rparr>) ps))"
  by (simp add: device_list_of_def admin_peers_json_def json_device_of_def admin_peer_info_json_def)

definition pending_lines :: "(uuid \<Rightarrow> string) \<Rightarrow> pending_info list \<Rightarrow> string list" where
  "pending_lines show_id ps =
     (if ps = [] then [''No pending devices.'']
      else [''Pending devices ('' @ show_nat (length ps) @ '')'']
        @ map (\<lambda>p. ''  '' @ show_id (pe_device_id p) @ ''  '' @ pe_hostname p @ ''  '' @ pe_ipv4 p) ps
        @ [newline @ ''Approve: connectalso admin approve <device_id>''])"

definition admin_lines :: "(uuid \<Rightarrow> string) \<Rightarrow> admin_peer_info list \<Rightarrow> string list" where
  "admin_lines show_id ps =
     [''All devices ('' @ show_nat (length ps) @ '')'',
      ''  '' @ pad_right 38 ''DEVICE ID'' @ ''  '' @ pad_right 16 ''IP'' @ ''  '' @ pad_right 12 ''STATUS'' @ ''  HOSTNAME'']
     @ map (\<lambda>p. ''  '' @ pad_right 38 (show_id (ap_device_id p)) @ ''  '' @ pad_right 16 (ap_ipv4 p) @ ''  ''
              @ pad_right 12 (ap_status p) @ ''  '' @ ap_hostname p) ps"

lemma serve_lists:
  "fst (run_state (serve app PendingReq) s) = reply_panics PendingR (fst (run_state handle_pending s))"
  "fst (run_state (serve app AdminPeersReq) s) = reply_panics AdminPeersR (fst (run_state handle_admin_peers s))"
  by (simp_all add: split_beta)

text \<open>
  The list commands print the devices that the handlers answered, in their order and with
  their fields; if a statement fails, the command fails on a reply that is not JSON: it never
  says that no device is pending because the service could not tell.
\<close>

theorem lists_over_http:
  assumes "cw_http w url pending_request = fst (respond show_id parse_id app n luck pending_request sv)"
    and "cw_http w url admin_peers_request = fst (respond show_id parse_id app n luck admin_peers_request sv)"
  shows "cli_main show6 w \<lparr>cl_daemon_url = base, cl_command = AdminCommand (AdminPending url)\<rparr>
       = ret (list_outcome (pending_lines show_id) (fst (run_state handle_pending (sv_env sv))))
   \<and> cli_main show6 w \<lparr>cl_daemon_url = base, cl_command = AdminCommand (AdminPeers url)\<rparr>
       = ret (list_outcome (admin_lines show_id) (fst (run_state handle_admin_peers (sv_env sv))))
   \<and> (list_outcome (pending_lines show_id) (fst (run_state handle_pending (sv_env sv)))
        = \<lparr>co_result = Ok (), co_stdout = [''No pending devices.''], co_stderr = [], co_spawned = None\<rparr>
        \<longleftrightarrow> fst (run_state handle_pending (sv_env sv)) = ret (Ok []))"
proof -
  have p: "cw_http w url pending_request = encode_reply show_id (reply_panics PendingR (fst (run_state handle_pending (sv_env sv))))"
    using assms(1) by (simp add: respond_Serve dispatch_admin serve_lists del: serve.simps)
  have a: "cw_http w url admin_peers_request
      = encode_reply show_id (reply_panics AdminPeersR (fst (run_state handle_admin_peers (sv_env sv))))"
    using assms(2) by (simp add: respond_Serve dispatch_admin serve_lists del: serve.simps)
  note shapes = cli_main_def admin_main_def to_outcome_def list_outcome_def json_body_def reply_panics_def reply_def
    encode_reply_def
  have "cli_main show6 w \<lparr>cl_daemon_url = base, cl_command = AdminCommand (AdminPending url)\<rparr>
      = ret (list_outcome (pending_lines show_id) (fst (run_state handle_pending (sv_env sv))))"
    by (cases "fst (run_state handle_pending (sv_env sv))" rule: option.exhaust [case_product sum.exhaust])
       (auto simp: shapes p cmd_admin_pending_def pending_devices unwrap_list_def pending_lines_def
          pending_line_def or_dash_def split: sum.split)
  moreover have "cli_main show6 w \<lparr>cl_daemon_url = base, cl_command = AdminCommand (AdminPeers url)\<rparr>
      = ret (list_outcome (admin_lines show_id) (fst (run_state handle_admin_peers (sv_env sv))))"
    by (cases "fst (run_state handle_admin_peers (sv_env sv))")
       (auto simp: shapes a cmd_admin_peers_def admin_devices unwrap_list_def admin_lines_def admin_peer_line_def
          or_dash_def split: sum.split)
  moreover have "list_outcome (pending_lines show_id) r
        = \<lparr>co_result = Ok (), co_stdout = [''No pending devices.''], co_stderr = [], co_spawned = None\<rparr>
        \<longleftrightarrow> r = ret (Ok [])" for r
    by (auto simp: list_outcome_def pending_lines_def split: option.splits sum.splits if_splits)
  ultimately show ?thesis by blast
qed

theorem lists_over_http_witness:
  "cli_main (\<lambda>_ _. []) two_devices_world
     \<lparr>cl_daemon_url = ''http://127.0.0.1:9823'', cl_command = AdminCommand (AdminPending ''http://127.0.0.1:3000'')\<rparr>
   = ret \<lparr>co_result = Ok (), co_stdout = [''No pending devices.''], co_stderr = [], co_spawned = None\<rparr>"
proof -
  let ?sv = "\<lparr>sv_env = two_devices, sv_files = Map.empty\<rparr> :: nat server"
  have w: "cw_http two_devices_world ''http://127.0.0.1:3000'' hq
      = fst (respond decimal_id parse_decimal_id sample_app 9 (CopyDone, True) hq ?sv)" for hq
    by (simp add: two_devices_world_def)
  have "fst (run_state handle_pending two_devices) = ret (Ok [])"
    using two_devices_ok
    by (simp add: handle_pending_def list_pending_def run_query_ok records_by_created)
       (simp add: by_created_def two_devices_def laptop_row_def phone_row_def)
  with lists_over_http [OF w w, of "\<lambda>_ _. []" "''http://127.0.0.1:9823''"]
  show ?thesis by (simp add: list_outcome_def pending_lines_def)
qed

end
