(* ===== verification/Network_Join.thy ===== *)
theory Network_Join
  imports Cli_Main
begin

text \<open>
  A device joins a network: the requests of its daemon, of the administrator and of another
  daemon, each over HTTP, against the handlers and the store of the control service.
\<close>

section \<open>The single exchanges\<close>

lemma serve_keeps_inv: "db_inv (tables s) \<Longrightarrow> db_inv (tables (snd (run_state (serve app req) s)))"
  using safe_serve [of app req] leads_inv by (auto simp: safe_def)

text \<open>A registration that succeeds, at a store that is not empty.\<close>

definition joined :: "app_state \<Rightarrow> env \<Rightarrow> uuid \<Rightarrow> bytes \<Rightarrow> string \<Rightarrow> env" where
  "joined app s i pk host =
     s\<lparr>times := tl (times s),
       tables := (taken (next_ip app (tables s)) (tables s))
         \<lparr>devices := devices (tables s) @ [registered_row app s i pk host]\<rparr>\<rparr>"

definition can_join :: "app_state \<Rightarrow> env \<Rightarrow> uuid \<Rightarrow> bytes \<Rightarrow> bool" where
  "can_join app s i pk \<longleftrightarrow> length pk = 32 \<and> \<not> pool_full app (tables s) \<and> devices (tables s) \<noteq> []
     \<and> (\<forall>r\<in>set (devices (tables s)). row_id r \<noteq> i \<and> row_key r \<noteq> pk
          \<and> row_ipv4 r \<noteq> show_ipv4 (next_ip app (tables s)))"

lemma join_exchange:
  assumes ids: "uuid_text_ok show_id parse_id" and inv: "db_inv (tables (sv_env sv))" and ok: "faults (sv_env sv) = []"
    and new: "can_join app (sv_env sv) i pk"
    and resp: "respond show_id parse_id app i luck (daemon_register_request pk host) sv = (resp, sv')"
  shows "daemon_registration parse_id resp = Some (i, show_ipv4 (next_ip app (tables (sv_env sv))))"
    and "sv_env sv' = joined app (sv_env sv) i pk host"
    and "db_inv (tables (sv_env sv'))" and "faults (sv_env sv') = []"
proof -
  let ?s = "sv_env sv"
  have fresh: "pk \<notin> row_key ` set (devices (tables ?s))" "i \<notin> row_id ` set (devices (tables ?s))"
      "show_ipv4 (next_ip app (tables ?s)) \<notin> row_ipv4 ` set (devices (tables ?s))"
      "\<not> pool_full app (tables ?s)" "devices (tables ?s) \<noteq> []" "length pk = 32"
    using new by (auto simp: can_join_def)
  have run: "run_state (handle_register app i pk host) ?s =
      (ret (Ok \<lparr>reg_device_id = i, reg_ipv4 = show_ipv4 (next_ip app (tables ?s)), reg_network = network_cidr app,
                reg_status = ''pending''\<rparr>), joined app ?s i pk host)"
    using register_new_key_fact [OF inv ok fresh(1), of app i host] fresh by (simp add: Let_def joined_def)
  have serve: "run_state (serve app (RegisterReq i pk host)) ?s =
      (RegisterR \<lparr>reg_device_id = i, reg_ipv4 = show_ipv4 (next_ip app (tables ?s)), reg_network = network_cidr app,
                reg_status = ''pending''\<rparr>, joined app ?s i pk host)"
    by (simp add: run fresh(6) reply_panics_def reply_def)
  have "(resp, sv') = respond show_id parse_id app i luck (daemon_register_request pk host) sv" using resp by simp
  also have "\<dots> = (encode_reply show_id (reply_panics RegisterR (fst (run_state (handle_register app i pk host) ?s))),
      sv\<lparr>sv_env := joined app ?s i pk host\<rparr>)"
    by (simp add: respond_Serve dispatch_clients [OF ids] fresh(6) serve run reply_panics_def reply_def del: serve.simps)
  finally have r: "resp = encode_reply show_id (reply_panics RegisterR (fst (run_state (handle_register app i pk host) ?s)))"
    and s': "sv' = sv\<lparr>sv_env := joined app ?s i pk host\<rparr>" by simp_all
  show "daemon_registration parse_id resp = Some (i, show_ipv4 (next_ip app (tables ?s)))"
    unfolding r registration_sent [OF ids] by (simp add: run answered_def)
  show "sv_env sv' = joined app ?s i pk host" by (simp add: s')
  show "db_inv (tables (sv_env sv'))"
    using serve_keeps_inv [OF inv, of app "RegisterReq i pk host"] by (simp add: s' serve del: serve.simps)
  show "faults (sv_env sv') = []" using ok by (simp add: s' joined_def)
qed

text \<open>Asking for the peers changes nothing but the clock.\<close>

lemma peers_exchange:
  assumes ids: "uuid_text_ok show_id parse_id" and inv: "db_inv (tables (sv_env sv))" and ok: "faults (sv_env sv) = []"
    and resp: "respond show_id parse_id app n luck daemon_peers_request sv = (resp, sv')"
  shows "daemon_peers parse_id resp = answered (fst (run_state handle_peers (sv_env sv)))"
    and "tables (sv_env sv') = tables (sv_env sv)" and "faults (sv_env sv') = []"
proof -
  have "(resp, sv') = respond show_id parse_id app n luck daemon_peers_request sv" using resp by simp
  then have r: "resp = encode_reply show_id (reply_panics PeersR (fst (run_state handle_peers (sv_env sv))))"
    and s': "sv' = sv\<lparr>sv_env := snd (run_state (serve app PeersReq) (sv_env sv))\<rparr>"
    by (simp_all add: respond_Serve dispatch_clients [OF ids] serve_fst del: serve.simps)
  show "daemon_peers parse_id resp = answered (fst (run_state handle_peers (sv_env sv)))"
    unfolding r by (rule peers_sent [OF ids])
  have "snd (run_state handle_peers (sv_env sv)) = (sv_env sv)\<lparr>times := tl (times (sv_env sv))\<rparr>"
    using ok by (simp add: handle_peers_def list_approved_def run_query_ok records_by_created [OF inv] run_unix_now)
  then show "tables (sv_env sv') = tables (sv_env sv)" "faults (sv_env sv') = []"
    using ok by (simp_all add: s' split_beta)
qed

section \<open>The whole join\<close>

lemma joined_devices:
  "devices (tables (joined app s i pk host)) = devices (tables s) @ [registered_row app s i pk host]"
  by (simp add: joined_def)

lemma registered_row_fields:
  "devices (tables s) \<noteq> [] \<Longrightarrow> row_status (registered_row app s i pk host) = 0"
  "row_id (registered_row app s i pk host) = i"
  "row_ipv4 (registered_row app s i pk host) = show_ipv4 (next_ip app (tables s))"
  by (simp_all add: registered_row_def)

text \<open>The devices after the approval of \<open>i\<close>: which of them are Approved.\<close>

lemma approved_rows:
  assumes "\<forall>r\<in>set rows. row_id r \<noteq> i" and "row_id new = i" and "row_status new = 0"
  shows "(\<exists>r\<in>set (map (\<lambda>r. if Some i = Some (row_id r) \<and> row_status r = 0 then r\<lparr>row_status := 1\<rparr> else r) (rows @ [new])).
            row_status r = 1 \<and> row_id r = j \<and> row_ipv4 r = t)
     \<longleftrightarrow> j = i \<and> row_ipv4 new = t \<or> (\<exists>r\<in>set rows. row_status r = 1 \<and> row_id r = j \<and> row_ipv4 r = t)"
proof -
  have "map (\<lambda>r. if Some i = Some (row_id r) \<and> row_status r = 0 then r\<lparr>row_status := 1\<rparr> else r) rows = rows"
    using assms(1) by (induction rows) auto
  with assms(2,3) show ?thesis by auto
qed

text \<open>
  C10: A device joins a network, over HTTP: on a consistent store with a free address, the
  registration of a new key gives the next address; until an administrator approves the device
  no list of peers contains it; the approval command with its identifier reports success; and
  from the next list of peers every other daemon routes the new address to the new device, and
  all addresses of Approved devices as before.
\<close>

theorem join_network:
  assumes "uuid_text_ok show_id parse_id" and "plain_segment (show_id i)"
    and "db_inv (tables (sv_env sv))" and "faults (sv_env sv) = []" and "can_join app (sv_env sv) i pk"
    and "respond show_id parse_id app i luck (daemon_register_request pk host) sv = (r1, sv1)"
    and "respond show_id parse_id app n luck daemon_peers_request sv1 = (r2, sv2)"
    and "respond show_id parse_id app n luck (approve_request (show_id i)) sv2 = (r3, sv3)"
    and "respond show_id parse_id app n luck daemon_peers_request sv3 = (r4, sv4)"
    and "cw_http w url (approve_request (show_id i)) = r3" and "our \<noteq> i" and "\<forall>j. reg j = (True, True)"
  shows "daemon_registration parse_id r1 = Some (i, show_ipv4 (next_ip app (tables (sv_env sv))))
     \<and> (\<exists>ps. daemon_peers parse_id r2 = Some ps \<and> i \<notin> pi_device_id ` set ps)
     \<and> cli_main show6 w \<lparr>cl_daemon_url = base, cl_command = AdminCommand (AdminApprove url (show_id i))\<rparr>
         = ret \<lparr>co_result = Ok (), co_stdout = [''Device '' @ show_id i @ '' approved.''], co_stderr = [], co_spawned = None\<rparr>
     \<and> (\<exists>route links out. connect_peers raddr our reg (daemon_peers parse_id r4) = ret (Ok (route, links), out)
         \<and> (\<forall>ip j. route ip = Some j \<longleftrightarrow> j \<noteq> our \<and> (j = i \<and> ip = next_ip app (tables (sv_env sv))
              \<or> (\<exists>r\<in>set (devices (tables (sv_env sv))). row_status r = 1 \<and> row_id r = j \<and> row_ipv4 r = show_ipv4 ip))))"
proof -
  let ?d = "tables (sv_env sv)" and ?new = "registered_row app (sv_env sv) i pk host"
  note j = join_exchange [OF assms(1,3-6)]
  note p = peers_exchange [OF assms(1) j(3,4) assms(7)]
  have inv2: "db_inv (tables (sv_env sv2))" using j(3) p(2) by simp
  have fresh: "\<forall>r\<in>set (devices ?d). row_id r \<noteq> i" and ne: "devices ?d \<noteq> []"
    using assms(5) by (simp_all add: can_join_def)
  have d1: "devices (tables (sv_env sv2)) = devices ?d @ [?new]" by (simp add: p(2) j(2) joined_devices)
  have address: "row_ipv4 ?new = show_ipv4 ip \<longleftrightarrow> ip = next_ip app ?d" for ip
    by (auto simp: registered_row_fields(3))
  have parse: "parse_id (show_id i) = Some i" using uuid_textD(1) [OF assms(1)] .
  note a = approve_over_http_fact [OF inv2 p(3) assms(2,8,10), of show6 base]
  have pending: "\<exists>r\<in>set (devices (tables (sv_env sv2))). row_id r = i \<and> row_status r = 0"
    using registered_row_fields(1) [OF ne] registered_row_fields(2) by (simp add: d1)
  have "\<exists>ps. daemon_peers parse_id r2 = Some ps \<and> i \<notin> pi_device_id ` set ps"
  proof -
    obtain ps where ps: "daemon_peers parse_id r2 = Some ps"
        "map pi_device_id ps = map row_id (sort_key row_created (filter (\<lambda>r. row_status r = 1) (devices ?d)))"
      using peers_reply [OF j(3,4)] registered_row_fields(1) [OF ne, of app i pk host]
      by (auto simp: p(1) answered_def j(2) joined_devices comp_def)
    from ps(2) have "set (map pi_device_id ps) = row_id ` {r \<in> set (devices ?d). row_status r = 1}" by simp
    with ps(1) fresh show ?thesis by auto
  qed
  moreover have "\<exists>route links out. connect_peers raddr our reg (daemon_peers parse_id r4) = ret (Ok (route, links), out)
         \<and> (\<forall>ip j. route ip = Some j \<longleftrightarrow> j \<noteq> our \<and> (j = i \<and> ip = next_ip app ?d
              \<or> (\<exists>r\<in>set (devices ?d). row_status r = 1 \<and> row_id r = j \<and> row_ipv4 r = show_ipv4 ip)))"
  proof -
    have s3: "devices (tables (sv_env sv3)) = map (\<lambda>r. if Some i = Some (row_id r) \<and> row_status r = 0
        then r\<lparr>row_status := 1\<rparr> else r) (devices ?d @ [?new])" "faults (sv_env sv3) = []"
      using a p(3) by (simp_all add: parse d1)
    have "sv_env sv3 = snd (run_state (serve app (ApproveReq i)) (sv_env sv2))"
      using assms(2,8) parse by (auto simp: respond_Serve dispatch_admin_param plain_segmentD simp del: serve.simps)
    then have inv3: "db_inv (tables (sv_env sv3))" using serve_keeps_inv [OF inv2] by (simp only:)
    note q = peers_exchange(1) [OF assms(1) inv3 s3(2) assms(9)]
    obtain ps where ps: "fst (run_state handle_peers (sv_env sv3)) = ret (Ok ps)"
      using peers_reply [OF inv3 s3(2)] by blast
    from connect_approved_peers_fact [OF inv3 s3(2) ps assms(12), of raddr our]
    obtain route links out where c: "connect_peers raddr our reg (Some ps) = ret (Ok (route, links), out)"
      "\<forall>ip j. route ip = Some j \<longleftrightarrow> (\<exists>r\<in>set (devices (tables (sv_env sv3))).
          row_status r = 1 \<and> row_id r = j \<and> j \<noteq> our \<and> row_ipv4 r = show_ipv4 ip)"
      by (elim exE conjE) (rule that; assumption)
    have "route ip = Some j \<longleftrightarrow> j \<noteq> our \<and> (\<exists>r\<in>set (devices (tables (sv_env sv3))).
          row_status r = 1 \<and> row_id r = j \<and> row_ipv4 r = show_ipv4 ip)" for ip j
      using c(2) by blast
    then have "\<forall>ip j. route ip = Some j \<longleftrightarrow> j \<noteq> our \<and> (j = i \<and> ip = next_ip app ?d
              \<or> (\<exists>r\<in>set (devices ?d). row_status r = 1 \<and> row_id r = j \<and> row_ipv4 r = show_ipv4 ip))"
      unfolding s3(1) approved_rows [OF fresh registered_row_fields(2) registered_row_fields(1) [OF ne]]
      by (simp only: address) simp
    moreover have "daemon_peers parse_id r4 = Some ps" by (simp add: q ps answered_def)
    then have "connect_peers raddr our reg (daemon_peers parse_id r4) = ret (Ok (route, links), out)"
      using c(1) by simp
    ultimately show ?thesis by (intro exI conjI)
  qed
  ultimately show ?thesis
    using j(1) a pending by (simp add: parse)
qed

theorem join_network_witness:
  "\<exists>(sv3 :: nat server) r4 sv4 route links out.
     respond decimal_id parse_decimal_id sample_app 9 (CopyDone, True) daemon_peers_request sv3 = (r4, sv4)
     \<and> connect_peers addr_a 1 (\<lambda>_. (True, True)) (daemon_peers parse_decimal_id r4) = ret (Ok (route, links), out)
     \<and> route (next_ip sample_app (tables two_devices)) = Some 3"
proof -
  let ?respond = "\<lambda>n. respond decimal_id parse_decimal_id sample_app n (CopyDone, True)"
  let ?sv = "\<lparr>sv_env = two_devices, sv_files = Map.empty\<rparr> :: nat server"
  have third: "next_ip sample_app (tables two_devices) = ipv4_new 100 64 0 1 + 1"
    by (simp add: next_ip_def sample_app_def two_devices_def sample_ip_next [symmetric])
  have "show_ipv4 (next_ip sample_app (tables two_devices)) \<noteq> ''100.64.0.0''"
      "show_ipv4 (next_ip sample_app (tables two_devices)) \<noteq> ''100.64.0.1''"
    unfolding third show_sample_ips [symmetric] show_ipv4_inj
    by (simp_all add: ipv4_new_def u32_of_be_def be_val_def)
  then have new: "can_join sample_app (sv_env ?sv) 3 (replicate 32 3)"
    by (auto simp: can_join_def pool_full_def two_devices_def laptop_row_def phone_row_def replicate_eq_replicate sample_app_def)
  have seg: "plain_segment (decimal_id 3)" by (simp add: plain_segment_def decimal_id_def) code_simp
  obtain r1 sv1 where 1: "?respond 3 (daemon_register_request (replicate 32 3) ''tablet'') ?sv = (r1, sv1)" by fastforce
  obtain r2 sv2 where 2: "?respond 9 daemon_peers_request sv1 = (r2, sv2)" by fastforce
  obtain r3 sv3 where 3: "?respond 9 (approve_request (decimal_id 3)) sv2 = (r3, sv3)" by fastforce
  obtain r4 sv4 where 4: "?respond 9 daemon_peers_request sv3 = (r4, sv4)" by fastforce
  let ?w = "\<lparr>cw_http = \<lambda>_ _. r3, cw_line = None, cw_spawn = None\<rparr>"
  have ok: "db_inv (tables (sv_env ?sv))" "faults (sv_env ?sv) = []" using two_devices_ok by simp_all
  have w: "cw_http ?w [] (approve_request (decimal_id 3)) = r3" by simp
  from join_network [OF decimal_ids seg ok new 1 2 3 4 w, of 1 "\<lambda>_. (True, True)" "\<lambda>_ _. []" "[]" addr_a]
  obtain route links out where c: "connect_peers addr_a 1 (\<lambda>_. (True, True)) (daemon_peers parse_decimal_id r4) = ret (Ok (route, links), out)"
    and "route (next_ip sample_app (tables two_devices)) = Some 3"
    by auto
  with 4 show ?thesis by blast
qed

end
