(* ===== verification/Vpn_Packet.thy ===== *)
theory Vpn_Packet
  imports Daemon Shared_Identity Mobile_Ffi
begin

text \<open>
  One packet across the whole network: from the TUN device of a desktop daemon
  (\<open>apps/daemon/src/main.rs\<close>) through the relay server (\<open>services/relay/src/main.rs\<close>) to the buffer of
  the mobile app (\<open>apps/mobile/src/ffi.rs\<close>), when both learned their peers from the control
  service (\<open>services/control/src/main.rs\<close>).
\<close>

section \<open>The phone learns its peers\<close>

definition other_ids :: "uuid \<Rightarrow> peer_info list \<Rightarrow> uuid list" where
  "other_ids our ps = map pi_device_id (filter (\<lambda>p. pi_device_id p \<noteq> our) ps)"

lemma peer_loop_skips_self:
  "peer_loop skip reg ps e n = peer_loop skip reg (filter (\<lambda>p. pi_device_id p \<noteq> en_our_id e) ps) e n"
proof (induction skip reg ps e n rule: peer_loop.induct)
  case (2 skip reg p ps e count)
  then show ?case
    by (cases "pi_device_id p = en_our_id e") (auto split: option.split sum.split intro!: Option.bind_cong)
qed simp

lemma peer_loop_succeeds:
  "\<forall>p\<in>set ps. parse_ipv4 (pi_ipv4 p) \<noteq> None
     \<Longrightarrow> \<exists>m e' out. peer_loop skip (\<lambda>_. (True, True)) ps e n = ret (Ok m, e', out)"
proof (induction ps arbitrary: e n)
  case (Cons p ps)
  then obtain vip where vip: "parse_ipv4 (pi_ipv4 p) = Some vip" by auto
  let ?e = "e\<lparr>en_peers := hm_insert (pi_device_id p)
      \<lparr>ps_vip = vip, ps_relay = relay_client_for e (pi_device_id p)\<rparr> (en_peers e)\<rparr>"
  have ps: "\<forall>p\<in>set ps. parse_ipv4 (pi_ipv4 p) \<noteq> None" using Cons.prems by simp
  show ?case
    using Cons.IH [OF ps, of ?e "n + 1"] Cons.IH [OF ps, of e n] vip by (auto simp: register_hello)
qed simp

lemma sync_peers_skips_self:
  "sync_peers reg (Some ps) e = sync_peers reg (Some (filter (\<lambda>p. pi_device_id p \<noteq> en_our_id e) ps)) e"
  using peer_loop_skips_self [of True reg ps e 0] by (simp add: sync_peers_def)

text \<open>The peer list of the control service: distinct devices with addresses that parse.\<close>

lemma peer_list_valid:
  assumes "db_inv (tables s)" and "faults s = []" and "fst (run_state handle_peers s) = ret (Ok ps)"
  shows "distinct (map pi_device_id ps)" and "\<forall>p\<in>set ps. parse_ipv4 (pi_ipv4 p) \<noteq> None"
    and "pi_device_id ` set ps = row_id ` {r \<in> set (devices (tables s)). row_status r = 1}"
proof -
  let ?rows = "sort_key row_created (filter (\<lambda>r. row_status r = 1) (devices (tables s)))"
  have ps: "ps = map (peer_view (now_of s)) ?rows"
    using peers_reply [OF assms(1,2)] assms(3) by (simp add: peer_view_def)
  have "\<forall>r\<in>set ?rows. \<exists>ip. row_ipv4 r = show_ipv4 ip"
    using db_invD(2) [OF assms(1)] by (auto simp: row_ok_def)
  then show "\<forall>p\<in>set ps. parse_ipv4 (pi_ipv4 p) \<noteq> None" unfolding ps by fastforce
  show "distinct (map pi_device_id ps)"
    using db_invD(1) [OF assms(1)] unfolding ps by (auto simp: unique_devices_def distinct_map o_def inj_on_def)
  show "pi_device_id ` set ps = row_id ` {r \<in> set (devices (tables s)). row_status r = 1}"
    unfolding ps by (simp add: image_image)
qed

section \<open>The daemon sends\<close>

lemma attempt_p2p_path: "link_path (fst (attempt_p2p addrs sock lk)) = link_path lk"
  by (auto simp: attempt_p2p_def split: option.split prod.split)

lemma daemon_sends_to_peer:
  assumes "db_inv (tables s)" and "faults s = []" and "fst (run_state handle_peers s) = ret (Ok ps)"
    and "rp \<in> set (devices (tables s))" and "row_status rp = 1" and "row_id rp \<noteq> sh_device_id d"
    and "row_ipv4 rp = show_ipv4 ip"
    and "is_ipv4_packet packet" and "pkt_dst_ip (packet_fields packet) = ip" and "length packet \<le> FORWARD_BUF"
  shows "\<exists>d' out bs.
     foldl daemon_step (ret (d, [])) [Refresh raddr (\<lambda>_. (True, True)) (Some ps) addrs socks, TunPacket packet True]
       = ret (d', out @ [(raddr, bs)])
     \<and> client_send (client_of raddr (sh_device_id d) (row_id rp)) packet True
       = ret (Ok (36 + length packet, [(raddr, bs)]))"
proof -
  let ?our = "sh_device_id d" and ?i = "row_id rp"
  obtain route links out where c: "connect_peers raddr ?our (\<lambda>_. (True, True)) (Some ps) = ret (Ok (route, links), out)"
      "\<And>ip i. route ip = Some i \<longleftrightarrow>
          (\<exists>r\<in>set (devices (tables s)). row_status r = 1 \<and> row_id r = i \<and> i \<noteq> ?our \<and> row_ipv4 r = show_ipv4 ip)"
      "\<And>i. (\<exists>lk. links i = Some lk) \<longleftrightarrow> (\<exists>r\<in>set (devices (tables s)). row_status r = 1 \<and> row_id r = i \<and> i \<noteq> ?our)"
      "\<And>i lk. links i = Some lk \<Longrightarrow> pm_relay (link_path lk) = client_of raddr ?our i"
    using connect_approved_peers_fact [OF assms(1-3), of "\<lambda>_. (True, True)" raddr ?our] by auto
  have route: "route ip = Some ?i" unfolding c(2) using assms(4-7) by blast
  obtain lk where lk: "links ?i = Some lk" using c(3) [of ?i] assms(4-6) by blast
  have small: "length packet \<le> MAX_PAYLOAD" using assms(10) by (simp add: FORWARD_BUF_eq MAX_PAYLOAD_def)
  obtain bs where bs: "client_send (client_of raddr ?our ?i) packet True = ret (Ok (36 + length packet, [(raddr, bs)]))"
    using client_send_datagram [OF small, of "client_of raddr ?our ?i" raddr] by (simp add: client_of_def)
  let ?d = "d\<lparr>sh_ip_route := route, sh_peer_links := attempt_p2p_for_all addrs socks links\<rparr>"
  have "forward_packet ?d packet True = ret [(raddr, bs)]"
    using assms(8-10) route lk c(4) [OF lk] bs
    by (simp add: forward_packet_def parse_dst_ip_value attempt_p2p_for_all_def path_send_def attempt_p2p_path)
  with c(1) bs show ?thesis by simp
qed

section \<open>The phone receives\<close>

lemma phone_hears_last:
  assumes "distinct (map pi_device_id ps)" and "\<forall>p\<in>set ps. parse_ipv4 (pi_ipv4 p) \<noteq> None"
    and "other_ids our ps \<noteq> []" and "inj_on sock (set (other_ids our ps))"
    and "engine_new (Some (our, address)) raddr now = Ok e0"
    and "exited rs = None" and "length msg \<le> MAX_PAYLOAD"
    and "client_send (client_of raddr sd our) msg True = ret (Ok (k, [(raddr, bs)]))"
  shows "\<exists>e regs. engine_init (Some (our, address)) (\<lambda>_. (True, True)) (Some ps) raddr now engine
       = ret (Ok (), Some e, regs)
     \<and> (let s1 = relay_run rs (hello_events sock (other_ids our ps) regs);
            s2 = relay_step s1 (Recv bs src True)
        in recv_from_any (\<lambda>i. delivered s1 s2 (sock i)) e
             = ret (if sd = last (other_ids our ps) then Ok msg else Err NoData))"
proof -
  let ?ps = "filter (\<lambda>p. pi_device_id p \<noteq> our) ps"
  have e0: "en_our_id e0 = our" "en_relay_server e0 = raddr" "en_peers e0 = []"
    using assms(5) by (auto simp: engine_new_def split: option.splits)
  have "\<forall>p\<in>set ?ps. parse_ipv4 (pi_ipv4 p) \<noteq> None" using assms(2) by auto
  from peer_loop_succeeds [OF this, of True e0 0]
  obtain m e regs where sync: "sync_peers (\<lambda>_. (True, True)) (Some ?ps) e0 = ret (Ok m, e, regs)"
    by (auto simp: sync_peers_def)
  then have "sync_peers (\<lambda>_. (True, True)) (Some ps) e0 = ret (Ok m, e, regs)"
    using sync_peers_skips_self [of _ ps e0] e0(1) by simp
  with assms(5) have init: "engine_init (Some (our, address)) (\<lambda>_. (True, True)) (Some ps) raddr now engine
      = ret (Ok (), Some e, regs)" by (simp add: engine_init_def)
  have "distinct (map pi_device_id ?ps)" using assms(1) by (rule distinct_map_filter)
  moreover have "\<forall>p\<in>set ?ps. pi_device_id p \<noteq> en_our_id e0" using e0(1) by simp
  moreover have "?ps \<noteq> []" "inj_on sock (pi_device_id ` set ?ps)"
    using assms(3,4) by (simp_all add: other_ids_def)
  ultimately show ?thesis
    using init engine_hears_one_peer [OF sync e0(3) _ _ _ _ assms(6,7), of sock sd k bs src] assms(8)
    by (simp add: e0 client_of_def other_ids_def Let_def)
qed

text \<open>
  C5: One packet through the whole network. A laptop and a phone are approved devices of a
  consistent control store, and both take their peers from its reply. An IPv4 packet for the
  phone's address, at most as long as the laptop's forwarding buffer, is read from the laptop's TUN
  device: the daemon sends one datagram to the relay. After the relay took it, the call with
  which the app reads a packet yields exactly these bytes if the laptop is the last peer in the
  phone's list, and nothing otherwise; so in a network of two devices it always arrives.
\<close>

theorem packet_reaches_phone:
  assumes "db_inv (tables s)" and "faults s = []" and "fst (run_state handle_peers s) = ret (Ok ps)"
    and "rl \<in> set (devices (tables s))" and "row_status rl = 1"
    and "rp \<in> set (devices (tables s))" and "row_status rp = 1" and "row_id rp \<noteq> row_id rl"
    and "row_ipv4 rp = show_ipv4 ip" and "sh_device_id d = row_id rl"
    and "parse_socket parse6 (cstr_to_str relay_text) = Some raddr"
    and "inj_on sock (set (other_ids (row_id rp) ps))" and "exited rs = None"
    and "is_ipv4_packet packet" and "pkt_dst_ip (packet_fields packet) = ip"
    and "length packet \<le> FORWARD_BUF" and "length packet \<le> n"
  shows "\<exists>d' out bs e regs.
     foldl daemon_step (ret (d, [])) [Refresh raddr (\<lambda>_. (True, True)) (Some ps) addrs socks, TunPacket packet True]
       = ret (d', out @ [(raddr, bs)])
     \<and> connectalso_init parse6 relay_text (Some (row_id rp, row_ipv4 rp)) (\<lambda>_. (True, True)) (Some ps) now engine
       = ret (0, Some e, regs)
     \<and> (let others = other_ids (row_id rp) ps;
            s1 = relay_run rs (hello_events sock others regs);
            s2 = relay_step s1 (Recv bs src True)
        in connectalso_recv_packet False n (\<lambda>i. delivered s1 s2 (sock i)) (Some e)
             = ret (if row_id rl = last others then (packet, int (length packet)) else ([], 0)))"
proof -
  note valid = peer_list_valid [OF assms(1-3)]
  obtain d' out bs where sent:
      "foldl daemon_step (ret (d, [])) [Refresh raddr (\<lambda>_. (True, True)) (Some ps) addrs socks, TunPacket packet True]
         = ret (d', out @ [(raddr, bs)])"
      "client_send (client_of raddr (row_id rl) (row_id rp)) packet True
         = ret (Ok (36 + length packet, [(raddr, bs)]))"
    using daemon_sends_to_peer [OF assms(1-3,6,7) _ assms(9,14-16), of d] assms(8,10) by metis
  have "row_id rl \<in> set (other_ids (row_id rp) ps)"
    using valid(3) assms(4,5,8) by (force simp: other_ids_def)
  then have ne: "other_ids (row_id rp) ps \<noteq> []" by auto
  obtain e0 where "engine_new (Some (row_id rp, row_ipv4 rp)) raddr now = Ok e0"
    using assms(9) by (simp add: engine_new_def)
  moreover have small: "length packet \<le> MAX_PAYLOAD" "as_i32 (length packet) = int (length packet)"
    using assms(16) by (simp_all add: FORWARD_BUF_eq MAX_PAYLOAD_def as_i32_small)
  ultimately show ?thesis
    using phone_hears_last [OF valid(1,2) ne assms(12) _ assms(13) _ sent(2), of "row_ipv4 rp" now e0 engine src]
      sent(1) assms(11,17)
    by (auto simp: connectalso_init_def connectalso_recv_packet_def engine_recv_packet_def copy_out_def Let_def)
qed

text \<open>A relay address as the app's configuration writes it.\<close>

lemma utf8_valid_ascii: "\<forall>b\<in>set bs. b < 0x80 \<Longrightarrow> utf8_valid bs"
  by (induction bs) simp_all

lemma of_char_u8:
  assumes "of_char c < (128 :: nat)"
  shows "char_of (unat (of_char c :: u8)) = c" and "(of_char c :: u8) < 0x80"
proof -
  have "(of_char c :: u8) = of_nat (of_char c)" by (cases c) (simp split: bool.splits)
  then have u: "unat (of_char c :: u8) = of_char c" using assms by (simp add: unat_of_nat)
  then show "char_of (unat (of_char c :: u8)) = c" by simp
  show "(of_char c :: u8) < 0x80" using assms u by (simp add: word_less_nat_alt)
qed

lemma cstr_to_str_ascii:
  assumes "is_ascii s"
  shows "cstr_to_str (Some (map of_char s)) = s"
proof -
  have ascii: "\<forall>c\<in>set s. of_char c < (128 :: nat)" using assms by (simp add: is_ascii_def list_all_iff)
  then have "\<forall>b\<in>set (map of_char s :: bytes). b < 0x80" using of_char_u8(2) by auto
  then have "utf8_valid (map of_char s)" by (rule utf8_valid_ascii)
  moreover have "map (\<lambda>c. char_of (unat (of_char c :: u8))) s = s"
    using ascii of_char_u8(1) by (intro map_idI) auto
  ultimately show ?thesis by (simp add: cstr_to_str_def o_def)
qed

lemma relay_text_parsed:
  "parse_socket parse6 (cstr_to_str (Some (map of_char (show_socket show6 (SocketAddr (V4 ip) port)))))
     = Some (SocketAddr (V4 ip) port)"
proof -
  have ok: "of_char c < (128 :: nat)" if "c = CHR ''.'' \<or> c = CHR '':'' \<or> is_digit c" for c
    using that by (auto simp: is_digit_def)
  have "is_ascii (show_socket show6 (SocketAddr (V4 ip) port))"
    unfolding is_ascii_def list_all_iff
  proof
    fix c assume "c \<in> set (show_socket show6 (SocketAddr (V4 ip) port))"
    then have "c \<in> set (show_ipv4 ip) \<or> c = CHR '':'' \<or> c \<in> set (show_nat (unat port))"
      by (auto simp del: show_nat.simps)
    then show "of_char c < (128 :: nat)"
      using ok show_ipv4_chars [of c ip] not_digit_show_nat [of c "unat port"] by blast
  qed
  then show ?thesis by (simp only: cstr_to_str_ascii parse_show_socket_v4)
qed

definition relay_host :: socket_addr where
  "relay_host = SocketAddr (V4 (ipv4_new 10 0 0 9)) 33478"

definition relay_text :: bytes where
  "relay_text = map of_char (show_socket (\<lambda>_ _. []) relay_host)"

theorem packet_reaches_phone_witness:
  "\<exists>ps d' out bs e regs.
     fst (run_state handle_peers two_devices) = ret (Ok ps)
     \<and> foldl daemon_step (ret (sample_state, []))
         [Refresh relay_host (\<lambda>_. (True, True)) (Some ps) (\<lambda>_. []) (\<lambda>_. None), TunPacket sample_packet True]
       = ret (d', out @ [(relay_host, bs)])
     \<and> connectalso_init (\<lambda>_. None) (Some relay_text) (Some (2, ''100.64.0.1'')) (\<lambda>_. (True, True)) (Some ps) 0 None
       = ret (0, Some e, regs)
     \<and> (let s1 = relay_run relay_init (hello_events (\<lambda>_. addr_a) [1] regs);
            s2 = relay_step s1 (Recv bs addr_b True)
        in connectalso_recv_packet False 1500 (\<lambda>i. delivered s1 s2 addr_a) (Some e) = ret (sample_packet, 20))"
proof -
  obtain ps where ps: "fst (run_state handle_peers two_devices) = ret (Ok ps)"
    using peers_reply [OF two_devices_ok] by blast
  then have others: "other_ids (row_id phone_row) ps = [1]"
    using peers_reply [OF two_devices_ok]
    by (auto simp: other_ids_def two_devices_def laptop_row_def phone_row_def)
  have packet: "is_ipv4_packet sample_packet" "pkt_dst_ip (packet_fields sample_packet) = ipv4_new 100 64 0 1"
      "length sample_packet \<le> FORWARD_BUF" "length sample_packet \<le> 1500" "length sample_packet = 20"
    by (simp_all add: is_ipv4_packet_def packet_fields_def sample_packet_def FORWARD_BUF_eq ipv4_new_def)
  have rows: "laptop_row \<in> set (devices (tables two_devices))" "row_status laptop_row = 1"
      "phone_row \<in> set (devices (tables two_devices))" "row_status phone_row = 1" "row_id phone_row \<noteq> row_id laptop_row"
      "row_ipv4 phone_row = show_ipv4 (ipv4_new 100 64 0 1)" "sh_device_id sample_state = row_id laptop_row"
    by (simp_all add: two_devices_def laptop_row_def phone_row_def show_sample_ips sample_state_def)
  have host: "parse_socket (\<lambda>_. None) (cstr_to_str (Some relay_text)) = Some relay_host"
    unfolding relay_text_def relay_host_def by (rule relay_text_parsed)
  have "inj_on (\<lambda>_. addr_a) (set (other_ids (row_id phone_row) ps))" "exited relay_init = None"
    by (simp_all add: others relay_init_def)
  from packet_reaches_phone [OF two_devices_ok ps rows host this packet(1-4),
      of "\<lambda>_. []" "\<lambda>_. None" 0 None addr_b] ps
  show ?thesis
    by (simp add: others packet(5) laptop_row_def) (simp add: phone_row_def)
qed

end
