(* ===== verification/Spec2Isabelle.thy ===== *)
theory Spec2Isabelle
  imports Acl Overlay Relay_Pool Pool_Recovery Stun Nat_Traversal Punch_Pair Tunnel Fuzz_Targets Unit_Tests
    Relay_Interop Integration_Tests Control_Service Control_Backup Control_Main Dns Daemon_Run Keep_Alive
    Mobile_Ffi Mobile_Android Shared_Identity Network_Join Vpn_Packet
begin

text \<open>
  A verification development for ConnectAlso, an overlay network: devices register at a control
  service, get an address of a private network from it, and exchange IP packets through relay
  servers or directly. It models the Rust code under \<open>src/\<close> and proves what its parts do, alone and
  together.

  The program and its theories. Each operation is a function named after the code's; a
  struct is a record, an enum a datatype, a machine integer a word or a natural number with its
  bound written out; a result is a sum (\<open>Ok\<close>, \<open>Err\<close>), a possible panic is \<open>panics\<close> (an option whose
  \<open>None\<close> is the panic), and a call that touches a socket takes the outcome of the socket as an
  argument and returns the datagrams it sends. A background loop is a step function, and what it
  does for ever is stated of every finite sequence of its events.

    \<^item> \<open>CA_Prelude\<close>, \<open>Net_Addr\<close>, \<open>Text_Format\<close>: what the components share. Bytes, big-endian fields,
      results and panics, stable sorting, the printing and parsing of addresses, the byte
      structure of strings; and the interfaces as locales: \<open>step_system\<close> (an invariant of a step
      function, interpreted by the store, the relay pool, the path manager, two punching peers, the
      daemon, the daemon in operation and the mobile engine), \<open>monotone_system\<close>, \<open>message_format\<close> (the relay
      frames), \<open>binding_service\<close> of \<open>Stun\<close>, \<open>json_codec\<close> of \<open>Json\<close> (an encoder with the decoder of the other
      program, interpreted for every message) and \<open>store_rule\<close> of \<open>Control_Main\<close> (a property of the store
      kept by statements, and so by every handler).
    \<^item> \<open>Acl\<close> (\<open>crates/core\<close>): the IPv4 header parser and the rule evaluation, equal to a first-match
      policy in stable priority order.
    \<^item> \<open>Relay_Proto\<close>, \<open>Relay_Server\<close>, \<open>Relay_Client\<close> (\<open>crates/relay-proto\<close>, \<open>services/relay\<close>,
      \<open>crates/tunnel/src/relay.rs\<close>): frames and their round trips; the server's loop as a refinement
      of a registry of announcements, what it forwards, where all it sends comes from and what
      stops it; the delivery from client to client.
    \<^item> \<open>Relay_Pool\<close>, \<open>Pool_Recovery\<close> (\<open>crates/tunnel/src/relay_pool.rs\<close>): probes, selection, failover, summary;
      the pool finds a relay that answers from any state it can reach.
    \<^item> \<open>Session_Cipher\<close>, \<open>Tunnel\<close> (\<open>crates/crypto\<close>, \<open>crates/tunnel\<close>): key exchange, nonces, the tunnel and
      the path manager.
    \<^item> \<open>Stun\<close>, \<open>Nat_Traversal\<close> (\<open>crates/nat\<close>, \<open>services/stun\<close>): STUN client and server against each other,
      NAT classification, candidates, hole punching.
      \<open>Punch_Pair\<close>: two peers that punch towards each other, under every interleaving.
    \<^item> \<open>Control_Db\<close>, \<open>Control_Service\<close>, \<open>Control_Backup\<close> (\<open>services/control\<close>): the tables with the SQL
      statements of the source as steps, all handlers over a state monad with failing statements
      and a clock, the router, the backup files. Their invariants hold for every interleaving and
      failure of statements.
    \<^item> \<open>Tun_Device\<close> (\<open>crates/platform\<close>), \<open>Daemon\<close>, \<open>Daemon_Run\<close>, \<open>Keep_Alive\<close>, \<open>Dns\<close> (\<open>apps/daemon\<close>): the peers of a
      daemon, its forwarding, its start, its tasks, diagnostics and requests, and the DNS
      responder.
    \<^item> \<open>Mobile_Engine\<close>, \<open>Mobile_Ffi\<close>, \<open>Mobile_Android\<close>, \<open>Shared_Identity\<close> (\<open>apps/mobile\<close>): the mobile engine with its
      queue, its C and its Java interface, and what becomes of several relay clients under one id.
    \<^item> \<open>Cli\<close>, \<open>Desktop\<close> (\<open>apps/cli\<close>, \<open>apps/desktop\<close>): the commands as functions from replies to printed
      lines, and the tray.
    \<^item> \<open>Json\<close>, \<open>Control_Http\<close>, \<open>Control_Main\<close> (\<open>services/control/src/main.rs\<close>): JSON values and what the derived
      decoders accept; the router, the bodies of all requests and replies, the rejections, and
      \<open>respond\<close>, which answers one HTTP request on the store and the files; the start of the service
      with its network, its life over several starts, and the addresses it hands out.
    \<^item> \<open>Control_Client\<close>, \<open>Daemon_Api\<close>, \<open>Cli_Main\<close> (\<open>apps/daemon\<close>, \<open>apps/mobile\<close>, \<open>apps/cli\<close>, \<open>apps/desktop\<close>): the requests of
      the clients and the structs into which each decodes the replies, the status interface of
      the daemon and what stops it, the main functions of the command line and of the tray.
    \<^item> \<open>Network_Join\<close>: a device joins a network, from the registration of its daemon over the approval
      command to the routes of the other daemons, all over HTTP.
    \<^item> \<open>Vpn_Packet\<close>: one packet from the TUN device of a desktop daemon through the relay to the buffer of
      the mobile app, with the peers of both taken from the control store.
    \<^item> \<open>Fuzz_Targets\<close> (\<open>crates/*/fuzz\<close>): the fuzz targets never panic. \<open>Unit_Tests\<close>: the unit tests of the
      crates, run on the model for all their random draws. \<open>Relay_Interop\<close> (\<open>crates/tunnel/tests\<close>): the relay
      that the integration tests spawn against the relay server, and their encrypted exchange.
      \<open>Integration_Tests\<close>: these tests and the test of the NAT traversal, on the local host.
    \<^item> This theory: properties that span a client and a service.

  How the parts meet in the proofs. The daemon's table of peers is computed from the reply of the
  control service's handler and refines the Approved rows of its store (\<open>connect_approved_peers\<close>);
  with the invariant of the store this gives progress: one tick after its approval a device is
  reachable through a relay of the daemon's pool (\<open>approved_device_reachable\<close>). A packet passes from
  client to client through the server's step function, the candidates from one daemon to
  another through the service's handlers, a packet of a laptop from its device into the app of a
  phone (\<open>packet_reaches_phone\<close>), the STUN answer from the server to the client, the
  status of a daemon through its reply to the command line and to the tray. The requests of a
  tick keep a device from the purge (\<open>ticking_device_is_kept\<close>).

  Bounds and loops. No definition has fuel. Rounds and loops of the source are structural
  recursions (over the peers, the candidates, the ten rounds of punching, the received datagrams)
  or functions with a measure (the STUN attributes and the DNS labels, whose position grows).
  A receive loop that waits for a matching datagram runs over the list of datagrams to come;
  the end of the list stands for waiting.

  Messages. A message between two programs is a JSON value with the field names of the sender's
  struct or \<open>json!\<close> literal; the receiver's struct decides what is read. A decoder follows the
  documented rules of a derived \<open>Deserialize\<close>: a field may be missing only if it has a default or
  is an option, unknown fields are ignored, duplicates are refused, integers must fit their type.
  A path is routed as \<open>axum\<close> documents it: literal segments before parameters, 404 for an unknown
  path, 405 for an unknown method, 400, 415 and 422 for a parameter or body that does not decode.

  Arguments instead of models. X25519 and ChaCha20-Poly1305 (the hypotheses \<open>dh_ok\<close> and \<open>aead_ok\<close>,
  and \<open>aead_accepts\<close> of the tests: every plaintext up to the limit of RFC 8439 is encrypted),
  the text of a UUID (\<open>uuid_text_ok\<close>: it parses back, is not empty, has no slash and is not the
  literal segment \<open>pending\<close>), the tun2 device, the text of JSON values, the printing and parsing of
  IPv6 addresses, \<open>to_lowercase\<close> outside ASCII, the f32 alpha of the tray icon, the texts of foreign
  errors, the order of a hash map, the clock and the random numbers.

  Not modelled. Argument parsing (clap), the transport of HTTP (percent escapes in paths, limits on
  sizes, keep-alive), logging (the fields of a \<open>tracing\<close> span included), file paths, what the tray
  and the menu look like. Tasks that run at the same time are sequences of atomic steps, since
  each holds the lock of the state over its step; SQL statements interleave singly. A panic in a task of the
  daemon ends that task alone; only the task of the status interface can meet one. The open
  SQLite connection during a restore is not modelled. The daemon's tasks for the direction from
  the relay to the device do nothing in the code (they lock, unlock and sleep), so there is no
  step for them. The Java interface (\<open>apps/mobile/src/android.rs\<close>) calls \<open>block_on\<close> on a lock that is
  never filled and does not compile as it stands; \<open>Mobile_Android\<close> reads these calls as running on the
  runtime that the lock is declared to hold.

  What the model showed is listed with the properties: among others, the relay stops at one
  oversized frame, unregistering a device can end all registrations, no daemon ever uses a
  direct path or receives a packet, and none is stopped by the request to shut down.
\<close>

section \<open>The status command and the hostname of a peer\<close>

definition cuts_character :: "bool \<Rightarrow> string \<Rightarrow> bool" where
  "cuts_character verbose t \<longleftrightarrow> \<not> is_char_boundary t (min (length t) (shown_width verbose))"

text \<open>
  C39: Asked about a running daemon, the status command panics exactly if the 20th byte
  (16th with \<open>--verbose\<close>) of some peer's hostname lies inside a character: the daemon puts the
  hostname where the client expects the device id, and the client cuts it by bytes. With ASCII
  hostnames it never does.
\<close>

theorem status_panics_on_hostname:
  "(cmd_status (HttpStatus 200 (Some (cli_view show_id (handle_status s values now)))) verbose = panic
      \<longleftrightarrow> (\<exists>lk\<in>set values. cuts_character verbose (link_hostname lk)))
   \<and> \<not> (\<exists>lk\<in>set values. is_ascii (link_hostname lk) \<and> cuts_character verbose (link_hostname lk))"
proof
  show "cmd_status (HttpStatus 200 (Some (cli_view show_id (handle_status s values now)))) verbose = panic
      \<longleftrightarrow> (\<exists>lk\<in>set values. cuts_character verbose (link_hostname lk))"
    by (auto simp: cmd_status_panics is_success_def cli_view_def handle_status_def status_peer_of_def cuts_character_def)
  show "\<not> (\<exists>lk\<in>set values. is_ascii (link_hostname lk) \<and> cuts_character verbose (link_hostname lk))"
    by (auto simp: cuts_character_def boundary_ascii)
qed

text \<open>Seven characters of three bytes, as in a Chinese hostname, are enough.\<close>

lemma seven_wide_characters_cut:
  "cuts_character False (concat (replicate 7 [CHR 0xE7, CHR 0x94, CHR 0xB5]))"
  by code_simp

section \<open>The tray\<close>

text \<open>
  Whatever a started daemon has gone through, the tray that asks it shows a relay connection
  if the daemon has a peer and no connection otherwise; it never shows a direct one.
\<close>

theorem tray_never_direct:
  assumes "daemon_start show6 args keypair net = ret (Ok d0, cfg, out0)"
    and "foldl run_step (ret (d0, out0)) es = ret (d, out)"
    and "set values = ran (sh_peer_links (dm_shared d))" and "show_id (sh_device_id (dm_shared d)) \<noteq> []"
  shows "fetch_status (HttpStatus 200 (Some (tray_view show_id (handle_status (dm_shared d) values now))))
     = (if values = [] then Disconnected else RelayOnly)"
proof -
  have "run_inv (da_relay_servers args) (ret (d, out))"
    using run_system.run_inv [OF daemon_start_run_inv [OF assms(1)], of es] assms(2) by simp
  then have relay: "sp_path (status_peer_of lk) = ''relay''" if "lk \<in> set values" for lk
    using that assms(3) by (auto simp: run_inv_def link_inv_def status_peer_of_def path_text_def ran_def)
  then have "\<not> list_ex (\<lambda>p. tp_path p = ''direct'') (ts_peers (tray_view show_id (handle_status (dm_shared d) values now)))"
    by (auto simp: list_ex_iff tray_view_def handle_status_def)
  with assms(4) show ?thesis
    by (simp add: fetch_status_def is_success_def) (simp add: tray_view_def handle_status_def)
qed

theorem tray_never_direct_witness:
  "\<exists>(d :: unit daemon) cfg out links. daemon_start (\<lambda>_ _. []) (sample_args [addr_a]) sample_keys sample_net = ret (Ok d, cfg, out)
     \<and> set links = ran (sh_peer_links (dm_shared d))
     \<and> fetch_status (HttpStatus 200 (Some (tray_view (\<lambda>_. ''id'') (handle_status (dm_shared d) links 5))))
         = (if links = [] then Disconnected else RelayOnly)"
proof -
  obtain d cfg out where d: "daemon_start (\<lambda>_ _. []) (sample_args [addr_a]) sample_keys sample_net = ret (Ok d, cfg, out)"
    using sample_start by blast
  have "finite (ran (sh_peer_links (dm_shared d)))"
    by (rule finite_ran) (rule sample_links_finite [OF d])
  then obtain links where v: "set links = ran (sh_peer_links (dm_shared d))" using finite_list by blast
  have "foldl run_step (ret (d, out)) [] = ret (d, out)" by simp
  from tray_never_direct [OF d this v, of "\<lambda>_. ''id''" 5]
  have "fetch_status (HttpStatus 200 (Some (tray_view (\<lambda>_. ''id'') (handle_status (dm_shared d) links 5))))
      = (if links = [] then Disconnected else RelayOnly)"
    by simp
  with d v show ?thesis by blast
qed

section \<open>Diagnostics of a healthy deployment\<close>

text \<open>What a datagram to this repository's relay server brings back to the asking socket.\<close>

definition relay_udp :: "relay_state \<Rightarrow> socket_addr \<Rightarrow> bool \<Rightarrow> nat \<Rightarrow> socket_addr \<Rightarrow> bytes \<Rightarrow> udp_outcome" where
  "relay_udp srv src send_ok ms server probe =
     (case find (\<lambda>d. fst d = src) (drop (length (sent srv)) (sent (relay_step srv (Recv probe src send_ok)))) of
        None \<Rightarrow> UdpTimeout
      | Some d \<Rightarrow> UdpAnswer (min (length (snd d)) 64) server ms)"

lemma relay_udp_silent: "relay_udp srv src ok ms a relay_check_bytes = UdpTimeout"
  by (simp add: relay_udp_def relay_step_short relay_check_bytes_def)

text \<open>
  C40: The diagnostics never pass against the relay server of this repository, in whatever state
  it is: it does not answer the daemon's probe, so the relay check is a warning (a timeout, or
  no relay configured), and the client does not print that all checks passed.
\<close>

theorem diagnostics_never_pass:
  "let r = handle_diagnostics show6 parse6 http stun (relay_udp srv src ok ms) config s values now
   in ck_status (dr_relay r) = ''warn''
      \<and> all_passed \<notin> set (snd (cmd_diag (HttpStatus 200 (Some (diagnostics_view r)))))"
proof -
  let ?r = "handle_diagnostics show6 parse6 http stun (relay_udp srv src ok ms) config s values now"
  have warn: "ck_status (dr_relay ?r) = ''warn''"
    by (auto simp: handle_diagnostics_def check_udp_def check_def relay_udp_silent split: option.split)
  then have "cc_status (di_relay (diagnostics_view ?r)) \<noteq> ''ok''"
    by (simp add: diagnostics_view_def check_view_def)
  then have "all_passed \<notin> set (snd (cmd_diag (HttpStatus 200 (Some (diagnostics_view ?r)))))"
    by (auto simp: cmd_diag_passed diag_checks_def)
  with warn show ?thesis by (simp add: Let_def)
qed

section \<open>Administration from the command line\<close>

lemma approved_after:
  assumes "\<not> (\<exists>r\<in>set rows. row_id r = i \<and> row_status r = 1)"
  shows "(\<exists>r\<in>set (map (\<lambda>r. if row_id r = i \<and> row_status r = 0 then r\<lparr>row_status := 1\<rparr> else r) rows).
            row_id r = i \<and> row_status r = 1)
     = (\<exists>r\<in>set rows. row_id r = i \<and> row_status r = 0)"
  using assms by (induction rows) auto

text \<open>
  The approval command says that the device was approved exactly if it was a Pending device
  of the store, and then, and only then, the device is among the Approved ones afterwards.
\<close>

theorem approve_from_cli:
  assumes "db_inv (tables s)" and "faults s = []"
    and "run_state (serve app (ApproveReq i)) s = (ApprovalR ok j, s')"
    and "\<not> (\<exists>r\<in>set (devices (tables s)). row_id r = i \<and> row_status r = 1)"
  shows "(snd (cmd_admin_approve t (HttpStatus 200 (Some (Some ok)))) = [''Device '' @ t @ '' approved.'']
            \<longleftrightarrow> (\<exists>r\<in>set (devices (tables s)). row_id r = i \<and> row_status r = 0))
     \<and> (snd (cmd_admin_approve t (HttpStatus 200 (Some (Some ok)))) = [''Device '' @ t @ '' approved.'']
            \<longleftrightarrow> (\<exists>r\<in>set (devices (tables s')). row_id r = i \<and> row_status r = 1))"
proof -
  have "(ApprovalR ok j, s') = run_state (serve app (ApproveReq i)) s" using assms(3) by simp
  also have "\<dots> = (let ((r, j), s') = run_state (handle_approve i) s in (ApprovalR r j, s'))"
    by (rule run_serve_approve)
  finally have s': "ok = (\<exists>r\<in>set (devices (tables s)). row_id r = i \<and> row_status r = 0)"
      "devices (tables s') = map (\<lambda>r. if row_id r = i \<and> row_status r = 0 then r\<lparr>row_status := 1\<rparr> else r) (devices (tables s))"
    unfolding approve_spec [OF assms(1,2)] by simp_all
  have "(snd (cmd_admin_approve t (HttpStatus 200 (Some (Some ok)))) = [''Device '' @ t @ '' approved.'']) = ok"
    by (simp add: cmd_admin_approve_def json_body_def is_true_def)
  moreover have "(\<exists>r\<in>set (devices (tables s')). row_id r = i \<and> row_status r = 1) = ok"
    unfolding s' by (rule approved_after [OF assms(4)])
  ultimately show ?thesis using s'(1) by blast
qed

theorem approve_from_cli_witness:
  "\<exists>ok j s'. run_state (serve sample_app (ApproveReq 9)) two_devices = (ApprovalR ok j, s')
     \<and> snd (cmd_admin_approve ''9'' (HttpStatus 200 (Some (Some ok)))) \<noteq> [''Device 9 approved.'']"
proof -
  obtain ok j s' where r: "run_state (serve sample_app (ApproveReq 9)) two_devices = (ApprovalR ok j, s')"
    unfolding run_serve_approve approve_spec [OF two_devices_ok] by simp
  have no: "\<not> (\<exists>r\<in>set (devices (tables two_devices)). row_id r = 9 \<and> row_status r = k)" for k
    by (simp add: two_devices_def laptop_row_def phone_row_def)
  from approve_from_cli [OF two_devices_ok r no, of "''9''"] no r show ?thesis by auto
qed

text \<open>
  C38: Backup and restore from the command line: after a backup that was reported as created,
  whatever happens to other files, a confirmed restore whose copy succeeds reports success and
  brings the database file back to its content at the time of the backup; without the
  confirmation nothing is sent.
\<close>

theorem backup_restore_from_cli:
  assumes "handle_backup app outcome True fs = ((path, ok), fs1)"
    and "snd (cmd_backup (HttpStatus 200 (Some (Some ok, Some path)))) = [''Backup created: '' @ backup_path (db_path app)]"
    and "fs2 (backup_path (db_path app)) = fs1 (backup_path (db_path app))"
    and "confirmed input"
  shows "handle_restore app CopyDone fs2 = (True, fs2(db_path app := fs (db_path app)))
     \<and> cmd_restore (Some input) (HttpStatus 200 (Some (Some True)))
         = ((Ok (), restore_prompt @ [''Database restored from backup.'']), True)
     \<and> (confirmed line = snd (cmd_restore (Some line) resp))"
proof -
  have "ok" using assms(2) by (auto simp: cmd_backup_def json_body_def is_true_def split: if_splits)
  then have "create_backup outcome True (db_path app) fs = (Ok path, fs1)"
    using assms(1) by (auto simp: handle_backup_def split: prod.splits sum.splits)
  then have "restore_backup CopyDone (db_path app) fs2 = (Ok (), fs2(db_path app := fs (db_path app)))"
    using backup_restore [where ?fs2.0 = fs2 and ?fs1.0 = fs1] assms(3) by blast
  then have "handle_restore app CopyDone fs2 = (True, fs2(db_path app := fs (db_path app)))"
    by (simp add: handle_restore_def)
  moreover have "confirmed line = snd (cmd_restore (Some line) resp)"
    by (auto simp: cmd_restore_def split: sum.splits)
  ultimately show ?thesis using assms(4)
    by (simp add: cmd_restore_def json_body_def is_true_def)
qed

theorem backup_restore_from_cli_witness:
  "\<exists>path ok fs1. handle_backup sample_app CopyDone True [''connectalso.db'' \<mapsto> (7 :: nat)] = ((path, ok), fs1)
     \<and> handle_restore sample_app CopyDone (fs1(''connectalso.db'' \<mapsto> 9)) = (True, fs1(''connectalso.db'' \<mapsto> 7))"
proof -
  let ?fs = "[''connectalso.db'' \<mapsto> (7 :: nat)]"
  let ?b = "backup_path ''connectalso.db''"
  have app: "db_path sample_app = ''connectalso.db''" by (simp add: sample_app_def)
  have b: "handle_backup sample_app CopyDone True ?fs = ((?b, True), ?fs(?b \<mapsto> 7))"
    by (simp add: handle_backup_def create_backup_def copy_file_def app Let_def)
  have printed: "snd (cmd_backup (HttpStatus 200 (Some (Some True, Some ?b))))
      = [''Backup created: '' @ backup_path (db_path sample_app)]"
    by (simp add: cmd_backup_def json_body_def is_true_def or_dash_def app)
  have "confirmed [32, 121, 10]" by code_simp
  moreover have "(?fs(?b \<mapsto> 7, ''connectalso.db'' \<mapsto> 9)) (backup_path (db_path sample_app))
      = (?fs(?b \<mapsto> 7)) (backup_path (db_path sample_app))" by (simp add: app)
  ultimately have "handle_restore sample_app CopyDone (?fs(?b \<mapsto> 7, ''connectalso.db'' \<mapsto> 9))
      = (True, (?fs(?b \<mapsto> 7, ''connectalso.db'' \<mapsto> 9))(db_path sample_app := ?fs (db_path sample_app)))"
    using backup_restore_from_cli [OF b printed] by blast
  also have "(?fs(?b \<mapsto> 7, ''connectalso.db'' \<mapsto> 9))(db_path sample_app := ?fs (db_path sample_app))
      = ?fs(?b \<mapsto> 7, ''connectalso.db'' \<mapsto> 7)"
    by (simp add: app)
  finally show ?thesis using b by blast
qed

section \<open>Starting the daemon from the command line\<close>

text \<open>The long options of the daemon's \<open>Cli\<close>; the relay addresses are positional.\<close>

definition daemon_long_options :: "string list" where
  "daemon_long_options = [''--control-url'', ''--stun-server'', ''--hostname'', ''--tun-name'', ''--api-listen'']"

text \<open>
  The start command, when it finds the program, spawns it with an option that the daemon does
  not declare, in the place of an option, and reports it as started.
\<close>

theorem start_passes_undeclared_option:
  "case cmd_start show6 control_url stun_addr raddr hostname False (Some pid) of
     (printed, errors, spawned) \<Rightarrow>
       last printed = ''Daemon started (PID: '' @ show_nat pid @ '').'' \<and> errors = []
       \<and> (\<exists>arguments k. spawned = Some arguments \<and> even k \<and> k < length arguments
            \<and> arguments ! k \<notin> set daemon_long_options)"
proof -
  have "''--relay-server'' \<notin> set daemon_long_options" by (simp add: daemon_long_options_def)
  then have "\<exists>k. even k \<and> k < length (start_args show6 control_url stun_addr raddr hostname)
      \<and> start_args show6 control_url stun_addr raddr hostname ! k \<notin> set daemon_long_options"
    by (intro exI [of _ 4]) (simp add: start_args_def)
  then show ?thesis by (simp add: cmd_start_def Let_def)
qed

end
